theory Spec2Isabelle
  imports Main "HOL-Library.Sublist" "HOL-Library.Word"
begin

chapter \<open>A model of the program\<close>

text \<open>
  eMitt receives emails over SMTP, parses them, stores them, routes each one to a
  mailbox by regular expressions on sender, recipients and subject, and processes it
  with a language model that may call tools (\<open>send_email\<close>, \<open>database_query\<close>,
  \<open>http_request\<close>, and tools of MCP servers). This chapter translates the Go
  functions that the properties of the second chapter are about. Structs are
  records, Go strings are byte lists, a pointer that may be nil is an option, an
  error result is the left summand of a sum (or \<open>Some\<close> of an option where the
  function returns nothing else). What lies outside the repository (regular
  expressions, the mail and MIME library, the SQL driver, the clock, the model's HTTP
  API, the mail transport) enters as a parameter or as explicit state.
\<close>

section \<open>Strings\<close>

text \<open>
  A Go string is a byte sequence; it is modelled as \<^typ>\<open>string\<close> (a list of
  \<^typ>\<open>char\<close>, one per byte). \<open>strings.HasPrefix s p\<close> is \<^term>\<open>prefix p s\<close>.
  \<open>strings.Contains\<close> scans for the first position at which the needle is a prefix
  of the rest.
\<close>

fun Contains :: "string \<Rightarrow> string \<Rightarrow> bool" where
  "Contains [] sub = (sub = [])"
| "Contains (c # cs) sub = (prefix sub (c # cs) \<or> Contains cs sub)"

text \<open>
  \<open>strings.ToUpper\<close> and \<open>strings.TrimSpace\<close> belong to the Go library and work
  on Unicode code points (the long s has the upper case \<open>S\<close>, the no-break space is
  white space). They are not defined here: the functions that call them take them as
  parameters. \<open>ToUpper_ascii\<close> and \<open>TrimSpace_ascii\<close> are what the two compute on
  ASCII text (the bytes \<open>a..z\<close> become \<open>A..Z\<close>; tab, line feed, vertical tab, form
  feed, carriage return and space are trimmed); they serve to run the model on ASCII
  inputs.
\<close>

definition lower_letters :: string where
  "lower_letters = ''abcdefghijklmnopqrstuvwxyz''"

definition upper_letters :: string where
  "upper_letters = ''ABCDEFGHIJKLMNOPQRSTUVWXYZ''"

definition upperByte :: "char \<Rightarrow> char" where
  "upperByte c =
     (case map_of (zip lower_letters upper_letters) c of Some u \<Rightarrow> u | None \<Rightarrow> c)"

definition ToUpper_ascii :: "string \<Rightarrow> string" where
  "ToUpper_ascii s = map upperByte s"

definition isSpace :: "char \<Rightarrow> bool" where
  "isSpace c = (c \<in> set [CHR 0x09, CHR 0x0A, CHR 0x0B, CHR 0x0C, CHR 0x0D, CHR 0x20])"

definition TrimSpace_ascii :: "string \<Rightarrow> string" where
  "TrimSpace_ascii s = rev (dropWhile isSpace (rev (dropWhile isSpace s)))"

text \<open>
  \<open>strings.ToLower\<close> is used by the program in one way only: to test whether a
  subject begins with \<open>re:\<close> or \<open>fwd:\<close>. No code point other than an ASCII letter
  has one of the letters of these prefixes as its lower case, and the colon is
  nobody's lower case but its own, so the test sees the first bytes alone and the
  byte-wise \<open>ToLower\<close> decides it as the library function does.
\<close>

definition lowerByte :: "char \<Rightarrow> char" where
  "lowerByte c =
     (case map_of (zip upper_letters lower_letters) c of Some l \<Rightarrow> l | None \<Rightarrow> c)"

definition ToLower :: "string \<Rightarrow> string" where
  "ToLower s = map lowerByte s"

text \<open>\<open>strings.Trim s cutset\<close>: drop leading and trailing bytes that occur in the cutset.\<close>

definition Trim :: "string \<Rightarrow> string \<Rightarrow> string" where
  "Trim s cutset =
     rev (dropWhile (\<lambda>c. c \<in> set cutset) (rev (dropWhile (\<lambda>c. c \<in> set cutset) s)))"


section \<open>Email data (package email)\<close>

record Address =
  Name :: string
  Address :: string

record Attachment =
  Filename :: string
  ContentType :: string
  ContentID :: string
  Size :: int
  Data :: string

text \<open>
  \<open>InboundEmail\<close>. A \<open>time.Time\<close> is an instant, modelled as an \<^typ>\<open>int\<close>
  (nanoseconds from the Unix epoch); \<open>ReplyTo\<close> is a pointer, \<open>None\<close> when nil;
  \<open>Headers\<close> is a Go map.
\<close>

record InboundEmail =
  MessageID :: string
  From :: Address
  To :: "Address list"
  Cc :: "Address list"
  Bcc :: "Address list"
  ReplyTo :: "Address option"
  Subject :: string
  Date :: int
  TextBody :: string
  HTMLBody :: string
  Headers :: "string \<rightharpoonup> string"
  Attachments :: "Attachment list"
  RawMessage :: string
  ReceivedAt :: int

section \<open>Routing (packages config and router)\<close>

record MatchConfig =
  mc_From :: string
  mc_To :: string
  mc_Subject :: string

text \<open>
  \<open>CompiledMatch\<close> holds three \<open>*regexp.Regexp\<close>, nil when the pattern was empty.
  The regular-expression library is outside the repository: the type \<open>'r\<close> of compiled
  expressions, \<open>regexp.Compile\<close> (\<open>None\<close> when it returns an error) and
  \<open>Regexp.MatchString\<close> are parameters.
\<close>

record 'r CompiledMatch =
  cm_From :: "'r option"
  cm_To :: "'r option"
  cm_Subject :: "'r option"

record ProcessorConfig =
  Type :: string
  SystemPrompt :: string
  Tools :: "string list"
  ForwardTo :: string
  WebhookURL :: string

record MailboxConfig =
  mb_Name :: string
  mb_Match :: MatchConfig
  mb_Processor :: ProcessorConfig

datatype config_error = RegexpError string

text \<open>\<open>MatchConfig.Compile\<close>: a pattern is compiled only when it is not empty.\<close>

definition Compile ::
  "(string \<Rightarrow> 'r option) \<Rightarrow> MatchConfig \<Rightarrow> config_error + 'r CompiledMatch" where
  "Compile regexp_Compile m =
     (case (if mc_From m \<noteq> [] then
              (case regexp_Compile (mc_From m) of
                 None \<Rightarrow> Inl (RegexpError (mc_From m)) | Some re \<Rightarrow> Inr (Some re))
            else Inr None) of
        Inl err \<Rightarrow> Inl err
      | Inr f \<Rightarrow>
     (case (if mc_To m \<noteq> [] then
              (case regexp_Compile (mc_To m) of
                 None \<Rightarrow> Inl (RegexpError (mc_To m)) | Some re \<Rightarrow> Inr (Some re))
            else Inr None) of
        Inl err \<Rightarrow> Inl err
      | Inr t \<Rightarrow>
     (case (if mc_Subject m \<noteq> [] then
              (case regexp_Compile (mc_Subject m) of
                 None \<Rightarrow> Inl (RegexpError (mc_Subject m)) | Some re \<Rightarrow> Inr (Some re))
            else Inr None) of
        Inl err \<Rightarrow> Inl err
      | Inr s \<Rightarrow> Inr \<lparr>cm_From = f, cm_To = t, cm_Subject = s\<rparr>)))"

record 'r Rule =
  rule_Name :: string
  Match :: "'r CompiledMatch"
  Processor :: ProcessorConfig
  Priority :: int

text \<open>The loop of \<open>Rule.Matches\<close> over the recipients: stop at the first hit.\<close>

fun matchAnyTo :: "('r \<Rightarrow> string \<Rightarrow> bool) \<Rightarrow> 'r \<Rightarrow> Address list \<Rightarrow> bool" where
  "matchAnyTo MatchString re [] = False"
| "matchAnyTo MatchString re (to # tos) =
     (if MatchString re (Address to) then True else matchAnyTo MatchString re tos)"

definition Matches :: "('r \<Rightarrow> string \<Rightarrow> bool) \<Rightarrow> 'r Rule \<Rightarrow> InboundEmail \<Rightarrow> bool" where
  "Matches MatchString r e =
     (if (case cm_From (Match r) of
            Some re \<Rightarrow> \<not> MatchString re (Address (From e)) | None \<Rightarrow> False) then False
      else if (case cm_To (Match r) of
            Some re \<Rightarrow> \<not> matchAnyTo MatchString re (To e) | None \<Rightarrow> False) then False
      else if (case cm_Subject (Match r) of
            Some re \<Rightarrow> \<not> MatchString re (Subject e) | None \<Rightarrow> False) then False
      else True)"

text \<open>
  \<open>NewRuleSet\<close>: the loop over the mailboxes, with the index \<open>i\<close> and the rules built
  so far; the first pattern that does not compile ends it with the error.
\<close>

fun NewRuleSet_loop ::
  "(string \<Rightarrow> 'r option) \<Rightarrow> nat \<Rightarrow> MailboxConfig list \<Rightarrow> 'r Rule list
     \<Rightarrow> config_error + 'r Rule list" where
  "NewRuleSet_loop rc i [] rules = Inr rules"
| "NewRuleSet_loop rc i (mb # mbs) rules =
     (case Compile rc (mb_Match mb) of
        Inl err \<Rightarrow> Inl err
      | Inr compiled \<Rightarrow>
          NewRuleSet_loop rc (Suc i) mbs
            (rules @ [\<lparr>rule_Name = mb_Name mb, Match = compiled,
                        Processor = mb_Processor mb, Priority = int i\<rparr>]))"

definition NewRuleSet ::
  "(string \<Rightarrow> 'r option) \<Rightarrow> MailboxConfig list \<Rightarrow> config_error + 'r Rule list" where
  "NewRuleSet rc mailboxes = NewRuleSet_loop rc 0 mailboxes []"

fun FindMatch ::
  "('r \<Rightarrow> string \<Rightarrow> bool) \<Rightarrow> 'r Rule list \<Rightarrow> InboundEmail \<Rightarrow> 'r Rule option" where
  "FindMatch MatchString [] e = None"
| "FindMatch MatchString (rule # rules) e =
     (if Matches MatchString rule e then Some rule else FindMatch MatchString rules e)"

text \<open>\<open>ProcessorType\<close> is a string type with four named constants.\<close>

definition ProcessorTypeLLM :: string where "ProcessorTypeLLM = ''llm''"
definition ProcessorTypeForward :: string where "ProcessorTypeForward = ''forward''"
definition ProcessorTypeWebhook :: string where "ProcessorTypeWebhook = ''webhook''"
definition ProcessorTypeNoop :: string where "ProcessorTypeNoop = ''noop''"

record RouteResult =
  MailboxName :: string
  ProcessorType :: string
  Config :: "ProcessorConfig option"

text \<open>\<open>Router.Route\<close>; its error result is nil on both paths and is left out.\<close>

definition Route ::
  "('r \<Rightarrow> string \<Rightarrow> bool) \<Rightarrow> 'r Rule list \<Rightarrow> InboundEmail \<Rightarrow> RouteResult" where
  "Route MatchString rules e =
     (case FindMatch MatchString rules e of
        None \<Rightarrow> \<lparr>MailboxName = ''unmatched'', ProcessorType = ProcessorTypeNoop, Config = None\<rparr>
      | Some rule \<Rightarrow>
          \<lparr>MailboxName = rule_Name rule,
           ProcessorType = (if Type (Processor rule) = [] then ProcessorTypeLLM
                            else Type (Processor rule)),
           Config = Some (Processor rule)\<rparr>)"

text \<open>
  The match semantics in the words of the specification, on the configured patterns:
  an empty pattern does not disqualify; \<open>from\<close> is tried on the sender's bare address,
  \<open>to\<close> on the recipients' addresses (one hit is enough), \<open>subject\<close> on the subject;
  all patterns that are present must hit.
\<close>

definition predicate_hits ::
  "(string \<Rightarrow> 'r option) \<Rightarrow> ('r \<Rightarrow> string \<Rightarrow> bool) \<Rightarrow> string \<Rightarrow> string list \<Rightarrow> bool" where
  "predicate_hits rc MatchString pattern candidates =
     (pattern = [] \<or>
      (case rc pattern of None \<Rightarrow> False
       | Some re \<Rightarrow> list_ex (MatchString re) candidates))"

definition spec_matches ::
  "(string \<Rightarrow> 'r option) \<Rightarrow> ('r \<Rightarrow> string \<Rightarrow> bool) \<Rightarrow> MatchConfig \<Rightarrow> InboundEmail \<Rightarrow> bool" where
  "spec_matches rc MatchString m e =
     (predicate_hits rc MatchString (mc_From m) [Address (From e)] \<and>
      predicate_hits rc MatchString (mc_To m) (map Address (To e)) \<and>
      predicate_hits rc MatchString (mc_Subject m) [Subject e])"


text \<open>
  A small configuration used to run the router: patterns are literal substrings
  (compiling a pattern returns the pattern, matching is substring search).
\<close>

definition literal_Compile :: "string \<Rightarrow> string option" where
  "literal_Compile p = Some p"

definition literal_MatchString :: "string \<Rightarrow> string \<Rightarrow> bool" where
  "literal_MatchString re s = Contains s re"

definition example_mailboxes :: "MailboxConfig list" where
  "example_mailboxes =
     [\<lparr>mb_Name = ''billing'',
       mb_Match = \<lparr>mc_From = ''billing@'', mc_To = [], mc_Subject = []\<rparr>,
       mb_Processor = \<lparr>Type = ''noop'', SystemPrompt = [], Tools = [],
                       ForwardTo = [], WebhookURL = []\<rparr>\<rparr>,
      \<lparr>mb_Name = ''support'',
       mb_Match = \<lparr>mc_From = [], mc_To = ''support@'', mc_Subject = ''Invoice''\<rparr>,
       mb_Processor = \<lparr>Type = [], SystemPrompt = ''Be brief.'', Tools = [],
                       ForwardTo = [], WebhookURL = []\<rparr>\<rparr>]"

definition example_rules :: "string Rule list" where
  "example_rules =
     [\<lparr>rule_Name = ''billing'',
       Match = \<lparr>cm_From = Some ''billing@'', cm_To = None, cm_Subject = None\<rparr>,
       Processor = \<lparr>Type = ''noop'', SystemPrompt = [], Tools = [],
                    ForwardTo = [], WebhookURL = []\<rparr>,
       Priority = 0\<rparr>,
      \<lparr>rule_Name = ''support'',
       Match = \<lparr>cm_From = None, cm_To = Some ''support@'', cm_Subject = Some ''Invoice''\<rparr>,
       Processor = \<lparr>Type = [], SystemPrompt = ''Be brief.'', Tools = [],
                    ForwardTo = [], WebhookURL = []\<rparr>,
       Priority = 1\<rparr>]"

definition example_email :: InboundEmail where
  "example_email =
     \<lparr>MessageID = ''<m1@example.com>'',
      From = \<lparr>Name = ''Al'', Address = ''al@example.com''\<rparr>,
      To = [\<lparr>Name = [], Address = ''sales@acme.io''\<rparr>,
            \<lparr>Name = [], Address = ''support@acme.io''\<rparr>],
      Cc = [], Bcc = [], ReplyTo = None,
      Subject = ''Invoice 42'', Date = 0,
      TextBody = ''hello'', HTMLBody = [], Headers = Map.empty, Attachments = [],
      RawMessage = [], ReceivedAt = 0\<rparr>"

section \<open>Tool results and the registry (package tools)\<close>

record EmailResult =
  Sent :: bool
  er_To :: "string list"
  er_Subject :: string
  Message :: string

datatype sql_value = SqlNull | SqlInt int | SqlText string | SqlBlob string

record QueryResult =
  Columns :: "string list"
  Rows :: "(string \<rightharpoonup> sql_value) list"
  RowsAffected :: int
  LastInsertID :: int

datatype Data = EmailData EmailResult | QueryData QueryResult

text \<open>
  \<open>ToolResult\<close> is the envelope \<open>{success, data?, error?}\<close>. A \<open>json.RawMessage\<close>
  is modelled by what it encodes: \<open>Marshal r\<close> stands for the bytes that
  \<open>json.Marshal\<close> produces for the envelope \<open>r\<close>, \<open>RawBytes s\<close> for any other JSON
  text. The byte-level encoding itself is not modelled.
\<close>

record ToolResult =
  Success :: bool
  tr_Data :: "Data option"
  Error :: string

datatype RawMessage = Marshal ToolResult | RawBytes string

definition NewSuccessResult :: "Data \<Rightarrow> RawMessage" where
  "NewSuccessResult data = Marshal \<lparr>Success = True, tr_Data = Some data, Error = []\<rparr>"

text \<open>\<open>NewErrorResult err\<close>, given the text \<open>err.Error()\<close>.\<close>

definition NewErrorResult :: "string \<Rightarrow> RawMessage" where
  "NewErrorResult err = Marshal \<lparr>Success = False, tr_Data = None, Error = err\<rparr>"

text \<open>
  A \<open>Tool\<close> is an interface; only \<open>Execute\<close> matters to its callers. Running a tool
  may touch anything outside the program (network, database, mail), so \<open>Execute\<close>
  takes and returns a state \<open>'w\<close> of that outside world. Its result is \<open>Inl msg\<close>
  when the Go function returns a non-nil error with text \<open>msg\<close>.
\<close>

type_synonym 'w Tool = "'w \<Rightarrow> string \<Rightarrow> (string + RawMessage) \<times> 'w"

type_synonym 'w Registry = "string \<rightharpoonup> 'w Tool"

definition Registry_Execute ::
  "'w Registry \<Rightarrow> string \<Rightarrow> string \<Rightarrow> 'w \<Rightarrow> (string + RawMessage) \<times> 'w" where
  "Registry_Execute r name args w =
     (case r name of
        None \<Rightarrow> (Inl (''unknown tool: '' @ name), w)
      | Some tool \<Rightarrow>
          (case tool w args of
             (Inl err, w') \<Rightarrow> (Inl err, w')
           | (Inr result, w') \<Rightarrow> (Inr result, w')))"

section \<open>The send_email tool\<close>

record OutboundEmail =
  o_From :: Address
  o_To :: "Address list"
  o_Cc :: "Address list"
  o_Bcc :: "Address list"
  o_ReplyTo :: "Address option"
  o_Subject :: string
  o_TextBody :: string
  o_HTMLBody :: string
  o_Attachments :: "Attachment list"
  InReplyTo :: string
  References :: "string list"

text \<open>
  \<open>EmailTool\<close>. The \<open>sender\<close> is an interface with the one method \<open>Send\<close>; it is
  a function from the outbound email to the error it returns (\<open>None\<close> for nil).
  \<open>currentEmail\<close> is a pointer, \<open>None\<close> until \<open>SetCurrentEmail\<close> binds one.
\<close>

record EmailTool =
  sender :: "OutboundEmail \<Rightarrow> string option"
  fromAddress :: string
  fromName :: string
  currentEmail :: "InboundEmail option"

definition NewEmailTool :: "(OutboundEmail \<Rightarrow> string option) \<Rightarrow> string \<Rightarrow> string \<Rightarrow> EmailTool" where
  "NewEmailTool s fa fn =
     \<lparr>sender = s, fromAddress = fa, fromName = fn, currentEmail = None\<rparr>"

definition SetCurrentEmail :: "EmailTool \<Rightarrow> InboundEmail \<Rightarrow> EmailTool" where
  "SetCurrentEmail t e = t\<lparr>currentEmail := Some e\<rparr>"

record EmailArgs =
  Action :: string
  ea_To :: "string list"
  ea_Cc :: "string list"
  ea_Subject :: string
  Body :: string
  ea_HTMLBody :: string
  IncludeOriginal :: "bool option"

definition Address_String :: "Address \<Rightarrow> string" where
  "Address_String a =
     (if Name a \<noteq> [] then Name a @ '' <'' @ Address a @ ''>'' else Address a)"

definition InboundEmail_Body :: "InboundEmail \<Rightarrow> string" where
  "InboundEmail_Body e = (if TextBody e \<noteq> [] then TextBody e else HTMLBody e)"

definition LF :: string where
  "LF = [CHR 0x0A]"

text \<open>
  \<open>appendOriginalMessage\<close>. \<open>Format\<close> is \<open>time.Time.Format\<close> with the layout the
  source passes; the time library is outside the repository.
\<close>

definition appendOriginalMessage :: "(int \<Rightarrow> string) \<Rightarrow> EmailTool \<Rightarrow> string \<Rightarrow> string" where
  "appendOriginalMessage Format t body =
     (case currentEmail t of
        None \<Rightarrow> body
      | Some cur \<Rightarrow>
          body @ LF @ LF @ ''---------- Original Message ----------'' @ LF
            @ ''From: '' @ Address_String (From cur) @ LF
            @ ''Date: '' @ Format (Date cur) @ LF
            @ ''Subject: '' @ Subject cur @ LF @ LF
            @ InboundEmail_Body cur)"

text \<open>
  The three actions return the tool result together with the list of emails handed
  to \<open>sender.Send\<close> during the call, in order. (The Go functions also return an error,
  which is nil on every path and is left out.)
\<close>

definition executeReply ::
  "(int \<Rightarrow> string) \<Rightarrow> EmailTool \<Rightarrow> EmailArgs \<Rightarrow> RawMessage \<times> OutboundEmail list" where
  "executeReply Format t params =
     (case currentEmail t of
        None \<Rightarrow> (NewErrorResult ''no current email to reply to'', [])
      | Some cur \<Rightarrow>
          (let toAddr = (case ReplyTo cur of Some a \<Rightarrow> a | None \<Rightarrow> From cur);
               subject =
                 (if ea_Subject params = [] then
                    (if \<not> prefix ''re:'' (ToLower (Subject cur))
                     then ''Re: '' @ Subject cur else Subject cur)
                  else ea_Subject params);
               body =
                 (if IncludeOriginal params = Some True
                  then appendOriginalMessage Format t (Body params) else Body params);
               outbound =
                 \<lparr>o_From = \<lparr>Name = fromName t, Address = fromAddress t\<rparr>,
                  o_To = [toAddr], o_Cc = [], o_Bcc = [], o_ReplyTo = None,
                  o_Subject = subject, o_TextBody = body,
                  o_HTMLBody = ea_HTMLBody params, o_Attachments = [],
                  InReplyTo = MessageID cur, References = []\<rparr>
           in case sender t outbound of
                Some err \<Rightarrow> (NewErrorResult (''failed to send reply: '' @ err), [outbound])
              | None \<Rightarrow>
                  (NewSuccessResult (EmailData
                     \<lparr>Sent = True, er_To = [Address toAddr], er_Subject = subject,
                      Message = ''Reply sent successfully''\<rparr>), [outbound])))"

definition executeForward ::
  "(int \<Rightarrow> string) \<Rightarrow> EmailTool \<Rightarrow> EmailArgs \<Rightarrow> RawMessage \<times> OutboundEmail list" where
  "executeForward Format t params =
     (case currentEmail t of
        None \<Rightarrow> (NewErrorResult ''no current email to forward'', [])
      | Some cur \<Rightarrow>
          if ea_To params = [] then (NewErrorResult ''recipients required for forward'', [])
          else
          (let subject =
                 (if ea_Subject params = [] then
                    (if \<not> prefix ''fwd:'' (ToLower (Subject cur))
                     then ''Fwd: '' @ Subject cur else Subject cur)
                  else ea_Subject params);
               includeOriginal = (IncludeOriginal params = None \<or> IncludeOriginal params = Some True);
               body =
                 (if includeOriginal
                  then appendOriginalMessage Format t (Body params) else Body params);
               toAddrs = map (\<lambda>addr. \<lparr>Name = [], Address = addr\<rparr>) (ea_To params);
               ccAddrs = map (\<lambda>addr. \<lparr>Name = [], Address = addr\<rparr>) (ea_Cc params);
               outbound =
                 \<lparr>o_From = \<lparr>Name = fromName t, Address = fromAddress t\<rparr>,
                  o_To = toAddrs, o_Cc = ccAddrs, o_Bcc = [], o_ReplyTo = None,
                  o_Subject = subject, o_TextBody = body,
                  o_HTMLBody = ea_HTMLBody params, o_Attachments = [],
                  InReplyTo = [], References = []\<rparr>
           in case sender t outbound of
                Some err \<Rightarrow> (NewErrorResult (''failed to forward email: '' @ err), [outbound])
              | None \<Rightarrow>
                  (NewSuccessResult (EmailData
                     \<lparr>Sent = True, er_To = ea_To params, er_Subject = subject,
                      Message = ''Email forwarded successfully''\<rparr>), [outbound])))"

definition executeSend :: "EmailTool \<Rightarrow> EmailArgs \<Rightarrow> RawMessage \<times> OutboundEmail list" where
  "executeSend t params =
     (if ea_To params = [] then (NewErrorResult ''recipients required'', [])
      else if ea_Subject params = [] then (NewErrorResult ''subject required for new email'', [])
      else
        (let toAddrs = map (\<lambda>addr. \<lparr>Name = [], Address = addr\<rparr>) (ea_To params);
             ccAddrs = map (\<lambda>addr. \<lparr>Name = [], Address = addr\<rparr>) (ea_Cc params);
             outbound =
               \<lparr>o_From = \<lparr>Name = fromName t, Address = fromAddress t\<rparr>,
                o_To = toAddrs, o_Cc = ccAddrs, o_Bcc = [], o_ReplyTo = None,
                o_Subject = ea_Subject params, o_TextBody = Body params,
                o_HTMLBody = ea_HTMLBody params, o_Attachments = [],
                InReplyTo = [], References = []\<rparr>
         in case sender t outbound of
              Some err \<Rightarrow> (NewErrorResult (''failed to send email: '' @ err), [outbound])
            | None \<Rightarrow>
                (NewSuccessResult (EmailData
                   \<lparr>Sent = True, er_To = ea_To params, er_Subject = ea_Subject params,
                    Message = ''Email sent successfully''\<rparr>), [outbound])))"

text \<open>
  \<open>EmailTool.Execute\<close>. Its argument is the outcome of \<open>json.Unmarshal\<close> on the raw
  arguments: \<open>Inl msg\<close> when decoding fails with the error text \<open>msg\<close>, else the
  decoded \<open>EmailArgs\<close>.
\<close>

definition EmailTool_Execute ::
  "(int \<Rightarrow> string) \<Rightarrow> EmailTool \<Rightarrow> string + EmailArgs \<Rightarrow> RawMessage \<times> OutboundEmail list" where
  "EmailTool_Execute Format t args =
     (case args of
        Inl err \<Rightarrow> (NewErrorResult (''invalid arguments: '' @ err), [])
      | Inr params \<Rightarrow>
          if Action params = ''reply'' then executeReply Format t params
          else if Action params = ''forward'' then executeForward Format t params
          else if Action params = ''send'' then executeSend t params
          else (NewErrorResult (''unknown action: '' @ Action params), []))"

text \<open>A sender that accepts every email, and one that refuses every email.\<close>

definition NoopSender_Send :: "OutboundEmail \<Rightarrow> string option" where
  "NoopSender_Send e = None"

definition failing_Send :: "OutboundEmail \<Rightarrow> string option" where
  "failing_Send e = Some ''connection refused''"

definition example_Format :: "int \<Rightarrow> string" where
  "example_Format t = ''Thu, 01 Jan 1970 00:00:00 +0000''"

definition example_args :: EmailArgs where
  "example_args =
     \<lparr>Action = ''reply'', ea_To = [], ea_Cc = [], ea_Subject = [],
      Body = ''Thanks.'', ea_HTMLBody = [], IncludeOriginal = None\<rparr>"

text \<open>
  The specification's reading of the subject rule for replies: a subject "already
  begins with a \<open>re:\<close> prefix, case-insensitively" when its first three bytes are
  \<open>r\<close> or \<open>R\<close>, then \<open>e\<close> or \<open>E\<close>, then a colon.
\<close>

fun begins_with_re :: "string \<Rightarrow> bool" where
  "begins_with_re (a # b # c # rest) =
     ((a = CHR ''r'' \<or> a = CHR ''R'') \<and> (b = CHR ''e'' \<or> b = CHR ''E'') \<and> c = CHR '':'')"
| "begins_with_re s = False"

section \<open>The database_query tool\<close>

record DatabaseArgs =
  Query :: string
  Params :: "string list"

text \<open>
  The SQL driver is outside the repository. \<open>'db\<close> is the state of the database.
  \<open>QueryContext db query params\<close> gives the error text, or the result set: the
  outcome of \<open>rows.Columns()\<close> and, for each row in order, the outcome of
  \<open>rows.Scan\<close>. \<open>ExecContext db query params\<close> gives the error text, or the
  outcomes of \<open>RowsAffected()\<close> and \<open>LastInsertId()\<close> (\<open>None\<close> when they
  fail). Both return the new state of the database.
\<close>

record 'db Driver =
  QueryContext ::
    "'db \<Rightarrow> string \<Rightarrow> string list
       \<Rightarrow> (string + (string + string list) \<times> (string + sql_value list) list) \<times> 'db"
  ExecContext ::
    "'db \<Rightarrow> string \<Rightarrow> string list \<Rightarrow> (string + int option \<times> int option) \<times> 'db"

record DatabaseTool =
  allowedTables :: "string list"
  readOnly :: bool

definition NewDatabaseTool :: "string list \<Rightarrow> bool \<Rightarrow> DatabaseTool" where
  "NewDatabaseTool tables ro = \<lparr>allowedTables = tables, readOnly = ro\<rparr>"

text \<open>One scanned row as a map from column name to value; byte values become text.\<close>

definition convertValue :: "sql_value \<Rightarrow> sql_value" where
  "convertValue v = (case v of SqlBlob b \<Rightarrow> SqlText b | _ \<Rightarrow> v)"

fun rowMap :: "string list \<Rightarrow> sql_value list \<Rightarrow> (string \<rightharpoonup> sql_value) \<Rightarrow> (string \<rightharpoonup> sql_value)" where
  "rowMap (col # cols) (val # vals) row = rowMap cols vals (row(col \<mapsto> convertValue val))"
| "rowMap cols vals row = row"

text \<open>
  The row loop of \<open>executeSelect\<close>: at most \<open>maxRows\<close> rows are read; a row that
  fails to scan ends the loop with the error.
\<close>

fun scanRows ::
  "string list \<Rightarrow> nat \<Rightarrow> (string + sql_value list) list \<Rightarrow> (string \<rightharpoonup> sql_value) list
     \<Rightarrow> string + (string \<rightharpoonup> sql_value) list" where
  "scanRows columns 0 rows acc = Inr acc"
| "scanRows columns (Suc n) [] acc = Inr acc"
| "scanRows columns (Suc n) (Inl err # rows) acc = Inl err"
| "scanRows columns (Suc n) (Inr values # rows) acc =
     scanRows columns n rows (acc @ [rowMap columns values Map.empty])"

definition executeSelect ::
  "'db Driver \<Rightarrow> string \<Rightarrow> string list \<Rightarrow> 'db \<Rightarrow> RawMessage \<times> 'db" where
  "executeSelect drv query params db =
     (case QueryContext drv db query params of
        (Inl err, db') \<Rightarrow> (NewErrorResult (''query failed: '' @ err), db')
      | (Inr (Inl err, rows), db') \<Rightarrow> (NewErrorResult (''failed to get columns: '' @ err), db')
      | (Inr (Inr columns, rows), db') \<Rightarrow>
          (case scanRows columns 1000 rows [] of
             Inl err \<Rightarrow> (NewErrorResult (''failed to scan row: '' @ err), db')
           | Inr result_rows \<Rightarrow>
               (NewSuccessResult (QueryData
                  \<lparr>Columns = columns, Rows = result_rows,
                   RowsAffected = 0, LastInsertID = 0\<rparr>), db')))"

definition executeModify ::
  "'db Driver \<Rightarrow> string \<Rightarrow> string list \<Rightarrow> 'db \<Rightarrow> RawMessage \<times> 'db" where
  "executeModify drv query params db =
     (case ExecContext drv db query params of
        (Inl err, db') \<Rightarrow> (NewErrorResult (''query failed: '' @ err), db')
      | (Inr (affected, lastID), db') \<Rightarrow>
          (NewSuccessResult (QueryData
             \<lparr>Columns = [], Rows = [],
              RowsAffected = (case affected of Some a \<Rightarrow> a | None \<Rightarrow> 0),
              LastInsertID = (case lastID of Some i \<Rightarrow> i | None \<Rightarrow> 0)\<rparr>), db'))"

text \<open>
  \<open>DatabaseTool.Execute\<close>, on the outcome of \<open>json.Unmarshal\<close> (\<open>Inl msg\<close> when
  decoding fails). The Go error result is nil on every path and is left out. The
  parameters \<open>toUpper\<close> and \<open>trimSpace\<close> are the library's
  \<open>strings.ToUpper\<close> and \<open>strings.TrimSpace\<close>.
\<close>

definition DatabaseTool_Execute ::
  "(string \<Rightarrow> string) \<Rightarrow> (string \<Rightarrow> string) \<Rightarrow> 'db Driver \<Rightarrow> DatabaseTool
     \<Rightarrow> string + DatabaseArgs \<Rightarrow> 'db \<Rightarrow> RawMessage \<times> 'db" where
  "DatabaseTool_Execute toUpper trimSpace drv t args db =
     (case args of
        Inl err \<Rightarrow> (NewErrorResult (''invalid arguments: '' @ err), db)
      | Inr params \<Rightarrow>
          if Query params = [] then (NewErrorResult ''query is required'', db)
          else
            (let queryUpper = toUpper (trimSpace (Query params));
                 isSelect = prefix ''SELECT'' queryUpper
             in if readOnly t \<and> \<not> isSelect
                then (NewErrorResult ''only SELECT queries are allowed in read-only mode'', db)
                else if Contains queryUpper ''DROP '' \<or>
                        Contains queryUpper ''TRUNCATE '' \<or>
                        Contains queryUpper ''ALTER '' \<or>
                        Contains queryUpper ''CREATE ''
                then (NewErrorResult ''DDL operations are not allowed'', db)
                else if isSelect then executeSelect drv (Query params) (Params params) db
                else executeModify drv (Query params) (Params params) db))"

text \<open>
  The condition in the words of the specification: the upper-cased, trimmed query
  begins with one of the four keywords followed by a space.
\<close>

definition ddl_prefix :: "(string \<Rightarrow> string) \<Rightarrow> (string \<Rightarrow> string) \<Rightarrow> string \<Rightarrow> bool" where
  "ddl_prefix toUpper trimSpace query =
     (let u = toUpper (trimSpace query)
      in prefix ''DROP '' u \<or> prefix ''TRUNCATE '' u \<or> prefix ''ALTER '' u \<or> prefix ''CREATE '' u)"

text \<open>What the code tests: one of the four keywords, followed by a space, anywhere.\<close>

definition ddl_anywhere :: "(string \<Rightarrow> string) \<Rightarrow> (string \<Rightarrow> string) \<Rightarrow> string \<Rightarrow> bool" where
  "ddl_anywhere toUpper trimSpace query =
     (let u = toUpper (trimSpace query)
      in Contains u ''DROP '' \<or> Contains u ''TRUNCATE '' \<or> Contains u ''ALTER '' \<or>
         Contains u ''CREATE '')"

text \<open>A database without tables: every statement fails.\<close>

definition empty_Driver :: "unit Driver" where
  "empty_Driver =
     \<lparr>QueryContext = (\<lambda>db q ps. (Inl ''no such table'', db)),
      ExecContext = (\<lambda>db q ps. (Inl ''no such table'', db))\<rparr>"

definition ticket_query :: DatabaseArgs where
  "ticket_query =
     \<lparr>Query = ''SELECT id FROM emails WHERE subject = '' @ [CHR 0x27]
                @ ''please create a ticket'' @ [CHR 0x27],
      Params = []\<rparr>"

definition drop_query :: DatabaseArgs where
  "drop_query = \<lparr>Query = ''drop table emails'', Params = []\<rparr>"

section \<open>The LLM tool-use loop (package processor, Responses API)\<close>

record ContentItem =
  ci_Type :: string
  Text :: string

record OutputItem =
  oi_Type :: string
  oi_ID :: string
  oi_Status :: string
  Role :: string
  Content :: "ContentItem list"
  oi_Name :: string
  Arguments :: string
  CallID :: string

text \<open>\<open>ResponseObject\<close>: the two fields the loop reads.\<close>

record ResponseObject =
  Status :: string
  Output :: "OutputItem list"

text \<open>
  The elements of the \<open>input\<close> slice: the \<open>InputMessage\<close> that starts the
  conversation, and the \<open>function_call_output\<close> maps appended for tool calls, with
  the call id and the tool's output.
\<close>

datatype InputItem =
    InputMessage string string
  | FunctionCallOutput string RawMessage

text \<open>
  \<open>Chat\<close> sends the input to the model over HTTP. For the loop it is a function of
  the input and of the state of the outside world, giving the error text or the
  response, and the new state. (The system prompt and the tool definitions are the
  same in every call.)
\<close>

type_synonym 'w Chat = "InputItem list \<Rightarrow> 'w \<Rightarrow> (string + ResponseObject) \<times> 'w"

text \<open>
  What a run of the loop leaves behind: the value returned (\<open>Inl\<close> the error text,
  \<open>Inr\<close> the assistant text), the final conversation (the \<open>input\<close> slice), the
  responses received from the model in order, the tool calls executed through the
  registry in order, each with what \<open>registry.Execute\<close> returned for it, the number
  of calls of \<open>Chat\<close>, and the state of the world. Only the first is a value of the
  Go function; the others record what it did.
\<close>

record ('c, 'r, 'k, 'w) Run =
  result :: "string + string"
  conversation :: "'c list"
  responses :: "'r list"
  executions :: "('k \<times> (string + RawMessage)) list"
  model_calls :: nat
  world :: 'w

text \<open>The first \<open>output_text\<close> of a content list.\<close>

fun firstOutputText :: "ContentItem list \<Rightarrow> string option" where
  "firstOutputText [] = None"
| "firstOutputText (content # contents) =
     (if ci_Type content = ''output_text'' then Some (Text content)
      else firstOutputText contents)"

text \<open>
  The first search of an iteration (run when the status is \<open>completed\<close>): the first
  text of an assistant message.
\<close>

fun completedText :: "OutputItem list \<Rightarrow> string option" where
  "completedText [] = None"
| "completedText (item # items) =
     (if oi_Type item = ''message'' \<and> Role item = ''assistant'' then
        (case firstOutputText (Content item) of
           Some text \<Rightarrow> Some text
         | None \<Rightarrow> completedText items)
      else completedText items)"

text \<open>The search made when there are no function calls: the first text of any message.\<close>

fun messageText :: "OutputItem list \<Rightarrow> string option" where
  "messageText [] = None"
| "messageText (item # items) =
     (if oi_Type item = ''message'' then
        (case firstOutputText (Content item) of
           Some text \<Rightarrow> Some text
         | None \<Rightarrow> messageText items)
      else messageText items)"

definition functionCalls :: "OutputItem list \<Rightarrow> OutputItem list" where
  "functionCalls items = filter (\<lambda>item. oi_Type item = ''function_call'') items"

text \<open>
  The inner loop: each function call is executed through the registry; an error of
  the tool is turned into an error result; one \<open>function_call_output\<close> is appended.
\<close>

fun executeCalls ::
  "'w Registry \<Rightarrow> OutputItem list \<Rightarrow> InputItem list
     \<Rightarrow> (OutputItem \<times> (string + RawMessage)) list \<Rightarrow> 'w
     \<Rightarrow> InputItem list \<times> (OutputItem \<times> (string + RawMessage)) list \<times> 'w" where
  "executeCalls registry [] input execs w = (input, execs, w)"
| "executeCalls registry (fc # fcs) input execs w =
     (case Registry_Execute registry (oi_Name fc) (Arguments fc) w of
        (Inl err, w') \<Rightarrow>
          executeCalls registry fcs
            (input @ [FunctionCallOutput (CallID fc) (NewErrorResult err)])
            (execs @ [(fc, Inl err)]) w'
      | (Inr res, w') \<Rightarrow>
          executeCalls registry fcs (input @ [FunctionCallOutput (CallID fc) res])
            (execs @ [(fc, Inr res)]) w')"

definition max_iterations_error :: string where
  "max_iterations_error = ''max iterations reached without completion''"

text \<open>
  The outer loop, by the number of iterations that remain (\<open>maxIterations - i\<close>).
\<close>

fun toolLoop ::
  "'w Chat \<Rightarrow> 'w Registry \<Rightarrow> nat \<Rightarrow> InputItem list \<Rightarrow> ResponseObject list
     \<Rightarrow> (OutputItem \<times> (string + RawMessage)) list \<Rightarrow> nat \<Rightarrow> 'w
     \<Rightarrow> (InputItem, ResponseObject, OutputItem, 'w) Run" where
  "toolLoop chat registry 0 input resps execs calls w =
     \<lparr>result = Inl max_iterations_error, conversation = input, responses = resps,
      executions = execs, model_calls = calls, world = w\<rparr>"
| "toolLoop chat registry (Suc n) input resps execs calls w =
     (case chat input w of
        (Inl err, w') \<Rightarrow>
          \<lparr>result = Inl err, conversation = input, responses = resps,
           executions = execs, model_calls = Suc calls, world = w'\<rparr>
      | (Inr resp, w') \<Rightarrow>
          (case (if Status resp = ''completed'' then completedText (Output resp) else None) of
             Some text \<Rightarrow>
               \<lparr>result = Inr text, conversation = input, responses = resps @ [resp],
                executions = execs, model_calls = Suc calls, world = w'\<rparr>
           | None \<Rightarrow>
               if functionCalls (Output resp) = [] then
                 \<lparr>result = Inr (case messageText (Output resp) of
                                  Some text \<Rightarrow> text | None \<Rightarrow> []),
                  conversation = input, responses = resps @ [resp],
                  executions = execs, model_calls = Suc calls, world = w'\<rparr>
               else
                 (case executeCalls registry (functionCalls (Output resp)) input execs w' of
                    (input', execs', w'') \<Rightarrow>
                      toolLoop chat registry n input' (resps @ [resp]) execs' (Suc calls) w'')))"

text \<open>\<open>maxIterations\<close> is a Go \<open>int\<close>; a value that is not positive is replaced by 10.\<close>

definition effectiveMax :: "int \<Rightarrow> nat" where
  "effectiveMax maxIterations = (if maxIterations \<le> 0 then 10 else nat maxIterations)"

definition ProcessWithTools ::
  "'w Chat \<Rightarrow> 'w Registry \<Rightarrow> string \<Rightarrow> int \<Rightarrow> 'w
     \<Rightarrow> (InputItem, ResponseObject, OutputItem, 'w) Run" where
  "ProcessWithTools chat registry userMessage maxIterations w =
     toolLoop chat registry (effectiveMax maxIterations)
       [InputMessage ''user'' userMessage] [] [] 0 w"

text \<open>
  Reading a run: the call ids of the tool results in the conversation, the call ids
  of the function calls in a response, and whether a response lets the loop go on
  (it does not end the run: no text is returned for it, and it has function calls).
\<close>

fun toolResultIDs :: "InputItem list \<Rightarrow> string list" where
  "toolResultIDs [] = []"
| "toolResultIDs (InputMessage role content # items) = toolResultIDs items"
| "toolResultIDs (FunctionCallOutput call_id out # items) = call_id # toolResultIDs items"

definition callIDs :: "ResponseObject \<Rightarrow> string list" where
  "callIDs resp = map CallID (functionCalls (Output resp))"

definition continues :: "ResponseObject \<Rightarrow> bool" where
  "continues resp =
     ((if Status resp = ''completed'' then completedText (Output resp) else None) = None \<and>
      functionCalls (Output resp) \<noteq> [])"

text \<open>The tool results of a conversation: its \<open>function_call_output\<close> items.\<close>

fun toolResults :: "InputItem list \<Rightarrow> InputItem list" where
  "toolResults [] = []"
| "toolResults (InputMessage role content # items) = toolResults items"
| "toolResults (FunctionCallOutput call_id out # items) =
     FunctionCallOutput call_id out # toolResults items"

text \<open>
  The loop in the words of the specification (section 4.6), as a relation between
  the state before and the outcome. The tool result for a call carries the call id
  and the result, or the envelope \<open>{success: false, error: msg}\<close> when the tool
  returned the error \<open>msg\<close>. \<open>executes registry calls w outs w'\<close>: the calls are
  executed one after the other, each whatever became of the ones before it, with the
  outcomes \<open>outs\<close>. \<open>tool_use chat registry n input w r input' w'\<close>: with \<open>n\<close>
  iterations left, the loop started on the conversation \<open>input\<close> returns \<open>r\<close> and
  leaves the conversation \<open>input'\<close>. An iteration sends the conversation to the
  model; an error of the model is returned; a response that does not continue ends
  the loop with its text; otherwise every tool call of the response is executed, the
  tool results are appended in order, and the loop goes on with the next iteration;
  with no iteration left the loop fails.
\<close>

definition toolResult :: "OutputItem \<Rightarrow> string + RawMessage \<Rightarrow> InputItem" where
  "toolResult fc out =
     FunctionCallOutput (CallID fc)
       (case out of
          Inl err \<Rightarrow> Marshal \<lparr>Success = False, tr_Data = None, Error = err\<rparr>
        | Inr res \<Rightarrow> res)"

inductive executes ::
  "'w Registry \<Rightarrow> OutputItem list \<Rightarrow> 'w \<Rightarrow> (string + RawMessage) list \<Rightarrow> 'w \<Rightarrow> bool"
  for registry :: "'w Registry"
where
  executes_none: "executes registry [] w [] w"
| executes_call:
    "Registry_Execute registry (oi_Name fc) (Arguments fc) w = (out, w1) \<Longrightarrow>
     executes registry fcs w1 outs w2 \<Longrightarrow>
     executes registry (fc # fcs) w (out # outs) w2"

definition finalText :: "ResponseObject \<Rightarrow> string" where
  "finalText resp =
     (case (if Status resp = ''completed'' then completedText (Output resp) else None) of
        Some text \<Rightarrow> text
      | None \<Rightarrow> (case messageText (Output resp) of Some text \<Rightarrow> text | None \<Rightarrow> []))"

inductive tool_use ::
  "'w Chat \<Rightarrow> 'w Registry \<Rightarrow> nat \<Rightarrow> InputItem list \<Rightarrow> 'w
     \<Rightarrow> string + string \<Rightarrow> InputItem list \<Rightarrow> 'w \<Rightarrow> bool"
  for chat :: "'w Chat" and registry :: "'w Registry"
where
  tool_use_exhausted:
    "tool_use chat registry 0 input w
       (Inl ''max iterations reached without completion'') input w"
| tool_use_model_error:
    "chat input w = (Inl err, w') \<Longrightarrow>
     tool_use chat registry (Suc n) input w (Inl err) input w'"
| tool_use_final:
    "chat input w = (Inr resp, w') \<Longrightarrow> \<not> continues resp \<Longrightarrow>
     tool_use chat registry (Suc n) input w (Inr (finalText resp)) input w'"
| tool_use_calls:
    "chat input w = (Inr resp, w1) \<Longrightarrow> continues resp \<Longrightarrow>
     executes registry (functionCalls (Output resp)) w1 outs w2 \<Longrightarrow>
     tool_use chat registry n
       (input @ map2 toolResult (functionCalls (Output resp)) outs) w2 r input' w' \<Longrightarrow>
     tool_use chat registry (Suc n) input w r input' w'"

section \<open>The LLM tool-use loop (package processor, Chat Completions API)\<close>

text \<open>
  The repository holds a second \<open>llm.go\<close>, written against the Chat Completions
  client. Its loop keeps a list of messages instead of input items.
\<close>

record ToolCall =
  tc_ID :: string
  tc_Name :: string
  tc_Arguments :: string

record Message =
  m_Role :: string
  m_Content :: string
  ToolCallID :: string
  ToolCalls :: "ToolCall list"

text \<open>\<open>ChatResponse\<close>, without the token usage, which the loop does not read.\<close>

record ChatResponse =
  cr_Message :: Message
  cr_ToolCalls :: "ToolCall list"
  FinishReason :: string

text \<open>
  The elements of the \<open>messages\<close> slice. \<open>ToolMessage id out\<close> is the message
  with role \<open>tool\<close>, tool call id \<open>id\<close> and, as content, the bytes of \<open>out\<close>.
\<close>

datatype ConversationMessage =
    PlainMessage Message
  | ToolMessage string RawMessage

type_synonym 'w ChatCC = "ConversationMessage list \<Rightarrow> 'w \<Rightarrow> (string + ChatResponse) \<times> 'w"

fun executeToolCalls ::
  "'w Registry \<Rightarrow> ToolCall list \<Rightarrow> ConversationMessage list
     \<Rightarrow> (ToolCall \<times> (string + RawMessage)) list \<Rightarrow> 'w
     \<Rightarrow> ConversationMessage list \<times> (ToolCall \<times> (string + RawMessage)) list \<times> 'w" where
  "executeToolCalls registry [] messages execs w = (messages, execs, w)"
| "executeToolCalls registry (tc # tcs) messages execs w =
     (case Registry_Execute registry (tc_Name tc) (tc_Arguments tc) w of
        (Inl err, w') \<Rightarrow>
          executeToolCalls registry tcs
            (messages @ [ToolMessage (tc_ID tc) (NewErrorResult err)])
            (execs @ [(tc, Inl err)]) w'
      | (Inr res, w') \<Rightarrow>
          executeToolCalls registry tcs (messages @ [ToolMessage (tc_ID tc) res])
            (execs @ [(tc, Inr res)]) w')"

fun toolLoopCC ::
  "'w ChatCC \<Rightarrow> 'w Registry \<Rightarrow> nat \<Rightarrow> ConversationMessage list \<Rightarrow> ChatResponse list
     \<Rightarrow> (ToolCall \<times> (string + RawMessage)) list \<Rightarrow> nat \<Rightarrow> 'w
     \<Rightarrow> (ConversationMessage, ChatResponse, ToolCall, 'w) Run" where
  "toolLoopCC chat registry 0 messages resps execs calls w =
     \<lparr>result = Inl max_iterations_error, conversation = messages, responses = resps,
      executions = execs, model_calls = calls, world = w\<rparr>"
| "toolLoopCC chat registry (Suc n) messages resps execs calls w =
     (case chat messages w of
        (Inl err, w') \<Rightarrow>
          \<lparr>result = Inl err, conversation = messages, responses = resps,
           executions = execs, model_calls = Suc calls, world = w'\<rparr>
      | (Inr resp, w') \<Rightarrow>
          if FinishReason resp = ''stop'' \<or> cr_ToolCalls resp = [] then
            \<lparr>result = Inr (m_Content (cr_Message resp)),
             conversation = messages @ [PlainMessage (cr_Message resp)],
             responses = resps @ [resp], executions = execs,
             model_calls = Suc calls, world = w'\<rparr>
          else
            (case executeToolCalls registry (cr_ToolCalls resp)
                    (messages @ [PlainMessage (cr_Message resp)]) execs w' of
               (messages', execs', w'') \<Rightarrow>
                 toolLoopCC chat registry n messages' (resps @ [resp]) execs' (Suc calls) w''))"

definition ProcessWithTools_CC ::
  "'w ChatCC \<Rightarrow> 'w Registry \<Rightarrow> string \<Rightarrow> int \<Rightarrow> 'w
     \<Rightarrow> (ConversationMessage, ChatResponse, ToolCall, 'w) Run" where
  "ProcessWithTools_CC chat registry userMessage maxIterations w =
     toolLoopCC chat registry (effectiveMax maxIterations)
       [PlainMessage \<lparr>m_Role = ''user'', m_Content = userMessage,
                       ToolCallID = [], ToolCalls = []\<rparr>] [] [] 0 w"

fun toolMessageIDs :: "ConversationMessage list \<Rightarrow> string list" where
  "toolMessageIDs [] = []"
| "toolMessageIDs (PlainMessage m # ms) = toolMessageIDs ms"
| "toolMessageIDs (ToolMessage call_id out # ms) = call_id # toolMessageIDs ms"

definition continuesCC :: "ChatResponse \<Rightarrow> bool" where
  "continuesCC resp = (\<not> (FinishReason resp = ''stop'' \<or> cr_ToolCalls resp = []))"

fun toolMessages :: "ConversationMessage list \<Rightarrow> ConversationMessage list" where
  "toolMessages [] = []"
| "toolMessages (PlainMessage m # ms) = toolMessages ms"
| "toolMessages (ToolMessage call_id out # ms) = ToolMessage call_id out # toolMessages ms"

definition toolMessage :: "ToolCall \<Rightarrow> string + RawMessage \<Rightarrow> ConversationMessage" where
  "toolMessage tc out =
     ToolMessage (tc_ID tc)
       (case out of
          Inl err \<Rightarrow> Marshal \<lparr>Success = False, tr_Data = None, Error = err\<rparr>
        | Inr res \<Rightarrow> res)"

text \<open>
  Models and registries used to run the loops. The world state counts the tool
  executions. \<open>chat_text_and_call\<close> answers with a completed response that holds an
  assistant text and a function call; \<open>chat_always_calls\<close> asks for the tool
  \<open>lookup\<close> in every response; \<open>chat_two_steps\<close> first asks for the tools
  \<open>missing\<close>, \<open>lookup\<close> and \<open>echo\<close> and, once it is shown tool results,
  answers \<open>Done.\<close>. The registry has \<open>lookup\<close>, which always fails, and
  \<open>echo\<close>, which returns its arguments; it has no tool \<open>missing\<close>.
\<close>

definition call_item :: "string \<Rightarrow> string \<Rightarrow> OutputItem" where
  "call_item call_id name =
     \<lparr>oi_Type = ''function_call'', oi_ID = [], oi_Status = ''completed'', Role = [],
      Content = [], oi_Name = name, Arguments = ''{}'', CallID = call_id\<rparr>"

definition text_item :: "string \<Rightarrow> OutputItem" where
  "text_item t =
     \<lparr>oi_Type = ''message'', oi_ID = [], oi_Status = ''completed'', Role = ''assistant'',
      Content = [\<lparr>ci_Type = ''output_text'', Text = t\<rparr>], oi_Name = [], Arguments = [],
      CallID = []\<rparr>"

definition text_and_call :: ResponseObject where
  "text_and_call =
     \<lparr>Status = ''completed'', Output = [text_item ''Looking it up.'', call_item ''call_1'' ''lookup'']\<rparr>"

definition only_call :: ResponseObject where
  "only_call = \<lparr>Status = ''completed'', Output = [call_item ''call_1'' ''lookup'']\<rparr>"

definition chat_text_and_call :: "nat Chat" where
  "chat_text_and_call input w = (Inr text_and_call, w)"

definition chat_always_calls :: "nat Chat" where
  "chat_always_calls input w = (Inr only_call, w)"

definition failing_lookup :: "nat Tool" where
  "failing_lookup w args = (Inl ''timeout'', Suc w)"

definition echo :: "nat Tool" where
  "echo w args = (Inr (RawBytes args), Suc w)"

definition example_registry :: "nat Registry" where
  "example_registry = [''lookup'' \<mapsto> failing_lookup, ''echo'' \<mapsto> echo]"

definition three_calls :: ResponseObject where
  "three_calls =
     \<lparr>Status = ''completed'',
      Output = [call_item ''call_1'' ''missing'', call_item ''call_2'' ''lookup'',
                call_item ''call_3'' ''echo'']\<rparr>"

definition done_response :: ResponseObject where
  "done_response = \<lparr>Status = ''completed'', Output = [text_item ''Done.'']\<rparr>"

definition chat_two_steps :: "nat Chat" where
  "chat_two_steps input w =
     (if toolResults input = [] then (Inr three_calls, w) else (Inr done_response, w))"

definition stop_with_call :: ChatResponse where
  "stop_with_call =
     \<lparr>cr_Message = \<lparr>m_Role = ''assistant'', m_Content = ''Looking it up.'', ToolCallID = [],
                     ToolCalls = [\<lparr>tc_ID = ''call_1'', tc_Name = ''lookup'', tc_Arguments = ''{}''\<rparr>]\<rparr>,
      cr_ToolCalls = [\<lparr>tc_ID = ''call_1'', tc_Name = ''lookup'', tc_Arguments = ''{}''\<rparr>],
      FinishReason = ''stop''\<rparr>"

definition tool_calls_response :: ChatResponse where
  "tool_calls_response =
     \<lparr>cr_Message = \<lparr>m_Role = ''assistant'', m_Content = [], ToolCallID = [],
                     ToolCalls = [\<lparr>tc_ID = ''call_1'', tc_Name = ''lookup'', tc_Arguments = ''{}''\<rparr>]\<rparr>,
      cr_ToolCalls = [\<lparr>tc_ID = ''call_1'', tc_Name = ''lookup'', tc_Arguments = ''{}''\<rparr>],
      FinishReason = ''tool_calls''\<rparr>"

definition chatCC_always_calls :: "nat ChatCC" where
  "chatCC_always_calls messages w = (Inr tool_calls_response, w)"

definition chatCC_stop_with_call :: "nat ChatCC" where
  "chatCC_stop_with_call messages w = (Inr stop_with_call, w)"

section \<open>The store (package storage)\<close>

definition EmailStatusPending :: string where "EmailStatusPending = ''pending''"
definition EmailStatusProcessing :: string where "EmailStatusProcessing = ''processing''"
definition EmailStatusCompleted :: string where "EmailStatusCompleted = ''completed''"
definition EmailStatusFailed :: string where "EmailStatusFailed = ''failed''"

record StoredAttachment =
  sa_Filename :: string
  sa_ContentType :: string
  sa_Size :: int
  sa_ContentID :: string
  sa_Data :: string

text \<open>
  \<open>storage.Email\<close>, which is also the shape of a row of the table \<open>emails\<close>. The two
  JSON fields hold what they encode (\<open>None\<close> for a nil \<open>json.RawMessage\<close>);
  \<open>ProcessedAt\<close> is a pointer.
\<close>

record Email =
  e_ID :: int
  e_MessageID :: string
  e_From :: string
  e_To :: "string list"
  e_Cc :: "string list"
  e_Subject :: string
  e_TextBody :: string
  e_HTMLBody :: string
  e_RawMessage :: string
  e_Headers :: "(string \<rightharpoonup> string) option"
  e_Attachments :: "StoredAttachment list option"
  e_ReceivedAt :: int
  ProcessedAt :: "int option"
  e_MailboxName :: string
  e_Status :: string

text \<open>
  The database behind the \<open>Store\<close>: the rows of \<open>emails\<close> in insertion order, the
  last id given out by \<open>AUTOINCREMENT\<close>, the rows of \<open>attachments\<close> (each with its
  \<open>email_id\<close>), and whether the connection has been closed. The SQL engine is
  outside the repository; the model gives the meaning of the three statements used
  here. A statement fails when the connection is closed or a constraint of the schema
  is violated (\<open>message_id\<close> is \<open>UNIQUE\<close>, \<open>attachments.email_id\<close> references
  \<open>emails.id\<close>); the error texts stand for the driver's.
\<close>

record Store =
  emails :: "Email list"
  last_id :: int
  attachments :: "(int \<times> StoredAttachment) list"
  closed :: bool

definition NewStore :: Store where
  "NewStore = \<lparr>emails = [], last_id = 0, attachments = [], closed = False\<rparr>"

text \<open>
  \<open>SaveEmail\<close>: the \<open>INSERT\<close> writes every column from the struct, the mailbox name
  among them, and the new id is stored into the struct. Result: the error, or the
  struct with its id.
\<close>

definition SaveEmail :: "Store \<Rightarrow> Email \<Rightarrow> (string + Email) \<times> Store" where
  "SaveEmail s email =
     (if closed s then (Inl ''failed to save email: sql: database is closed'', s)
      else if list_ex (\<lambda>row. e_MessageID row = e_MessageID email) (emails s)
      then (Inl ''failed to save email: UNIQUE constraint failed: emails.message_id'', s)
      else
        (let eid = last_id s + 1
         in (Inr (email\<lparr>e_ID := eid\<rparr>),
             s\<lparr>emails := emails s @ [email\<lparr>e_ID := eid\<rparr>], last_id := eid\<rparr>)))"

text \<open>
  \<open>UpdateEmailStatus\<close>: \<open>UPDATE emails SET status = ?, processed_at = ? WHERE id = ?\<close>.
  \<open>now\<close> is the reading of \<open>time.Now()\<close> taken for a terminal status.
\<close>

definition UpdateEmailStatus :: "Store \<Rightarrow> int \<Rightarrow> string \<Rightarrow> int \<Rightarrow> string option \<times> Store" where
  "UpdateEmailStatus s eid status now =
     (let processedAt =
            (if status = EmailStatusCompleted \<or> status = EmailStatusFailed
             then Some now else None)
      in if closed s then (Some ''failed to update email status: sql: database is closed'', s)
         else (None,
               s\<lparr>emails :=
                    map (\<lambda>row. if e_ID row = eid
                               then row\<lparr>e_Status := status, ProcessedAt := processedAt\<rparr>
                               else row) (emails s)\<rparr>))"

definition SaveAttachment :: "Store \<Rightarrow> int \<Rightarrow> StoredAttachment \<Rightarrow> string option \<times> Store" where
  "SaveAttachment s emailID att =
     (if closed s then (Some ''failed to save attachment: sql: database is closed'', s)
      else if \<not> list_ex (\<lambda>row. e_ID row = emailID) (emails s)
      then (Some ''failed to save attachment: FOREIGN KEY constraint failed'', s)
      else (None, s\<lparr>attachments := attachments s @ [(emailID, att)]\<rparr>))"

section \<open>The orchestrator (package processor)\<close>

definition GetToAddresses :: "InboundEmail \<Rightarrow> string list" where
  "GetToAddresses e = map Address (To e)"

definition GetCcAddresses :: "InboundEmail \<Rightarrow> string list" where
  "GetCcAddresses e = map Address (Cc e)"

text \<open>The loop of \<open>Process\<close> that saves the attachments; a failure is only logged.\<close>

fun saveAttachments :: "Store \<Rightarrow> int \<Rightarrow> Attachment list \<Rightarrow> Store" where
  "saveAttachments s emailID [] = s"
| "saveAttachments s emailID (att # atts) =
     (case SaveAttachment s emailID
             \<lparr>sa_Filename = Filename att, sa_ContentType = ContentType att,
              sa_Size = Size att, sa_ContentID = [], sa_Data = Data att\<rparr> of
        (err, s') \<Rightarrow> saveAttachments s' emailID atts)"

text \<open>
  \<open>Processor.Process\<close>. The three processors that reach the network
  (\<open>processWithLLM\<close>, \<open>processForward\<close>, \<open>processWebhook\<close>) are the parameter
  \<open>dispatch\<close>: given the processor type, the email id, the email, the processor
  configuration and the store, it returns the error (\<open>None\<close> for nil) and the store.
  The result of \<open>Process\<close> is its error and the store it leaves. The local
  \<open>dbEmail\<close> is the struct; only \<open>SaveEmail\<close> and \<open>UpdateEmailStatus\<close> write
  to the table.
\<close>

definition Process ::
  "('r \<Rightarrow> string \<Rightarrow> bool) \<Rightarrow> 'r Rule list
     \<Rightarrow> (string \<Rightarrow> int \<Rightarrow> InboundEmail \<Rightarrow> ProcessorConfig option \<Rightarrow> Store \<Rightarrow> string option \<times> Store)
     \<Rightarrow> int \<Rightarrow> Store \<Rightarrow> InboundEmail \<Rightarrow> string option \<times> Store" where
  "Process MatchString rules dispatch now store inbound =
     (let dbEmail =
            \<lparr>e_ID = 0, e_MessageID = MessageID inbound, e_From = Address (From inbound),
             e_To = GetToAddresses inbound, e_Cc = GetCcAddresses inbound,
             e_Subject = Subject inbound, e_TextBody = TextBody inbound,
             e_HTMLBody = HTMLBody inbound, e_RawMessage = RawMessage inbound,
             e_Headers = (if Headers inbound \<noteq> Map.empty then Some (Headers inbound) else None),
             e_Attachments =
               (if Attachments inbound \<noteq> [] then
                  Some (map (\<lambda>att. \<lparr>sa_Filename = Filename att, sa_ContentType = ContentType att,
                                     sa_Size = Size att, sa_ContentID = [], sa_Data = []\<rparr>)
                          (Attachments inbound))
                else None),
             e_ReceivedAt = ReceivedAt inbound, ProcessedAt = None,
             e_MailboxName = [], e_Status = EmailStatusPending\<rparr>
      in case SaveEmail store dbEmail of
           (Inl err, store1) \<Rightarrow> (Some (''failed to save email: '' @ err), store1)
         | (Inr dbEmail1, store1) \<Rightarrow>
             (let store2 = saveAttachments store1 (e_ID dbEmail1) (Attachments inbound);
                  routeResult = Route MatchString rules inbound;
                  dbEmail2 = dbEmail1\<lparr>e_MailboxName := MailboxName routeResult\<rparr>
              in case UpdateEmailStatus store2 (e_ID dbEmail2) EmailStatusProcessing now of
                   (Some err, store3) \<Rightarrow> (Some (''failed to update email status: '' @ err), store3)
                 | (None, store3) \<Rightarrow>
                     (case (if ProcessorType routeResult = ProcessorTypeLLM
                               \<or> ProcessorType routeResult = ProcessorTypeForward
                               \<or> ProcessorType routeResult = ProcessorTypeWebhook
                            then dispatch (ProcessorType routeResult) (e_ID dbEmail2) inbound
                                   (Config routeResult) store3
                            else (None, store3)) of
                        (processErr, store4) \<Rightarrow>
                          (let finalStatus =
                                 (if processErr \<noteq> None then EmailStatusFailed
                                  else EmailStatusCompleted)
                           in (processErr,
                               snd (UpdateEmailStatus store4 (e_ID dbEmail2) finalStatus now))))))"

text \<open>An email from the billing address: the first example rule, a no-op mailbox.\<close>

definition billing_email :: InboundEmail where
  "billing_email =
     \<lparr>MessageID = ''<b7@acme.io>'',
      From = \<lparr>Name = ''Billing'', Address = ''billing@acme.io''\<rparr>,
      To = [\<lparr>Name = [], Address = ''inbox@example.com''\<rparr>],
      Cc = [], Bcc = [], ReplyTo = None,
      Subject = ''Statement'', Date = 0,
      TextBody = ''see attached'', HTMLBody = [], Headers = Map.empty, Attachments = [],
      RawMessage = [], ReceivedAt = 5\<rparr>"

definition no_dispatch ::
  "string \<Rightarrow> int \<Rightarrow> InboundEmail \<Rightarrow> ProcessorConfig option \<Rightarrow> Store \<Rightarrow> string option \<times> Store" where
  "no_dispatch ptype emailID inbound cfg s = (Some ''not configured'', s)"

section \<open>The MIME parser (package email)\<close>

text \<open>
  The message library is outside the repository. A parsed \<open>message.Entity\<close> is
  given by what the parser asks of it: \<open>Header.Get\<close> (the empty string for an
  absent header), the three results of \<open>Header.ContentType()\<close> (media type,
  parameters, whether an error was returned), the first two results of
  \<open>Header.ContentDisposition()\<close>, the outcome of reading the body (\<open>Inl\<close> the
  error text when \<open>io.ReadAll\<close> fails) and, for the multipart reader, the parts that
  \<open>NextPart\<close> delivers in order, followed by \<open>io.EOF\<close> (\<open>None\<close>) or by an
  error. A Go map read at a missing key gives the empty string.
\<close>

record EntityHeader =
  h_Get :: "string \<Rightarrow> string"
  h_ContentType :: "string \<times> (string \<rightharpoonup> string) \<times> bool"
  h_ContentDisposition :: "string \<times> (string \<rightharpoonup> string)"

datatype Entity =
  Entity (header: EntityHeader) (body: "string + string")
         (parts: "Entity list") (partsError: "string option")

definition index :: "(string \<rightharpoonup> string) \<Rightarrow> string \<Rightarrow> string" where
  "index m k = (case m k of Some v \<Rightarrow> v | None \<Rightarrow> [])"

definition mediaTypeOf :: "EntityHeader \<Rightarrow> string" where
  "mediaTypeOf h = (case h_ContentType h of (mt, ps, err) \<Rightarrow> if err then ''text/plain'' else mt)"

definition filenameOf :: "EntityHeader \<Rightarrow> string" where
  "filenameOf h =
     (case h_ContentType h of (mt, params, err) \<Rightarrow>
      case h_ContentDisposition h of (disposition, dispParams) \<Rightarrow>
        if index dispParams ''filename'' = [] then index params ''name''
        else index dispParams ''filename'')"

definition isAttachment :: "EntityHeader \<Rightarrow> bool" where
  "isAttachment h =
     (case h_ContentDisposition h of (disposition, dispParams) \<Rightarrow>
        disposition = ''attachment'' \<or> (filenameOf h \<noteq> [] \<and> disposition \<noteq> ''inline''))"

text \<open>
  \<open>parseBody\<close>, with the \<open>InboundEmail\<close> it fills passed in and returned;
  \<open>parseParts\<close> is its loop over the multipart reader. \<open>decode\<close> is the
  repository's \<open>decodeHeader\<close>.
\<close>

fun parseBody :: "(string \<Rightarrow> string) \<Rightarrow> Entity \<Rightarrow> InboundEmail \<Rightarrow> string + InboundEmail"
  and parseParts ::
    "(string \<Rightarrow> string) \<Rightarrow> Entity list \<Rightarrow> string option \<Rightarrow> InboundEmail \<Rightarrow> string + InboundEmail"
where
  "parseBody decode (Entity h b ps perr) email =
     (if prefix ''multipart/'' (mediaTypeOf h) then parseParts decode ps perr email
      else
        (case b of
           Inl err \<Rightarrow> Inl (''failed to read body: '' @ err)
         | Inr content \<Rightarrow>
             if isAttachment h then
               Inr (email\<lparr>Attachments := Attachments email @
                      [\<lparr>Filename = decode (filenameOf h), ContentType = mediaTypeOf h,
                        ContentID = (if h_Get h ''Content-ID'' \<noteq> []
                                     then Trim (h_Get h ''Content-ID'') ''<>'' else []),
                        Size = int (length content), Data = content\<rparr>]\<rparr>)
             else if prefix ''text/plain'' (mediaTypeOf h) then Inr (email\<lparr>TextBody := content\<rparr>)
             else if prefix ''text/html'' (mediaTypeOf h) then Inr (email\<lparr>HTMLBody := content\<rparr>)
             else Inr email))"
| "parseParts decode [] perr email = (case perr of None \<Rightarrow> Inr email | Some err \<Rightarrow> Inl err)"
| "parseParts decode (part # rest) perr email =
     (case parseBody decode part email of
        Inl err \<Rightarrow> Inl err
      | Inr email' \<Rightarrow> parseParts decode rest perr email')"

text \<open>
  The body parts of an entity for a media-type prefix, in document order: the
  contents of the parts that are not multipart containers, are not attachments and
  whose media type begins with the prefix.
\<close>

fun bodyParts :: "string \<Rightarrow> Entity \<Rightarrow> string list" where
  "bodyParts p (Entity h b ps perr) =
     (if prefix ''multipart/'' (mediaTypeOf h) then concat (map (bodyParts p) ps)
      else if \<not> isAttachment h \<and> prefix p (mediaTypeOf h)
      then (case b of Inr content \<Rightarrow> [content] | Inl err \<Rightarrow> [])
      else [])"

text \<open>The decimal digits of a number, as \<open>%d\<close> prints them.\<close>

function showNat :: "nat \<Rightarrow> string" where
  "showNat n = (if n < 10 then [''0123456789'' ! n]
                else showNat (n div 10) @ [''0123456789'' ! (n mod 10)])"
  by pat_completeness auto
termination
  by (relation "measure (\<lambda>n. n)") auto

text \<open>Reading decimal digits back, to state that \<open>showNat\<close> prints the number.\<close>

definition digitValue :: "char \<Rightarrow> nat" where
  "digitValue c =
     (case map_of [(CHR ''0'', 0), (CHR ''1'', 1), (CHR ''2'', 2), (CHR ''3'', 3), (CHR ''4'', 4),
                   (CHR ''5'', 5), (CHR ''6'', 6), (CHR ''7'', 7), (CHR ''8'', 8), (CHR ''9'', 9)] c of
        Some v \<Rightarrow> v | None \<Rightarrow> 0)"

fun readNat :: "string \<Rightarrow> nat \<Rightarrow> nat" where
  "readNat [] acc = acc"
| "readNat (c # cs) acc = readNat cs (10 * acc + digitValue c)"

definition showInt :: "int \<Rightarrow> string" where
  "showInt i = (if i < 0 then ''-'' @ showNat (nat (- i)) else showNat (nat i))"

text \<open>\<open>generateMessageID\<close>, given the reading of \<open>time.Now().UnixNano()\<close>.\<close>

definition generateMessageID :: "int \<Rightarrow> string" where
  "generateMessageID now = ''<'' @ showInt now @ ''.emitt@localhost>''"

text \<open>
  The functions of the Go library and of the message library that the parser calls:
  reading a message, \<open>mail.ParseAddress\<close>, \<open>mail.ParseAddressList\<close>,
  \<open>WordDecoder.DecodeHeader\<close> and \<open>mail.ParseDate\<close>, each \<open>None\<close> (or \<open>Inl\<close>)
  when it returns an error, and \<open>strings.TrimSpace\<close>.
\<close>

record MailLib =
  message_Read :: "string \<Rightarrow> string + Entity"
  mail_ParseAddress :: "string \<Rightarrow> Address option"
  mail_ParseAddressList :: "string \<Rightarrow> Address list option"
  mime_DecodeHeader :: "string \<Rightarrow> string option"
  mail_ParseDate :: "string \<Rightarrow> int option"
  strings_TrimSpace :: "string \<Rightarrow> string"

definition parseAddress :: "MailLib \<Rightarrow> string \<Rightarrow> Address option" where
  "parseAddress lib s =
     (case mail_ParseAddress lib s of
        Some addr \<Rightarrow> Some \<lparr>Name = Name addr, Address = Address addr\<rparr>
      | None \<Rightarrow>
          if Contains (strings_TrimSpace lib s) ''@''
          then Some \<lparr>Name = [], Address = strings_TrimSpace lib s\<rparr>
          else None)"

text \<open>\<open>strings.Split s ","\<close>.\<close>

fun splitComma :: "string \<Rightarrow> string \<Rightarrow> string list" where
  "splitComma [] cur = [cur]"
| "splitComma (c # cs) cur =
     (if c = CHR '','' then cur # splitComma cs [] else splitComma cs (cur @ [c]))"

definition parseAddressList :: "MailLib \<Rightarrow> string \<Rightarrow> Address list option" where
  "parseAddressList lib s =
     (case mail_ParseAddressList lib s of
        Some addrs \<Rightarrow> Some (map (\<lambda>addr. \<lparr>Name = Name addr, Address = Address addr\<rparr>) addrs)
      | None \<Rightarrow>
          (let result = List.map_filter (\<lambda>p. parseAddress lib (strings_TrimSpace lib p)) (splitComma s [])
           in if result \<noteq> [] then Some result else None))"

definition decodeHeader :: "MailLib \<Rightarrow> string \<Rightarrow> string" where
  "decodeHeader lib s = (case mime_DecodeHeader lib s of None \<Rightarrow> s | Some decoded \<Rightarrow> decoded)"

definition commonHeaders :: "string list" where
  "commonHeaders =
     [''X-Priority'', ''X-Mailer'', ''X-Spam-Status'', ''X-Spam-Score'',
      ''List-Unsubscribe'', ''List-Id'', ''Precedence'', ''Auto-Submitted'']"

text \<open>The zero \<open>time.Time\<close> (1 January of year 1, UTC), in nanoseconds from the Unix epoch.\<close>

definition zeroTime :: int where
  "zeroTime = - 62135596800 * 1000000000"

text \<open>
  \<open>Parser.Parse\<close>. The three readings of the clock are parameters: for
  \<open>ReceivedAt\<close>, for \<open>generateMessageID\<close> and for the default of \<open>Date\<close>.
\<close>

definition Parse :: "MailLib \<Rightarrow> int \<Rightarrow> int \<Rightarrow> int \<Rightarrow> string \<Rightarrow> string + InboundEmail" where
  "Parse lib nowReceived nowID nowDate rawMessage =
     (case message_Read lib rawMessage of
        Inl err \<Rightarrow> Inl (''failed to read message: '' @ err)
      | Inr entity \<Rightarrow>
          (let get = h_Get (header entity);
               addrs = (\<lambda>name. if get name \<noteq> [] then
                                   (case parseAddressList lib (get name) of
                                      Some as \<Rightarrow> as | None \<Rightarrow> [])
                                 else []);
               parsedDate = (if get ''Date'' \<noteq> [] then
                               (case mail_ParseDate lib (get ''Date'') of
                                  Some t \<Rightarrow> t | None \<Rightarrow> zeroTime)
                             else zeroTime);
               email =
                 \<lparr>MessageID = (if get ''Message-ID'' = [] then generateMessageID nowID
                                else get ''Message-ID''),
                  From = (if get ''From'' \<noteq> [] then
                            (case parseAddress lib (get ''From'') of
                               Some addr \<Rightarrow> addr | None \<Rightarrow> \<lparr>Name = [], Address = []\<rparr>)
                          else \<lparr>Name = [], Address = []\<rparr>),
                  To = addrs ''To'', Cc = addrs ''Cc'', Bcc = addrs ''Bcc'',
                  ReplyTo = (if get ''Reply-To'' \<noteq> [] then parseAddress lib (get ''Reply-To'')
                             else None),
                  Subject = decodeHeader lib (get ''Subject''),
                  Date = (if parsedDate = zeroTime then nowDate else parsedDate),
                  TextBody = [], HTMLBody = [],
                  Headers = fold (\<lambda>h m. if get h \<noteq> [] then m(h \<mapsto> get h) else m)
                              commonHeaders Map.empty,
                  Attachments = [], RawMessage = rawMessage, ReceivedAt = nowReceived\<rparr>
           in case parseBody (decodeHeader lib) entity email of
                Inl err \<Rightarrow> Inl (''failed to parse body: '' @ err)
              | Inr email' \<Rightarrow> Inr email'))"

text \<open>
  A message without a Message-ID header whose body is a multipart container with two
  plain-text parts, and a library that reads every input as this message.
\<close>

definition text_part :: "string \<Rightarrow> Entity" where
  "text_part content =
     Entity \<lparr>h_Get = (\<lambda>name. []), h_ContentType = (''text/plain'', Map.empty, False),
             h_ContentDisposition = ([], Map.empty)\<rparr>
       (Inr content) [] None"

definition two_text_parts :: Entity where
  "two_text_parts =
     Entity \<lparr>h_Get = (\<lambda>name. if name = ''Subject'' then ''Hello'' else []),
             h_ContentType = (''multipart/mixed'', [''boundary'' \<mapsto> ''b''], False),
             h_ContentDisposition = ([], Map.empty)\<rparr>
       (Inr []) [text_part ''first'', text_part ''second''] None"

definition example_lib :: MailLib where
  "example_lib =
     \<lparr>message_Read = (\<lambda>raw. Inr two_text_parts),
      mail_ParseAddress = (\<lambda>s. None),
      mail_ParseAddressList = (\<lambda>s. None),
      mime_DecodeHeader = (\<lambda>s. Some s),
      mail_ParseDate = (\<lambda>s. None),
      strings_TrimSpace = TrimSpace_ascii\<rparr>"

section \<open>MCP request/response correlation (package mcp)\<close>

text \<open>
  \<open>JSONRPCResponse\<close>; \<open>ID\<close> and \<open>Error\<close> are pointers. Request ids come from an
  \<open>atomic.Int64\<close>, a 64-bit counter that wraps around.
\<close>

record JSONRPCResponse =
  rpc_ID :: "64 word option"
  rpc_Result :: string
  rpc_Error :: "(int \<times> string) option"

text \<open>
  \<open>ServerConnection.request\<close> runs in the goroutine of each caller, concurrently
  with other callers and with the one goroutine of \<open>readResponses\<close>. The model is
  the interleaving of their atomic steps. A call of \<open>request\<close> is named by a number
  (not a value of the program). It moves through these phases:
  \<^item> \<open>Allocated\<close>: it has taken its id with \<open>reqID.Add(1)\<close>;
  \<^item> \<open>Registered\<close>: it has stored its channel in \<open>pending\<close> under the lock, and
    the deferred removal is armed;
  \<^item> \<open>Sent\<close>: the request has been written to stdin; the call is in the
    \<open>select\<close>;
  \<^item> \<open>Returning r\<close>: the result \<open>r\<close> is decided (\<open>Inl\<close> an error, \<open>Inr\<close> the
    response); the deferred function has not yet run;
  \<^item> \<open>Returned r\<close>: the deferred function has removed the id from \<open>pending\<close>
    under the lock, and \<open>request\<close> has returned \<open>r\<close>.
\<close>

datatype Phase =
    Allocated
  | Registered
  | Sent
  | Returning "string + JSONRPCResponse"
  | Returned "string + JSONRPCResponse"

text \<open>A call: its id, the buffer of its channel \<open>respCh\<close> (capacity 1), its phase.\<close>

record Call =
  call_id :: "64 word"
  respCh :: "JSONRPCResponse option"
  phase :: Phase

text \<open>
  The connection: the counter, the map \<open>pending\<close> (a channel is named by the call
  that made it), the requests made so far, and the reader when it is blocked. The mutex
  \<open>mu\<close> is held only inside one step, except by the reader while its send waits on
  a full channel: \<open>blocked = Some (c, resp)\<close> says that the reader holds \<open>mu\<close> and
  waits to put \<open>resp\<close> into the channel of call \<open>c\<close>.
\<close>

record ServerConnection =
  reqID :: "64 word"
  pending :: "64 word \<rightharpoonup> nat"
  requests :: "nat \<rightharpoonup> Call"
  blocked :: "(nat \<times> JSONRPCResponse) option"

definition NewServerConnection :: ServerConnection where
  "NewServerConnection =
     \<lparr>reqID = 0, pending = Map.empty, requests = Map.empty, blocked = None\<rparr>"

text \<open>
  The steps. For a call \<open>c\<close>: \<open>Begin\<close> (take an id), \<open>Register\<close>, then either
  \<open>MarshalFails\<close> or \<open>WriteFails\<close> (return the error) or \<open>Written\<close>; in the
  \<open>select\<close>, \<open>Receive\<close> (a response is in the channel) or \<open>Cancelled\<close> (the
  context is done); at last \<open>Cleanup\<close>, the deferred function. \<open>ReaderLine\<close> is
  one turn of the loop of \<open>readResponses\<close> on a line of stdout (\<open>None\<close> for an
  empty line or one that does not parse).
\<close>

datatype Event =
    Begin nat
  | Register nat
  | MarshalFails nat string
  | WriteFails nat string
  | Written nat
  | Receive nat
  | Cancelled nat string
  | Cleanup nat
  | ReaderLine "JSONRPCResponse option"

definition setPhase :: "nat \<Rightarrow> Call \<Rightarrow> Phase \<Rightarrow> ServerConnection \<Rightarrow> ServerConnection" where
  "setPhase c call p s = s\<lparr>requests := (requests s)(c \<mapsto> call\<lparr>phase := p\<rparr>)\<rparr>"

text \<open>The value that \<open>request\<close> returns for a response taken from the channel.\<close>

definition responseResult :: "JSONRPCResponse \<Rightarrow> string + JSONRPCResponse" where
  "responseResult resp =
     (case rpc_Error resp of
        Some (code, message) \<Rightarrow> Inl (''MCP error '' @ showInt code @ '': '' @ message)
      | None \<Rightarrow> Inr resp)"

text \<open>
  \<open>step ev s\<close> is the state after the step, or \<open>None\<close> when the step cannot be
  taken in \<open>s\<close> (the call is not in the phase for it, or the step needs the lock
  while the reader holds it).
\<close>

fun step :: "Event \<Rightarrow> ServerConnection \<Rightarrow> ServerConnection option" where
  "step (Begin c) s =
     (case requests s c of
        Some call \<Rightarrow> None
      | None \<Rightarrow>
          Some (s\<lparr>reqID := reqID s + 1,
                  requests := (requests s)(c \<mapsto> \<lparr>call_id = reqID s + 1, respCh = None,
                                              phase = Allocated\<rparr>)\<rparr>))"
| "step (Register c) s =
     (case requests s c of
        None \<Rightarrow> None
      | Some call \<Rightarrow>
          if phase call = Allocated \<and> blocked s = None
          then Some (setPhase c call Registered (s\<lparr>pending := (pending s)(call_id call \<mapsto> c)\<rparr>))
          else None)"
| "step (MarshalFails c err) s =
     (case requests s c of
        None \<Rightarrow> None
      | Some call \<Rightarrow>
          if phase call = Registered then Some (setPhase c call (Returning (Inl err)) s)
          else None)"
| "step (WriteFails c err) s =
     (case requests s c of
        None \<Rightarrow> None
      | Some call \<Rightarrow>
          if phase call = Registered
          then Some (setPhase c call (Returning (Inl (''failed to write request: '' @ err))) s)
          else None)"
| "step (Written c) s =
     (case requests s c of
        None \<Rightarrow> None
      | Some call \<Rightarrow>
          if phase call = Registered then Some (setPhase c call Sent s) else None)"
| "step (Receive c) s =
     (case requests s c of
        None \<Rightarrow> None
      | Some call \<Rightarrow>
          if phase call = Sent then
            (case respCh call of
               None \<Rightarrow> None
             | Some resp \<Rightarrow>
                 (case blocked s of
                    Some (c', waiting) \<Rightarrow>
                      if c' = c
                      then Some (setPhase c (call\<lparr>respCh := Some waiting\<rparr>)
                                   (Returning (responseResult resp)) (s\<lparr>blocked := None\<rparr>))
                      else Some (setPhase c (call\<lparr>respCh := None\<rparr>)
                                   (Returning (responseResult resp)) s)
                  | None \<Rightarrow>
                      Some (setPhase c (call\<lparr>respCh := None\<rparr>)
                              (Returning (responseResult resp)) s)))
          else None)"
| "step (Cancelled c err) s =
     (case requests s c of
        None \<Rightarrow> None
      | Some call \<Rightarrow>
          if phase call = Sent then Some (setPhase c call (Returning (Inl err)) s) else None)"
| "step (Cleanup c) s =
     (case requests s c of
        None \<Rightarrow> None
      | Some call \<Rightarrow>
          (case phase call of
             Returning r \<Rightarrow>
               if blocked s = None
               then Some (setPhase c call (Returned r)
                            (s\<lparr>pending := (pending s)(call_id call := None)\<rparr>))
               else None
           | _ \<Rightarrow> None))"
| "step (ReaderLine line) s =
     (if blocked s \<noteq> None then None
      else
        (case line of
           None \<Rightarrow> Some s
         | Some resp \<Rightarrow>
             (case rpc_ID resp of
                None \<Rightarrow> Some s
              | Some rid \<Rightarrow>
                  (case pending s rid of
                     None \<Rightarrow> Some s
                   | Some c \<Rightarrow>
                       (case requests s c of
                          None \<Rightarrow> None
                        | Some call \<Rightarrow>
                            (case respCh call of
                               None \<Rightarrow> Some (s\<lparr>requests := (requests s)(c \<mapsto> call\<lparr>respCh := Some resp\<rparr>)\<rparr>)
                             | Some full \<Rightarrow> Some (s\<lparr>blocked := Some (c, resp)\<rparr>)))))))"

text \<open>A run: the steps of a list of events, one after the other.\<close>

fun run :: "Event list \<Rightarrow> ServerConnection \<Rightarrow> ServerConnection option" where
  "run [] s = Some s"
| "run (ev # evs) s = (case step ev s of None \<Rightarrow> None | Some s' \<Rightarrow> run evs s')"

text \<open>A call is outstanding from \<open>Begin\<close> until it has returned.\<close>

fun returned :: "Phase \<Rightarrow> bool" where
  "returned (Returned r) = True"
| "returned p = False"

fun holdsEntry :: "Phase \<Rightarrow> bool" where
  "holdsEntry Registered = True"
| "holdsEntry Sent = True"
| "holdsEntry (Returning r) = True"
| "holdsEntry p = False"

definition outstanding :: "ServerConnection \<Rightarrow> nat set" where
  "outstanding s = {c. \<exists>call. requests s c = Some call \<and> \<not> returned (phase call)}"

text \<open>
  Two callers and a late response: call 0 (id 1) and call 1 (id 2) are sent; call 1
  is cancelled and returns; its response arrives late and is dropped; call 0 is
  answered and returns.
\<close>

definition answer :: "64 word \<Rightarrow> JSONRPCResponse" where
  "answer rid = \<lparr>rpc_ID = Some rid, rpc_Result = ''{}'', rpc_Error = None\<rparr>"

definition example_events :: "Event list" where
  "example_events =
     [Begin 0, Register 0, Written 0, Begin 1, Register 1, Written 1,
      Cancelled 1 ''context canceled'', Cleanup 1,
      ReaderLine (Some (answer 2)), ReaderLine (Some (answer 1)), Receive 0, Cleanup 0]"

text \<open>
  The invariant of the connection: every entry of \<open>pending\<close> names the channel of
  a call that has this id and is between its registration and its cleanup.
\<close>

definition conn_inv :: "ServerConnection \<Rightarrow> bool" where
  "conn_inv s =
     (\<forall>rid c. pending s rid = Some c \<longrightarrow>
        (\<exists>call. requests s c = Some call \<and> call_id call = rid \<and> holdsEntry (phase call)))"

definition example_mid :: ServerConnection where
  "example_mid = the (run (take 6 example_events) NewServerConnection)"

definition example_final :: ServerConnection where
  "example_final = the (run example_events NewServerConnection)"

chapter \<open>Properties\<close>

section \<open>Routing: first match wins\<close>

lemma matchAnyTo_list_ex:
  "matchAnyTo ms re tos = list_ex (ms re) (map Address tos)"
  by (induction tos) auto

lemma Compile_Inr:
  assumes "Compile rc m = Inr cm"
  shows "cm_From cm = (if mc_From m = [] then None else rc (mc_From m))"
    and "cm_To cm = (if mc_To m = [] then None else rc (mc_To m))"
    and "cm_Subject cm = (if mc_Subject m = [] then None else rc (mc_Subject m))"
    and "mc_From m \<noteq> [] \<Longrightarrow> rc (mc_From m) \<noteq> None"
    and "mc_To m \<noteq> [] \<Longrightarrow> rc (mc_To m) \<noteq> None"
    and "mc_Subject m \<noteq> [] \<Longrightarrow> rc (mc_Subject m) \<noteq> None"
  using assms
  by (auto simp: Compile_def split: if_splits option.splits sum.splits)

lemma Matches_spec:
  assumes "Compile rc m = Inr (Match r)"
  shows "Matches ms r e = spec_matches rc ms m e"
proof -
  note C = Compile_Inr[OF assms]
  have f: "(case cm_From (Match r) of Some re \<Rightarrow> \<not> ms re (Address (From e)) | None \<Rightarrow> False)
        = (\<not> predicate_hits rc ms (mc_From m) [Address (From e)])"
    using C(1,4) by (cases "mc_From m = []") (auto simp: predicate_hits_def)
  have t: "(case cm_To (Match r) of Some re \<Rightarrow> \<not> matchAnyTo ms re (To e) | None \<Rightarrow> False)
        = (\<not> predicate_hits rc ms (mc_To m) (map Address (To e)))"
    using C(2,5) by (cases "mc_To m = []") (auto simp: predicate_hits_def matchAnyTo_list_ex)
  have s: "(case cm_Subject (Match r) of Some re \<Rightarrow> \<not> ms re (Subject e) | None \<Rightarrow> False)
        = (\<not> predicate_hits rc ms (mc_Subject m) [Subject e])"
    using C(3,6) by (cases "mc_Subject m = []") (auto simp: predicate_hits_def)
  show ?thesis unfolding Matches_def spec_matches_def f t s by simp
qed

lemma NewRuleSet_loop_Inr:
  assumes "NewRuleSet_loop rc i mbs acc = Inr rules"
  shows "\<exists>new. rules = acc @ new \<and> length new = length mbs \<and>
           (\<forall>k<length mbs. rule_Name (new ! k) = mb_Name (mbs ! k) \<and>
              Processor (new ! k) = mb_Processor (mbs ! k) \<and>
              Priority (new ! k) = int (i + k) \<and>
              Compile rc (mb_Match (mbs ! k)) = Inr (Match (new ! k)))"
  using assms
proof (induction mbs arbitrary: i acc)
  case Nil
  then show ?case by simp
next
  case (Cons mb mbs)
  from Cons.prems obtain compiled where c: "Compile rc (mb_Match mb) = Inr compiled"
    by (auto split: sum.splits)
  let ?r = "\<lparr>rule_Name = mb_Name mb, Match = compiled,
                        Processor = mb_Processor mb, Priority = int i\<rparr>"
  from Cons.prems c have "NewRuleSet_loop rc (Suc i) mbs (acc @ [?r]) = Inr rules" by simp
  from Cons.IH[OF this] obtain new where n: "rules = (acc @ [?r]) @ new" "length new = length mbs"
    "\<forall>k<length mbs. rule_Name (new ! k) = mb_Name (mbs ! k) \<and>
              Processor (new ! k) = mb_Processor (mbs ! k) \<and>
              Priority (new ! k) = int (Suc i + k) \<and>
              Compile rc (mb_Match (mbs ! k)) = Inr (Match (new ! k))" by blast
  show ?case
  proof (intro exI[of _ "?r # new"] conjI allI impI)
    show "rules = acc @ ?r # new" using n(1) by simp
    show "length (?r # new) = length (mb # mbs)" using n(2) by simp
  next
    fix k assume "k < length (mb # mbs)"
    then show "rule_Name ((?r # new) ! k) = mb_Name ((mb # mbs) ! k)"
      "Processor ((?r # new) ! k) = mb_Processor ((mb # mbs) ! k)"
      "Priority ((?r # new) ! k) = int (i + k)"
      "Compile rc (mb_Match ((mb # mbs) ! k)) = Inr (Match ((?r # new) ! k))"
      using n(3) c by (cases k; simp)+
  qed
qed

lemma NewRuleSet_Inr:
  assumes "NewRuleSet rc mbs = Inr rules"
  shows "length rules = length mbs"
    and "k < length mbs \<Longrightarrow> rule_Name (rules ! k) = mb_Name (mbs ! k)"
    and "k < length mbs \<Longrightarrow> Processor (rules ! k) = mb_Processor (mbs ! k)"
    and "k < length mbs \<Longrightarrow> Priority (rules ! k) = int k"
    and "k < length mbs \<Longrightarrow> Compile rc (mb_Match (mbs ! k)) = Inr (Match (rules ! k))"
  using NewRuleSet_loop_Inr[OF assms[unfolded NewRuleSet_def]] by auto

lemma FindMatch_None:
  "FindMatch ms rules e = None \<longleftrightarrow> (\<forall>k<length rules. \<not> Matches ms (rules ! k) e)"
  by (induction rules) (auto simp: less_Suc_eq_0_disj)

lemma FindMatch_Some:
  "FindMatch ms rules e = Some r \<Longrightarrow>
     \<exists>i<length rules. r = rules ! i \<and> Matches ms r e \<and> (\<forall>j<i. \<not> Matches ms (rules ! j) e)"
proof (induction rules)
  case Nil
  then show ?case by simp
next
  case (Cons a rules)
  show ?case
  proof (cases "Matches ms a e")
    case True
    with Cons.prems have "r = a" by simp
    with True show ?thesis by (intro exI[of _ 0]) simp
  next
    case False
    with Cons.prems have "FindMatch ms rules e = Some r" by simp
    from Cons.IH[OF this] obtain i where i: "i < length rules" "r = rules ! i" "Matches ms r e"
      "\<forall>j<i. \<not> Matches ms (rules ! j) e" by blast
    show ?thesis
    proof (intro exI[of _ "Suc i"] conjI allI impI)
      fix j assume "j < Suc i"
      then show "\<not> Matches ms ((a # rules) ! j) e" using False i(4) by (cases j) auto
    qed (use i in auto)
  qed
qed

text \<open>
  Claim C1. For a rule set compiled from the mailbox list and any inbound email, the
  rule that \<open>FindMatch\<close> returns (and whose name \<open>Route\<close> reports) is the rule
  of the first mailbox, in configuration order, whose declared predicates all match in
  the sense of \<open>spec_matches\<close>: an empty pattern is a wildcard, \<open>from\<close> is matched
  against the sender's bare address, \<open>to\<close> against the recipients' addresses (any one
  hit), \<open>subject\<close> against the subject. No earlier mailbox matches; when no mailbox
  matches at all, the result is the mailbox \<open>unmatched\<close> with the no-op processor.
\<close>

theorem Route_first_match:
  assumes "NewRuleSet rc mailboxes = Inr rules"
  shows "case FindMatch ms rules e of
           None \<Rightarrow>
             (\<forall>i<length mailboxes. \<not> spec_matches rc ms (mb_Match (mailboxes ! i)) e) \<and>
             Route ms rules e =
               \<lparr>MailboxName = ''unmatched'', ProcessorType = ''noop'', Config = None\<rparr>
         | Some r \<Rightarrow>
             (\<exists>i<length mailboxes.
                 r = rules ! i \<and> Priority r = int i \<and>
                 rule_Name r = mb_Name (mailboxes ! i) \<and>
                 Processor r = mb_Processor (mailboxes ! i) \<and>
                 spec_matches rc ms (mb_Match (mailboxes ! i)) e \<and>
                 (\<forall>j<i. \<not> spec_matches rc ms (mb_Match (mailboxes ! j)) e)) \<and>
             MailboxName (Route ms rules e) = rule_Name r \<and>
             Config (Route ms rules e) = Some (Processor r)"
proof (cases "FindMatch ms rules e")
  case None
  note R = NewRuleSet_Inr[OF assms]
  have "\<not> spec_matches rc ms (mb_Match (mailboxes ! i)) e" if "i < length mailboxes" for i
    using None that R(1) Matches_spec[OF R(5)[OF that], of ms e]
    by (simp add: FindMatch_None)
  with None show ?thesis by (simp add: Route_def ProcessorTypeNoop_def)
next
  case (Some r)
  note R = NewRuleSet_Inr[OF assms]
  from FindMatch_Some[OF Some] obtain i where i: "i < length rules" "r = rules ! i"
    "Matches ms r e" "\<forall>j<i. \<not> Matches ms (rules ! j) e" by blast
  have il: "i < length mailboxes" using i(1) R(1) by simp
  have a: "spec_matches rc ms (mb_Match (mailboxes ! i)) e"
    using Matches_spec[OF R(5)[OF il], of ms e] i(2,3) by simp
  have b: "\<not> spec_matches rc ms (mb_Match (mailboxes ! j)) e" if "j < i" for j
  proof -
    from that il have jl: "j < length mailboxes" by simp
    show ?thesis using Matches_spec[OF R(5)[OF jl], of ms e] i(4) that by simp
  qed
  have "\<exists>i<length mailboxes.
                 r = rules ! i \<and> Priority r = int i \<and>
                 rule_Name r = mb_Name (mailboxes ! i) \<and>
                 Processor r = mb_Processor (mailboxes ! i) \<and>
                 spec_matches rc ms (mb_Match (mailboxes ! i)) e \<and>
                 (\<forall>j<i. \<not> spec_matches rc ms (mb_Match (mailboxes ! j)) e)"
    using il i(2) R(2,3,4)[OF il] a b by (intro exI[of _ i]) simp
  with Some show ?thesis by (simp add: Route_def)
qed


theorem Route_first_match_witness:
  "NewRuleSet literal_Compile example_mailboxes = Inr example_rules \<and>
   (case FindMatch literal_MatchString example_rules example_email of
      None \<Rightarrow>
        (\<forall>i<length example_mailboxes.
            \<not> spec_matches literal_Compile literal_MatchString
                 (mb_Match (example_mailboxes ! i)) example_email) \<and>
        Route literal_MatchString example_rules example_email =
          \<lparr>MailboxName = ''unmatched'', ProcessorType = ''noop'', Config = None\<rparr>
    | Some r \<Rightarrow>
        (\<exists>i<length example_mailboxes.
            r = example_rules ! i \<and> Priority r = int i \<and>
            rule_Name r = mb_Name (example_mailboxes ! i) \<and>
            Processor r = mb_Processor (example_mailboxes ! i) \<and>
            spec_matches literal_Compile literal_MatchString
              (mb_Match (example_mailboxes ! i)) example_email \<and>
            (\<forall>j<i. \<not> spec_matches literal_Compile literal_MatchString
                        (mb_Match (example_mailboxes ! j)) example_email)) \<and>
        MailboxName (Route literal_MatchString example_rules example_email) = rule_Name r \<and>
        Config (Route literal_MatchString example_rules example_email) = Some (Processor r)) \<and>
   MailboxName (Route literal_MatchString example_rules example_email) = ''support''"
proof -
  have h: "NewRuleSet literal_Compile example_mailboxes = Inr example_rules"
    by (simp add: NewRuleSet_def Compile_def literal_Compile_def example_mailboxes_def
        example_rules_def)
  have m: "MailboxName (Route literal_MatchString example_rules example_email) = ''support''"
    by (simp add: Route_def Matches_def literal_MatchString_def example_rules_def
        example_email_def)
  from h m Route_first_match [OF h, of literal_MatchString example_email]
  show ?thesis by blast
qed

section \<open>The send_email tool: replies\<close>

lemma lowerByte_r: "lowerByte c = CHR ''r'' \<longleftrightarrow> c = CHR ''r'' \<or> c = CHR ''R''"
  by (simp add: lowerByte_def upper_letters_def lower_letters_def)

lemma lowerByte_e: "lowerByte c = CHR ''e'' \<longleftrightarrow> c = CHR ''e'' \<or> c = CHR ''E''"
  by (simp add: lowerByte_def upper_letters_def lower_letters_def)

lemma lowerByte_colon: "lowerByte c = CHR '':'' \<longleftrightarrow> c = CHR '':''"
  by (simp add: lowerByte_def upper_letters_def lower_letters_def)

lemma prefix_re_ToLower: "prefix ''re:'' (ToLower s) \<longleftrightarrow> begins_with_re s"
proof (cases s rule: begins_with_re.cases)
  case (1 a b c rest)
  then show ?thesis
    by (simp add: ToLower_def lowerByte_r lowerByte_e lowerByte_colon eq_commute[of "CHR ''r''"]
        eq_commute[of "CHR ''e''"] eq_commute[of "CHR '':''"])
qed (simp_all add: ToLower_def)

text \<open>
  Claim C6. When \<open>send_email\<close> runs the action \<open>reply\<close> with a current email bound,
  exactly one email is handed to the sender. Its only recipient is the current
  email's Reply-To address if there is one, else its From address. Its subject is the
  provided subject if that is not empty; otherwise it is the original subject, with
  \<open>Re: \<close> put in front unless the original already begins with \<open>re:\<close> in any letter
  case. Its In-Reply-To is the current email's message id.
\<close>

theorem executeReply_addressing:
  assumes "currentEmail t = Some cur" and "Action params = ''reply''"
  shows "\<exists>outbound.
           snd (EmailTool_Execute Format t (Inr params)) = [outbound] \<and>
           o_To outbound = [case ReplyTo cur of Some a \<Rightarrow> a | None \<Rightarrow> From cur] \<and>
           o_Subject outbound =
             (if ea_Subject params \<noteq> [] then ea_Subject params
              else if begins_with_re (Subject cur) then Subject cur
              else ''Re: '' @ Subject cur) \<and>
           InReplyTo outbound = MessageID cur"
proof -
  define outbound where "outbound =
     \<lparr>o_From = \<lparr>Name = fromName t, Address = fromAddress t\<rparr>,
      o_To = [case ReplyTo cur of Some a \<Rightarrow> a | None \<Rightarrow> From cur],
      o_Cc = [], o_Bcc = [], o_ReplyTo = None,
      o_Subject = (if ea_Subject params = [] then
                     (if \<not> prefix ''re:'' (ToLower (Subject cur))
                      then ''Re: '' @ Subject cur else Subject cur)
                   else ea_Subject params),
      o_TextBody = (if IncludeOriginal params = Some True
                    then appendOriginalMessage Format t (Body params) else Body params),
      o_HTMLBody = ea_HTMLBody params, o_Attachments = [],
      InReplyTo = MessageID cur, References = []\<rparr>"
  have "snd (executeReply Format t params) = [outbound]"
    unfolding executeReply_def assms(1) Let_def outbound_def option.case
    by (cases "ReplyTo cur"; simp split: option.split)
  then have sent: "snd (EmailTool_Execute Format t (Inr params)) = [outbound]"
    by (simp add: EmailTool_Execute_def assms(2))
  have "o_To outbound = [case ReplyTo cur of Some a \<Rightarrow> a | None \<Rightarrow> From cur]"
    by (simp add: outbound_def)
  moreover have "o_Subject outbound =
             (if ea_Subject params \<noteq> [] then ea_Subject params
              else if begins_with_re (Subject cur) then Subject cur
              else ''Re: '' @ Subject cur)"
    by (simp add: outbound_def prefix_re_ToLower)
  moreover have "InReplyTo outbound = MessageID cur"
    by (simp add: outbound_def)
  ultimately show ?thesis using sent by blast
qed

theorem executeReply_addressing_witness:
  "currentEmail (SetCurrentEmail (NewEmailTool NoopSender_Send ''bot@acme.io'' ''Bot'')
      example_email) = Some example_email \<and>
   Action example_args = ''reply'' \<and>
   (\<exists>outbound.
      snd (EmailTool_Execute example_Format
             (SetCurrentEmail (NewEmailTool NoopSender_Send ''bot@acme.io'' ''Bot'')
                example_email) (Inr example_args)) = [outbound] \<and>
      o_To outbound = [case ReplyTo example_email of Some a \<Rightarrow> a
                       | None \<Rightarrow> From example_email] \<and>
      o_Subject outbound =
        (if ea_Subject example_args \<noteq> [] then ea_Subject example_args
         else if begins_with_re (Subject example_email) then Subject example_email
         else ''Re: '' @ Subject example_email) \<and>
      InReplyTo outbound = MessageID example_email) \<and>
   (if ea_Subject example_args \<noteq> [] then ea_Subject example_args
    else if begins_with_re (Subject example_email) then Subject example_email
    else ''Re: '' @ Subject example_email) = ''Re: Invoice 42''"
proof -
  have h: "currentEmail (SetCurrentEmail (NewEmailTool NoopSender_Send ''bot@acme.io'' ''Bot'')
      example_email) = Some example_email"
    by (simp add: SetCurrentEmail_def NewEmailTool_def)
  have s: "(if ea_Subject example_args \<noteq> [] then ea_Subject example_args
    else if begins_with_re (Subject example_email) then Subject example_email
    else ''Re: '' @ Subject example_email) = ''Re: Invoice 42''"
    by (simp add: example_args_def example_email_def)
  have a: "Action example_args = ''reply''"
    by (simp add: example_args_def)
  show ?thesis
    by (rule conjI [OF h conjI [OF a conjI [OF executeReply_addressing [OF h a] s]]])
qed

section \<open>The send_email tool: no current email\<close>

text \<open>
  Claim C10. When no current email has been bound, \<open>send_email\<close> with the action
  \<open>reply\<close> or \<open>forward\<close> returns the error envelope (success false, with the error
  text \<open>no current email to reply to\<close> or \<open>no current email to forward\<close>) and hands
  nothing to the sender.
\<close>

theorem Execute_without_current_email:
  assumes "currentEmail t = None"
    and "Action params = ''reply'' \<or> Action params = ''forward''"
  shows "EmailTool_Execute Format t (Inr params) =
           (Marshal \<lparr>Success = False, tr_Data = None,
                     Error = (if Action params = ''reply'' then ''no current email to reply to''
                              else ''no current email to forward'')\<rparr>, [])"
  using assms
  by (auto simp: EmailTool_Execute_def executeReply_def executeForward_def NewErrorResult_def)

theorem Execute_without_current_email_witness:
  "currentEmail (NewEmailTool failing_Send ''bot@acme.io'' ''Bot'') = None \<and>
   (Action (example_args\<lparr>Action := ''forward''\<rparr>) = ''reply'' \<or>
    Action (example_args\<lparr>Action := ''forward''\<rparr>) = ''forward'') \<and>
   EmailTool_Execute example_Format (NewEmailTool failing_Send ''bot@acme.io'' ''Bot'')
       (Inr (example_args\<lparr>Action := ''forward''\<rparr>)) =
     (Marshal \<lparr>Success = False, tr_Data = None, Error = ''no current email to forward''\<rparr>, [])"
proof -
  have h1: "currentEmail (NewEmailTool failing_Send ''bot@acme.io'' ''Bot'') = None"
    by (simp add: NewEmailTool_def)
  have h2: "Action (example_args\<lparr>Action := ''forward''\<rparr>) = ''reply'' \<or>
    Action (example_args\<lparr>Action := ''forward''\<rparr>) = ''forward''"
    by simp
  have c: "EmailTool_Execute example_Format (NewEmailTool failing_Send ''bot@acme.io'' ''Bot'')
       (Inr (example_args\<lparr>Action := ''forward''\<rparr>)) =
     (Marshal \<lparr>Success = False, tr_Data = None, Error = ''no current email to forward''\<rparr>, [])"
    unfolding Execute_without_current_email [OF h1 h2, of example_Format] by simp
  show ?thesis
    by (rule conjI [OF h1 conjI [OF h2 c]])
qed

section \<open>The database_query tool: refused statements\<close>

lemma NewErrorResult_eq: "NewErrorResult a = NewErrorResult b \<longleftrightarrow> a = b"
  by (simp add: NewErrorResult_def)

lemma NewErrorResult_neq_Success: "NewErrorResult a \<noteq> NewSuccessResult d"
  by (simp add: NewErrorResult_def NewSuccessResult_def)

lemma executeSelect_not_DDL:
  "fst (executeSelect drv q ps db) \<noteq> NewErrorResult ''DDL operations are not allowed''"
  by (simp add: executeSelect_def NewErrorResult_eq NewErrorResult_neq_Success[symmetric]
      split: prod.split sum.split)

lemma executeModify_not_DDL:
  "fst (executeModify drv q ps db) \<noteq> NewErrorResult ''DDL operations are not allowed''"
  by (simp add: executeModify_def NewErrorResult_eq NewErrorResult_neq_Success[symmetric]
      split: prod.split sum.split)

lemmas string_eval =
  ToUpper_ascii_def TrimSpace_ascii_def isSpace_def upperByte_def
  lower_letters_def upper_letters_def

text \<open>
  Claim C7, as stated, fails in both directions. A SELECT whose text merely contains
  the word \<open>create\<close> followed by a space is refused with
  \<open>DDL operations are not allowed\<close>, although it does not begin with a DDL keyword;
  and on a read-only tool \<open>drop table emails\<close> begins with a DDL keyword but is
  refused with the read-only error, not with the DDL one. (Both queries are ASCII
  text, on which the library functions are \<open>ToUpper_ascii\<close> and
  \<open>TrimSpace_ascii\<close>.)
\<close>

theorem DDL_check_counterexample:
  "fst (DatabaseTool_Execute ToUpper_ascii TrimSpace_ascii empty_Driver
          (NewDatabaseTool [] False) (Inr ticket_query) ()) =
     Marshal \<lparr>Success = False, tr_Data = None, Error = ''DDL operations are not allowed''\<rparr> \<and>
   \<not> ddl_prefix ToUpper_ascii TrimSpace_ascii (Query ticket_query) \<and>
   ddl_prefix ToUpper_ascii TrimSpace_ascii (Query drop_query) \<and>
   fst (DatabaseTool_Execute ToUpper_ascii TrimSpace_ascii empty_Driver
          (NewDatabaseTool [] True) (Inr drop_query) ()) =
     Marshal \<lparr>Success = False, tr_Data = None,
              Error = ''only SELECT queries are allowed in read-only mode''\<rparr>"
  by (simp add: DatabaseTool_Execute_def NewDatabaseTool_def ticket_query_def drop_query_def
      ddl_prefix_def NewErrorResult_def string_eval)

text \<open>
  Claim C7, amended. Whatever \<open>strings.ToUpper\<close> and \<open>strings.TrimSpace\<close>
  compute, for every query \<open>Execute\<close> returns the error envelope
  \<open>DDL operations are not allowed\<close> exactly when the query is not empty, passes the
  read-only check (the tool is not read-only, or the upper-cased, trimmed query begins
  with \<open>SELECT\<close>) and its upper-cased, trimmed text contains \<open>DROP \<close>,
  \<open>TRUNCATE \<close>, \<open>ALTER \<close> or \<open>CREATE \<close> anywhere. On a read-only tool every
  query whose upper-cased, trimmed text does not begin with \<open>SELECT\<close> gets an error
  envelope, and the database is not touched.
\<close>

theorem DDL_check_anywhere:
  "(fst (DatabaseTool_Execute toUpper trimSpace drv t (Inr params) db) =
      Marshal \<lparr>Success = False, tr_Data = None, Error = ''DDL operations are not allowed''\<rparr>
    \<longleftrightarrow>
      Query params \<noteq> [] \<and>
      (readOnly t \<longrightarrow> prefix ''SELECT'' (toUpper (trimSpace (Query params)))) \<and>
      ddl_anywhere toUpper trimSpace (Query params)) \<and>
   (readOnly t \<and> \<not> prefix ''SELECT'' (toUpper (trimSpace (Query params))) \<longrightarrow>
      (\<exists>msg. DatabaseTool_Execute toUpper trimSpace drv t (Inr params) db =
              (Marshal \<lparr>Success = False, tr_Data = None, Error = msg\<rparr>, db)))"
proof -
  let ?u = "toUpper (trimSpace (Query params))"
  let ?ddl = "NewErrorResult ''DDL operations are not allowed''"
  let ?run = "DatabaseTool_Execute toUpper trimSpace drv t (Inr params) db"
  have a: "fst ?run = ?ddl \<longleftrightarrow>
             Query params \<noteq> [] \<and> (readOnly t \<longrightarrow> prefix ''SELECT'' ?u) \<and>
             ddl_anywhere toUpper trimSpace (Query params)"
  proof (cases "Query params = []")
    case True
    then show ?thesis
      by (simp add: DatabaseTool_Execute_def NewErrorResult_eq)
  next
    case False
    show ?thesis
    proof (cases "readOnly t \<and> \<not> prefix ''SELECT'' ?u")
      case True
      then show ?thesis using False
        by (simp add: DatabaseTool_Execute_def Let_def NewErrorResult_eq)
    next
      case ro: False
      show ?thesis
      proof (cases "ddl_anywhere toUpper trimSpace (Query params)")
        case True
        then show ?thesis using False ro
          by (auto simp: DatabaseTool_Execute_def Let_def ddl_anywhere_def)
      next
        case nd: False
        then have "fst ?run =
            (if prefix ''SELECT'' ?u then fst (executeSelect drv (Query params) (Params params) db)
             else fst (executeModify drv (Query params) (Params params) db))"
          using False ro by (auto simp: DatabaseTool_Execute_def Let_def ddl_anywhere_def)
        then show ?thesis using nd executeSelect_not_DDL executeModify_not_DDL
          by (simp split: if_splits)
      qed
    qed
  qed
  have b: "\<exists>msg. ?run = (Marshal \<lparr>Success = False, tr_Data = None, Error = msg\<rparr>, db)"
    if "readOnly t \<and> \<not> prefix ''SELECT'' ?u"
    using that by (simp add: DatabaseTool_Execute_def Let_def NewErrorResult_def)
  from a b show ?thesis by (simp add: NewErrorResult_def)
qed

theorem DDL_check_anywhere_witness:
  "Query drop_query \<noteq> [] \<and>
   readOnly (NewDatabaseTool [] True) \<and>
   \<not> prefix ''SELECT'' (ToUpper_ascii (TrimSpace_ascii (Query drop_query))) \<and>
   ddl_anywhere ToUpper_ascii TrimSpace_ascii (Query drop_query) \<and>
   fst (DatabaseTool_Execute ToUpper_ascii TrimSpace_ascii empty_Driver
          (NewDatabaseTool [] True) (Inr drop_query) ()) \<noteq>
     Marshal \<lparr>Success = False, tr_Data = None, Error = ''DDL operations are not allowed''\<rparr> \<and>
   (\<exists>msg. DatabaseTool_Execute ToUpper_ascii TrimSpace_ascii empty_Driver
             (NewDatabaseTool [] True) (Inr drop_query) () =
           (Marshal \<lparr>Success = False, tr_Data = None, Error = msg\<rparr>, ())) \<and>
   ddl_anywhere ToUpper_ascii TrimSpace_ascii (Query ticket_query) \<and>
   prefix ''SELECT'' (ToUpper_ascii (TrimSpace_ascii (Query ticket_query))) \<and>
   fst (DatabaseTool_Execute ToUpper_ascii TrimSpace_ascii empty_Driver
          (NewDatabaseTool [] True) (Inr ticket_query) ()) =
     Marshal \<lparr>Success = False, tr_Data = None, Error = ''DDL operations are not allowed''\<rparr>"
proof -
  have q: "Query drop_query \<noteq> []"
    by (simp add: drop_query_def)
  have r: "readOnly (NewDatabaseTool [] True)"
    by (simp add: NewDatabaseTool_def)
  have s: "\<not> prefix ''SELECT'' (ToUpper_ascii (TrimSpace_ascii (Query drop_query)))"
    by (simp add: drop_query_def string_eval)
  have d: "ddl_anywhere ToUpper_ascii TrimSpace_ascii (Query drop_query)"
    by (simp add: drop_query_def ddl_anywhere_def string_eval)
  note T = DDL_check_anywhere [of ToUpper_ascii TrimSpace_ascii empty_Driver
      "NewDatabaseTool [] True" drop_query "()"]
  from T r s have c1:
    "fst (DatabaseTool_Execute ToUpper_ascii TrimSpace_ascii empty_Driver
          (NewDatabaseTool [] True) (Inr drop_query) ()) \<noteq>
     Marshal \<lparr>Success = False, tr_Data = None, Error = ''DDL operations are not allowed''\<rparr>"
    by blast
  from T r s have c2:
    "\<exists>msg. DatabaseTool_Execute ToUpper_ascii TrimSpace_ascii empty_Driver
             (NewDatabaseTool [] True) (Inr drop_query) () =
           (Marshal \<lparr>Success = False, tr_Data = None, Error = msg\<rparr>, ())"
    by blast
  have d': "ddl_anywhere ToUpper_ascii TrimSpace_ascii (Query ticket_query)"
    by (simp add: ticket_query_def ddl_anywhere_def string_eval)
  have s': "prefix ''SELECT'' (ToUpper_ascii (TrimSpace_ascii (Query ticket_query)))"
    by (simp add: ticket_query_def string_eval)
  have q': "Query ticket_query \<noteq> []"
    by (simp add: ticket_query_def)
  from DDL_check_anywhere [of ToUpper_ascii TrimSpace_ascii empty_Driver
      "NewDatabaseTool [] True" ticket_query "()"] q' s' d'
  have c3: "fst (DatabaseTool_Execute ToUpper_ascii TrimSpace_ascii empty_Driver
          (NewDatabaseTool [] True) (Inr ticket_query) ()) =
     Marshal \<lparr>Success = False, tr_Data = None, Error = ''DDL operations are not allowed''\<rparr>"
    by blast
  show ?thesis
    by (rule conjI [OF q conjI [OF r conjI [OF s conjI [OF d conjI [OF c1 conjI [OF c2
          conjI [OF d' conjI [OF s' c3]]]]]]]])
qed

section \<open>The LLM tool-use loop: bounds and tool results\<close>

lemma toolResultIDs_append:
  "toolResultIDs (xs @ ys) = toolResultIDs xs @ toolResultIDs ys"
  by (induction xs rule: toolResultIDs.induct) simp_all

lemma toolResults_append:
  "toolResults (xs @ ys) = toolResults xs @ toolResults ys"
  by (induction xs rule: toolResults.induct) simp_all

lemma toolResults_map2:
  "toolResults (map2 toolResult fcs outs) = map2 toolResult fcs outs"
  by (induction fcs arbitrary: outs; case_tac outs) (auto simp: toolResult_def)

lemma toolResultIDs_map2:
  "length outs = length fcs \<Longrightarrow> toolResultIDs (map2 toolResult fcs outs) = map CallID fcs"
  by (induction fcs arbitrary: outs; case_tac outs) (auto simp: toolResult_def)

text \<open>
  The inner loop executes every call in order, whatever the outcomes, and appends one
  tool result for each.
\<close>

lemma executeCalls_executes:
  "\<exists>outs. length outs = length fcs \<and>
          executes registry fcs w outs (snd (snd (executeCalls registry fcs input execs w))) \<and>
          fst (executeCalls registry fcs input execs w) = input @ map2 toolResult fcs outs \<and>
          fst (snd (executeCalls registry fcs input execs w)) = execs @ zip fcs outs"
proof (induction fcs arbitrary: input execs w)
  case Nil
  show ?case by (intro exI[of _ "[]"]) (simp add: executes_none)
next
  case (Cons fc fcs)
  obtain out w1 where r: "Registry_Execute registry (oi_Name fc) (Arguments fc) w = (out, w1)"
    by (cases "Registry_Execute registry (oi_Name fc) (Arguments fc) w")
  let ?input1 = "input @ [toolResult fc out]"
  let ?execs1 = "execs @ [(fc, out)]"
  have step: "executeCalls registry (fc # fcs) input execs w =
              executeCalls registry fcs ?input1 ?execs1 w1"
    using r by (cases out) (simp_all add: toolResult_def NewErrorResult_def)
  from Cons.IH[of w1 ?input1 ?execs1] obtain outs where o:
    "length outs = length fcs"
    "executes registry fcs w1 outs (snd (snd (executeCalls registry fcs ?input1 ?execs1 w1)))"
    "fst (executeCalls registry fcs ?input1 ?execs1 w1) = ?input1 @ map2 toolResult fcs outs"
    "fst (snd (executeCalls registry fcs ?input1 ?execs1 w1)) = ?execs1 @ zip fcs outs"
    by blast
  show ?case
    unfolding step
    using o executes_call[OF r o(2)] by (intro exI[of _ "out # outs"]) simp
qed

lemma executes_executeCalls:
  "executes registry fcs w outs w2 \<Longrightarrow>
     executeCalls registry fcs input execs w =
       (input @ map2 toolResult fcs outs, execs @ zip fcs outs, w2)"
proof (induction arbitrary: input execs rule: executes.induct)
  case (executes_none w)
  show ?case by simp
next
  case (executes_call fc w out w1 fcs outs w2)
  have "executeCalls registry (fc # fcs) input execs w =
        executeCalls registry fcs (input @ [toolResult fc out]) (execs @ [(fc, out)]) w1"
    using executes_call.hyps(1) by (cases out) (simp_all add: toolResult_def NewErrorResult_def)
  then show ?case using executes_call.IH by simp
qed

lemma executes_length: "executes registry fcs w outs w2 \<Longrightarrow> length outs = length fcs"
  by (induction rule: executes.induct) simp_all

text \<open>One iteration of the outer loop, for a response that ends it and for one that does not.\<close>

lemma toolLoop_final:
  assumes "chat input w = (Inr resp, w')" and "\<not> continues resp"
  shows "toolLoop chat registry (Suc n) input resps execs calls w =
           \<lparr>result = Inr (finalText resp), conversation = input, responses = resps @ [resp],
            executions = execs, model_calls = Suc calls, world = w'\<rparr>"
  using assms
  by (auto simp: continues_def finalText_def split: option.splits if_splits)

lemma toolLoop_continue:
  assumes "chat input w = (Inr resp, w1)" and "continues resp"
    and "executeCalls registry (functionCalls (Output resp)) input execs w1 = (input', execs', w2)"
  shows "toolLoop chat registry (Suc n) input resps execs calls w =
           toolLoop chat registry n input' (resps @ [resp]) execs' (Suc calls) w2"
  using assms by (auto simp: continues_def split: if_splits)

lemma toolLoop_model_error:
  assumes "chat input w = (Inl err, w')"
  shows "toolLoop chat registry (Suc n) input resps execs calls w =
           \<lparr>result = Inl err, conversation = input, responses = resps,
            executions = execs, model_calls = Suc calls, world = w'\<rparr>"
  using assms by simp

lemma toolLoop_trace:
  "\<exists>new nexecs.
     responses (toolLoop chat registry n input resps execs calls w) = resps @ new \<and>
     executions (toolLoop chat registry n input resps execs calls w) = execs @ nexecs \<and>
     length new \<le> n \<and>
     model_calls (toolLoop chat registry n input resps execs calls w) \<le> calls + n \<and>
     map fst nexecs = concat (map (\<lambda>r. functionCalls (Output r)) (filter continues new)) \<and>
     toolResults (conversation (toolLoop chat registry n input resps execs calls w)) =
       toolResults input @ map (\<lambda>(fc, out). toolResult fc out) nexecs \<and>
     toolResultIDs (conversation (toolLoop chat registry n input resps execs calls w)) =
       toolResultIDs input @ concat (map callIDs (filter continues new)) \<and>
     (length new = n \<and> list_all continues new \<longrightarrow>
        result (toolLoop chat registry n input resps execs calls w) = Inl max_iterations_error \<and>
        model_calls (toolLoop chat registry n input resps execs calls w) = calls + n)"
proof (induction n arbitrary: input resps execs calls w)
  case 0
  show ?case by (intro exI[of _ "[]"]) simp
next
  case (Suc n)
  obtain out w' where c: "chat input w = (out, w')" by (cases "chat input w")
  show ?case
  proof (cases out)
    case (Inl err)
    have st: "toolLoop chat registry (Suc n) input resps execs calls w =
           \<lparr>result = Inl err, conversation = input, responses = resps,
            executions = execs, model_calls = Suc calls, world = w'\<rparr>"
      by (rule toolLoop_model_error) (simp add: c Inl)
    show ?thesis
      unfolding st by (intro exI[of _ "[]"]) simp
  next
    case (Inr resp)
    show ?thesis
    proof (cases "continues resp")
      case False
      have st: "toolLoop chat registry (Suc n) input resps execs calls w =
           \<lparr>result = Inr (finalText resp), conversation = input, responses = resps @ [resp],
            executions = execs, model_calls = Suc calls, world = w'\<rparr>"
        by (rule toolLoop_final[OF _ False]) (simp add: c Inr)
      show ?thesis
        unfolding st
        using False by (intro exI[of _ "[resp]"] exI[of _ "[]"]) simp
    next
      case True
      let ?fcs = "functionCalls (Output resp)"
      obtain input' execs' w'' where e:
        "executeCalls registry ?fcs input execs w' = (input', execs', w'')"
        by (cases "executeCalls registry ?fcs input execs w'") auto
      from executeCalls_executes[of ?fcs registry w' input execs] e obtain outs where o:
        "length outs = length ?fcs" "input' = input @ map2 toolResult ?fcs outs"
        "execs' = execs @ zip ?fcs outs"
        by auto
      from Suc.IH[of input' "resps @ [resp]" execs' "Suc calls" w''] obtain new nexecs where new:
        "responses (toolLoop chat registry n input' (resps @ [resp]) execs' (Suc calls) w'') =
           (resps @ [resp]) @ new"
        "executions (toolLoop chat registry n input' (resps @ [resp]) execs' (Suc calls) w'') =
           execs' @ nexecs"
        "length new \<le> n"
        "model_calls (toolLoop chat registry n input' (resps @ [resp]) execs' (Suc calls) w'')
           \<le> Suc calls + n"
        "map fst nexecs = concat (map (\<lambda>r. functionCalls (Output r)) (filter continues new))"
        "toolResults (conversation (toolLoop chat registry n input' (resps @ [resp]) execs'
             (Suc calls) w'')) =
           toolResults input' @ map (\<lambda>(fc, out). toolResult fc out) nexecs"
        "toolResultIDs (conversation (toolLoop chat registry n input' (resps @ [resp]) execs'
             (Suc calls) w'')) =
           toolResultIDs input' @ concat (map callIDs (filter continues new))"
        "length new = n \<and> list_all continues new \<longrightarrow>
           result (toolLoop chat registry n input' (resps @ [resp]) execs' (Suc calls) w'') =
             Inl max_iterations_error \<and>
           model_calls (toolLoop chat registry n input' (resps @ [resp]) execs' (Suc calls) w'') =
             Suc calls + n"
        by blast
      have ids: "toolResultIDs input' = toolResultIDs input @ callIDs resp"
        using o by (simp add: toolResultIDs_append toolResultIDs_map2 callIDs_def)
      have res: "toolResults input' =
                 toolResults input @ map (\<lambda>(fc, out). toolResult fc out) (zip ?fcs outs)"
        using o by (simp add: toolResults_append toolResults_map2)
      have st: "toolLoop chat registry (Suc n) input resps execs calls w =
                toolLoop chat registry n input' (resps @ [resp]) execs' (Suc calls) w''"
        by (rule toolLoop_continue[OF _ True e]) (simp add: c Inr)
      show ?thesis
        unfolding st
        using new True ids res o
        by (intro exI[of _ "resp # new"] exI[of _ "zip ?fcs outs @ nexecs"]) simp
    qed
  qed
qed

lemma toolMessageIDs_append:
  "toolMessageIDs (xs @ ys) = toolMessageIDs xs @ toolMessageIDs ys"
  by (induction xs rule: toolMessageIDs.induct) simp_all

lemma toolMessages_append:
  "toolMessages (xs @ ys) = toolMessages xs @ toolMessages ys"
  by (induction xs rule: toolMessages.induct) simp_all

lemma executeToolCalls_trace:
  "\<exists>outs. length outs = length tcs \<and>
          fst (executeToolCalls registry tcs messages execs w) =
            messages @ map2 toolMessage tcs outs \<and>
          fst (snd (executeToolCalls registry tcs messages execs w)) = execs @ zip tcs outs"
proof (induction tcs arbitrary: messages execs w)
  case Nil
  show ?case by (intro exI[of _ "[]"]) simp
next
  case (Cons tc tcs)
  obtain out w1 where r:
    "Registry_Execute registry (tc_Name tc) (tc_Arguments tc) w = (out, w1)"
    by (cases "Registry_Execute registry (tc_Name tc) (tc_Arguments tc) w")
  let ?m1 = "messages @ [toolMessage tc out]"
  let ?execs1 = "execs @ [(tc, out)]"
  have step: "executeToolCalls registry (tc # tcs) messages execs w =
              executeToolCalls registry tcs ?m1 ?execs1 w1"
    using r by (cases out) (simp_all add: toolMessage_def NewErrorResult_def)
  from Cons.IH[of ?m1 ?execs1 w1] obtain outs where o:
    "length outs = length tcs"
    "fst (executeToolCalls registry tcs ?m1 ?execs1 w1) = ?m1 @ map2 toolMessage tcs outs"
    "fst (snd (executeToolCalls registry tcs ?m1 ?execs1 w1)) = ?execs1 @ zip tcs outs"
    by blast
  show ?case
    unfolding step using o by (intro exI[of _ "out # outs"]) simp
qed

lemma toolMessages_map2:
  "toolMessages (map2 toolMessage tcs outs) = map2 toolMessage tcs outs"
  by (induction tcs arbitrary: outs; case_tac outs) (auto simp: toolMessage_def)

lemma toolMessageIDs_map2:
  "length outs = length tcs \<Longrightarrow> toolMessageIDs (map2 toolMessage tcs outs) = map tc_ID tcs"
  by (induction tcs arbitrary: outs; case_tac outs) (auto simp: toolMessage_def)

lemma toolLoopCC_final:
  assumes "chat messages w = (Inr resp, w')" and "\<not> continuesCC resp"
  shows "toolLoopCC chat registry (Suc n) messages resps execs calls w =
           \<lparr>result = Inr (m_Content (cr_Message resp)),
            conversation = messages @ [PlainMessage (cr_Message resp)],
            responses = resps @ [resp], executions = execs,
            model_calls = Suc calls, world = w'\<rparr>"
  using assms by (auto simp: continuesCC_def)

lemma toolLoopCC_continue:
  assumes "chat messages w = (Inr resp, w1)" and "continuesCC resp"
    and "executeToolCalls registry (cr_ToolCalls resp)
           (messages @ [PlainMessage (cr_Message resp)]) execs w1 = (messages', execs', w2)"
  shows "toolLoopCC chat registry (Suc n) messages resps execs calls w =
           toolLoopCC chat registry n messages' (resps @ [resp]) execs' (Suc calls) w2"
  using assms by (auto simp: continuesCC_def)

lemma toolLoopCC_trace:
  "\<exists>new nexecs.
     responses (toolLoopCC chat registry n messages resps execs calls w) = resps @ new \<and>
     executions (toolLoopCC chat registry n messages resps execs calls w) = execs @ nexecs \<and>
     length new \<le> n \<and>
     model_calls (toolLoopCC chat registry n messages resps execs calls w) \<le> calls + n \<and>
     map fst nexecs = concat (map cr_ToolCalls (filter continuesCC new)) \<and>
     toolMessages (conversation (toolLoopCC chat registry n messages resps execs calls w)) =
       toolMessages messages @ map (\<lambda>(tc, out). toolMessage tc out) nexecs \<and>
     toolMessageIDs (conversation (toolLoopCC chat registry n messages resps execs calls w)) =
       toolMessageIDs messages @
       concat (map (\<lambda>r. map tc_ID (cr_ToolCalls r)) (filter continuesCC new)) \<and>
     (length new = n \<and> list_all continuesCC new \<longrightarrow>
        result (toolLoopCC chat registry n messages resps execs calls w) =
          Inl max_iterations_error \<and>
        model_calls (toolLoopCC chat registry n messages resps execs calls w) = calls + n)"
proof (induction n arbitrary: messages resps execs calls w)
  case 0
  show ?case by (intro exI[of _ "[]"]) simp
next
  case (Suc n)
  obtain out w' where c: "chat messages w = (out, w')" by (cases "chat messages w")
  show ?case
  proof (cases out)
    case (Inl err)
    with c show ?thesis by (intro exI[of _ "[]"]) simp
  next
    case (Inr resp)
    show ?thesis
    proof (cases "continuesCC resp")
      case False
      have st: "toolLoopCC chat registry (Suc n) messages resps execs calls w =
           \<lparr>result = Inr (m_Content (cr_Message resp)),
            conversation = messages @ [PlainMessage (cr_Message resp)],
            responses = resps @ [resp], executions = execs,
            model_calls = Suc calls, world = w'\<rparr>"
        by (rule toolLoopCC_final[OF _ False]) (simp add: c Inr)
      show ?thesis
        unfolding st
        using False
        by (intro exI[of _ "[resp]"] exI[of _ "[]"])
           (simp add: toolMessageIDs_append toolMessages_append)
    next
      case True
      let ?tcs = "cr_ToolCalls resp"
      let ?m1 = "messages @ [PlainMessage (cr_Message resp)]"
      obtain messages' execs' w'' where e:
        "executeToolCalls registry ?tcs ?m1 execs w' = (messages', execs', w'')"
        by (cases "executeToolCalls registry ?tcs ?m1 execs w'") auto
      from executeToolCalls_trace[of ?tcs registry ?m1 execs w'] e obtain outs where o:
        "length outs = length ?tcs" "messages' = ?m1 @ map2 toolMessage ?tcs outs"
        "execs' = execs @ zip ?tcs outs"
        by auto
      from Suc.IH[of messages' "resps @ [resp]" execs' "Suc calls" w''] obtain new nexecs
        where new:
        "responses (toolLoopCC chat registry n messages' (resps @ [resp]) execs' (Suc calls) w'') =
           (resps @ [resp]) @ new"
        "executions (toolLoopCC chat registry n messages' (resps @ [resp]) execs' (Suc calls) w'') =
           execs' @ nexecs"
        "length new \<le> n"
        "model_calls (toolLoopCC chat registry n messages' (resps @ [resp]) execs' (Suc calls) w'')
           \<le> Suc calls + n"
        "map fst nexecs = concat (map cr_ToolCalls (filter continuesCC new))"
        "toolMessages (conversation (toolLoopCC chat registry n messages' (resps @ [resp]) execs'
             (Suc calls) w'')) =
           toolMessages messages' @ map (\<lambda>(tc, out). toolMessage tc out) nexecs"
        "toolMessageIDs (conversation (toolLoopCC chat registry n messages' (resps @ [resp]) execs'
             (Suc calls) w'')) =
           toolMessageIDs messages' @
           concat (map (\<lambda>r. map tc_ID (cr_ToolCalls r)) (filter continuesCC new))"
        "length new = n \<and> list_all continuesCC new \<longrightarrow>
           result (toolLoopCC chat registry n messages' (resps @ [resp]) execs' (Suc calls) w'') =
             Inl max_iterations_error \<and>
           model_calls (toolLoopCC chat registry n messages' (resps @ [resp]) execs' (Suc calls) w'') =
             Suc calls + n"
        by blast
      have ids: "toolMessageIDs messages' = toolMessageIDs messages @ map tc_ID ?tcs"
        using o by (simp add: toolMessageIDs_append toolMessageIDs_map2)
      have res: "toolMessages messages' =
                 toolMessages messages @ map (\<lambda>(tc, out). toolMessage tc out) (zip ?tcs outs)"
        using o by (simp add: toolMessages_append toolMessages_map2)
      have st: "toolLoopCC chat registry (Suc n) messages resps execs calls w =
                toolLoopCC chat registry n messages' (resps @ [resp]) execs' (Suc calls) w''"
        by (rule toolLoopCC_continue[OF _ True e]) (simp add: c Inr)
      show ?thesis
        unfolding st
        using new True ids res o
        by (intro exI[of _ "resp # new"] exI[of _ "zip ?tcs outs @ nexecs"]) simp
    qed
  qed
qed

lemma effectiveMax_Suc: "\<exists>m. effectiveMax maxIterations = Suc m"
  by (cases "maxIterations \<le> 0") (auto simp: effectiveMax_def numeral_eq_Suc
      intro: exI[of _ "nat maxIterations - 1"])

text \<open>
  A run that returns a text: the last response it received ended the loop, the
  responses before it did not.
\<close>

lemma toolLoop_success:
  "result (toolLoop chat registry n input resps execs calls w) = Inr t \<Longrightarrow>
     \<exists>new resp.
       responses (toolLoop chat registry n input resps execs calls w) = resps @ new @ [resp] \<and>
       list_all continues new \<and> \<not> continues resp \<and> t = finalText resp"
proof (induction n arbitrary: input resps execs calls w)
  case 0
  then show ?case by simp
next
  case (Suc n)
  obtain c w' where c: "chat input w = (c, w')" by (cases "chat input w")
  show ?case
  proof (cases c)
    case (Inl err)
    have "toolLoop chat registry (Suc n) input resps execs calls w =
           \<lparr>result = Inl err, conversation = input, responses = resps,
            executions = execs, model_calls = Suc calls, world = w'\<rparr>"
      by (rule toolLoop_model_error) (simp add: c Inl)
    with Suc.prems show ?thesis by simp
  next
    case (Inr resp)
    have ch: "chat input w = (Inr resp, w')" by (simp add: c Inr)
    show ?thesis
    proof (cases "continues resp")
      case False
      have st: "toolLoop chat registry (Suc n) input resps execs calls w =
           \<lparr>result = Inr (finalText resp), conversation = input, responses = resps @ [resp],
            executions = execs, model_calls = Suc calls, world = w'\<rparr>"
        by (rule toolLoop_final[where chat = chat and input = input and w = w, OF ch False])
      from Suc.prems have "t = finalText resp" unfolding st by simp
      then show ?thesis
        unfolding st using False by (intro exI[of _ "[]"] exI[of _ resp]) simp
    next
      case True
      obtain input' execs' w'' where e:
        "executeCalls registry (functionCalls (Output resp)) input execs w' = (input', execs', w'')"
        by (cases "executeCalls registry (functionCalls (Output resp)) input execs w'") auto
      have st: "toolLoop chat registry (Suc n) input resps execs calls w =
                toolLoop chat registry n input' (resps @ [resp]) execs' (Suc calls) w''"
        by (rule toolLoop_continue[where chat = chat and input = input and w = w, OF ch True e])
      from Suc.prems have
        "result (toolLoop chat registry n input' (resps @ [resp]) execs' (Suc calls) w'') = Inr t"
        unfolding st .
      from Suc.IH[OF this] obtain new last_resp where n:
        "responses (toolLoop chat registry n input' (resps @ [resp]) execs' (Suc calls) w'') =
           (resps @ [resp]) @ new @ [last_resp]"
        "list_all continues new" "\<not> continues last_resp" "t = finalText last_resp"
        by blast
      show ?thesis
        unfolding st using n True
        by (intro exI[of _ "resp # new"] exI[of _ last_resp]) simp
    qed
  qed
qed

lemma toolLoopCC_success:
  "result (toolLoopCC chat registry n messages resps execs calls w) = Inr t \<Longrightarrow>
     \<exists>new resp.
       responses (toolLoopCC chat registry n messages resps execs calls w) =
         resps @ new @ [resp] \<and>
       list_all continuesCC new \<and> \<not> continuesCC resp \<and> t = m_Content (cr_Message resp)"
proof (induction n arbitrary: messages resps execs calls w)
  case 0
  then show ?case by simp
next
  case (Suc n)
  obtain c w' where c: "chat messages w = (c, w')" by (cases "chat messages w")
  show ?case
  proof (cases c)
    case (Inl err)
    with Suc.prems c show ?thesis by simp
  next
    case (Inr resp)
    have ch: "chat messages w = (Inr resp, w')" by (simp add: c Inr)
    show ?thesis
    proof (cases "continuesCC resp")
      case False
      have st: "toolLoopCC chat registry (Suc n) messages resps execs calls w =
           \<lparr>result = Inr (m_Content (cr_Message resp)),
            conversation = messages @ [PlainMessage (cr_Message resp)],
            responses = resps @ [resp], executions = execs,
            model_calls = Suc calls, world = w'\<rparr>"
        by (rule toolLoopCC_final[where chat = chat and messages = messages and w = w,
              OF ch False])
      from Suc.prems have "t = m_Content (cr_Message resp)" unfolding st by simp
      then show ?thesis
        unfolding st using False by (intro exI[of _ "[]"] exI[of _ resp]) simp
    next
      case True
      obtain messages' execs' w'' where e:
        "executeToolCalls registry (cr_ToolCalls resp)
           (messages @ [PlainMessage (cr_Message resp)]) execs w' = (messages', execs', w'')"
        by (cases "executeToolCalls registry (cr_ToolCalls resp)
                     (messages @ [PlainMessage (cr_Message resp)]) execs w'") auto
      have st: "toolLoopCC chat registry (Suc n) messages resps execs calls w =
                toolLoopCC chat registry n messages' (resps @ [resp]) execs' (Suc calls) w''"
        by (rule toolLoopCC_continue[where chat = chat and messages = messages and w = w,
              OF ch True e])
      from Suc.prems have
        "result (toolLoopCC chat registry n messages' (resps @ [resp]) execs' (Suc calls) w'') =
           Inr t"
        unfolding st .
      from Suc.IH[OF this] obtain new last_resp where n:
        "responses (toolLoopCC chat registry n messages' (resps @ [resp]) execs' (Suc calls) w'') =
           (resps @ [resp]) @ new @ [last_resp]"
        "list_all continuesCC new" "\<not> continuesCC last_resp"
        "t = m_Content (cr_Message last_resp)"
        by blast
      show ?thesis
        unfolding st using n True
        by (intro exI[of _ "resp # new"] exI[of _ last_resp]) simp
    qed
  qed
qed

lemmas llm_examples =
  chat_text_and_call_def chat_always_calls_def text_and_call_def only_call_def call_item_def
  text_item_def example_registry_def failing_lookup_def echo_def chatCC_always_calls_def
  chatCC_stop_with_call_def stop_with_call_def tool_calls_response_def Registry_Execute_def
  three_calls_def done_response_def chat_two_steps_def

text \<open>
  Claim C2, as stated, fails where it says that every tool call emitted by the model
  gets a tool result. A response that ends the loop is returned from at once: in the
  Responses loop a completed response with an assistant text and a function call, in
  the Chat Completions loop a response with finish reason \<open>stop\<close> and a tool call.
  The model has emitted one tool call; the call is not executed and no tool result
  is appended.
\<close>

theorem tool_result_per_call_counterexample:
  "result (ProcessWithTools chat_text_and_call example_registry ''hi'' 10 0) =
     Inr ''Looking it up.'' \<and>
   concat (map callIDs
     (responses (ProcessWithTools chat_text_and_call example_registry ''hi'' 10 0))) =
     [''call_1''] \<and>
   toolResultIDs
     (conversation (ProcessWithTools chat_text_and_call example_registry ''hi'' 10 0)) = [] \<and>
   executions (ProcessWithTools chat_text_and_call example_registry ''hi'' 10 0) = [] \<and>
   result (ProcessWithTools_CC chatCC_stop_with_call example_registry ''hi'' 10 0) =
     Inr ''Looking it up.'' \<and>
   concat (map (\<lambda>r. map tc_ID (cr_ToolCalls r))
     (responses (ProcessWithTools_CC chatCC_stop_with_call example_registry ''hi'' 10 0))) =
     [''call_1''] \<and>
   toolMessageIDs
     (conversation (ProcessWithTools_CC chatCC_stop_with_call example_registry ''hi'' 10 0)) = [] \<and>
   executions (ProcessWithTools_CC chatCC_stop_with_call example_registry ''hi'' 10 0) = []"
  by (simp add: ProcessWithTools_def ProcessWithTools_CC_def effectiveMax_def numeral_eq_Suc
      callIDs_def functionCalls_def llm_examples)

text \<open>
  Claim C2, amended. A run of the loop calls the model at most \<open>max_iterations\<close>
  times (10 when the given value is not positive). The tool calls it executes are, in
  order, the tool calls of the responses that did not end the loop, and the tool
  results in the final conversation are, in order, one for each executed call, under
  the call's id. A response that ends the loop is returned from without executing
  the tool calls it carries: when the first response ends the loop, no call has been
  executed and the world is as the model call left it; and whenever the run returns a
  text, the text is that of the last response, which ended the loop, and the executed
  calls are those of the responses before it. If the model answered
  \<open>max_iterations\<close> times and none of the responses ended the loop, the run fails
  with \<open>max iterations reached without completion\<close>. This holds for the Responses
  loop and for the Chat Completions loop.
\<close>

theorem ProcessWithTools_bounded:
  "model_calls (ProcessWithTools chat registry userMessage maxIterations w)
     \<le> (if maxIterations \<le> 0 then 10 else nat maxIterations) \<and>
   toolResultIDs (conversation (ProcessWithTools chat registry userMessage maxIterations w)) =
     concat (map callIDs (filter continues
       (responses (ProcessWithTools chat registry userMessage maxIterations w)))) \<and>
   map fst (executions (ProcessWithTools chat registry userMessage maxIterations w)) =
     concat (map (\<lambda>r. functionCalls (Output r)) (filter continues
       (responses (ProcessWithTools chat registry userMessage maxIterations w)))) \<and>
   toolResults (conversation (ProcessWithTools chat registry userMessage maxIterations w)) =
     map (\<lambda>(fc, out). toolResult fc out)
       (executions (ProcessWithTools chat registry userMessage maxIterations w)) \<and>
   (chat [InputMessage ''user'' userMessage] w = (Inr resp, w1) \<and> \<not> continues resp \<longrightarrow>
      executions (ProcessWithTools chat registry userMessage maxIterations w) = [] \<and>
      world (ProcessWithTools chat registry userMessage maxIterations w) = w1) \<and>
   (length (responses (ProcessWithTools chat registry userMessage maxIterations w)) =
      (if maxIterations \<le> 0 then 10 else nat maxIterations) \<and>
    list_all continues (responses (ProcessWithTools chat registry userMessage maxIterations w))
    \<longrightarrow> result (ProcessWithTools chat registry userMessage maxIterations w) =
          Inl ''max iterations reached without completion'') \<and>
   model_calls (ProcessWithTools_CC chatCC registry userMessage maxIterations w)
     \<le> (if maxIterations \<le> 0 then 10 else nat maxIterations) \<and>
   toolMessageIDs (conversation (ProcessWithTools_CC chatCC registry userMessage maxIterations w)) =
     concat (map (\<lambda>r. map tc_ID (cr_ToolCalls r)) (filter continuesCC
       (responses (ProcessWithTools_CC chatCC registry userMessage maxIterations w)))) \<and>
   map fst (executions (ProcessWithTools_CC chatCC registry userMessage maxIterations w)) =
     concat (map cr_ToolCalls (filter continuesCC
       (responses (ProcessWithTools_CC chatCC registry userMessage maxIterations w)))) \<and>
   toolMessages (conversation (ProcessWithTools_CC chatCC registry userMessage maxIterations w)) =
     map (\<lambda>(tc, out). toolMessage tc out)
       (executions (ProcessWithTools_CC chatCC registry userMessage maxIterations w)) \<and>
   (chatCC [PlainMessage \<lparr>m_Role = ''user'', m_Content = userMessage,
                          ToolCallID = [], ToolCalls = []\<rparr>] w = (Inr respCC, w1') \<and>
    \<not> continuesCC respCC \<longrightarrow>
      executions (ProcessWithTools_CC chatCC registry userMessage maxIterations w) = [] \<and>
      world (ProcessWithTools_CC chatCC registry userMessage maxIterations w) = w1') \<and>
   (length (responses (ProcessWithTools_CC chatCC registry userMessage maxIterations w)) =
      (if maxIterations \<le> 0 then 10 else nat maxIterations) \<and>
    list_all continuesCC
      (responses (ProcessWithTools_CC chatCC registry userMessage maxIterations w))
    \<longrightarrow> result (ProcessWithTools_CC chatCC registry userMessage maxIterations w) =
          Inl ''max iterations reached without completion'') \<and>
   (result (ProcessWithTools chat registry userMessage maxIterations w) = Inr t \<longrightarrow>
      (\<exists>rs last_resp.
         responses (ProcessWithTools chat registry userMessage maxIterations w) =
           rs @ [last_resp] \<and>
         \<not> continues last_resp \<and> t = finalText last_resp \<and>
         map fst (executions (ProcessWithTools chat registry userMessage maxIterations w)) =
           concat (map (\<lambda>r. functionCalls (Output r)) rs))) \<and>
   (result (ProcessWithTools_CC chatCC registry userMessage maxIterations w) = Inr tCC \<longrightarrow>
      (\<exists>rs last_resp.
         responses (ProcessWithTools_CC chatCC registry userMessage maxIterations w) =
           rs @ [last_resp] \<and>
         \<not> continuesCC last_resp \<and> tCC = m_Content (cr_Message last_resp) \<and>
         map fst (executions (ProcessWithTools_CC chatCC registry userMessage maxIterations w)) =
           concat (map cr_ToolCalls rs)))"
proof -
  let ?N = "if maxIterations \<le> 0 then 10 else nat maxIterations"
  let ?R = "ProcessWithTools chat registry userMessage maxIterations w"
  let ?R' = "ProcessWithTools_CC chatCC registry userMessage maxIterations w"
  let ?u = "[InputMessage ''user'' userMessage]"
  let ?m0 = "[PlainMessage \<lparr>m_Role = ''user'', m_Content = userMessage,
                       ToolCallID = [], ToolCalls = []\<rparr>]"
  have N: "effectiveMax maxIterations = ?N" by (simp add: effectiveMax_def)
  obtain m where m: "effectiveMax maxIterations = Suc m" using effectiveMax_Suc by blast
  from toolLoop_trace[of chat registry ?N ?u "[]" "[]" 0 w]
  have a: "model_calls ?R \<le> ?N"
    and b: "toolResultIDs (conversation ?R) =
              concat (map callIDs (filter continues (responses ?R)))"
    and c: "map fst (executions ?R) =
              concat (map (\<lambda>r. functionCalls (Output r)) (filter continues (responses ?R)))"
    and d: "toolResults (conversation ?R) = map (\<lambda>(fc, out). toolResult fc out) (executions ?R)"
    and e: "length (responses ?R) = ?N \<and> list_all continues (responses ?R)
            \<longrightarrow> result ?R = Inl ''max iterations reached without completion''"
    unfolding ProcessWithTools_def N max_iterations_error_def by auto
  have f: "executions ?R = [] \<and> world ?R = w1"
    if "chat ?u w = (Inr resp, w1) \<and> \<not> continues resp"
  proof -
    have "toolLoop chat registry (Suc m) ?u [] [] 0 w =
           \<lparr>result = Inr (finalText resp), conversation = ?u, responses = [] @ [resp],
            executions = [], model_calls = Suc 0, world = w1\<rparr>"
      by (rule toolLoop_final) (use that in simp_all)
    then show ?thesis by (simp add: ProcessWithTools_def m)
  qed
  from toolLoopCC_trace[of chatCC registry ?N ?m0 "[]" "[]" 0 w]
  have a': "model_calls ?R' \<le> ?N"
    and b': "toolMessageIDs (conversation ?R') =
               concat (map (\<lambda>r. map tc_ID (cr_ToolCalls r)) (filter continuesCC (responses ?R')))"
    and c': "map fst (executions ?R') =
               concat (map cr_ToolCalls (filter continuesCC (responses ?R')))"
    and d': "toolMessages (conversation ?R') =
               map (\<lambda>(tc, out). toolMessage tc out) (executions ?R')"
    and e': "length (responses ?R') = ?N \<and> list_all continuesCC (responses ?R')
             \<longrightarrow> result ?R' = Inl ''max iterations reached without completion''"
    unfolding ProcessWithTools_CC_def N max_iterations_error_def by auto
  have f': "executions ?R' = [] \<and> world ?R' = w1'"
    if "chatCC ?m0 w = (Inr respCC, w1') \<and> \<not> continuesCC respCC"
  proof -
    have "toolLoopCC chatCC registry (Suc m) ?m0 [] [] 0 w =
           \<lparr>result = Inr (m_Content (cr_Message respCC)),
            conversation = ?m0 @ [PlainMessage (cr_Message respCC)],
            responses = [] @ [respCC], executions = [],
            model_calls = Suc 0, world = w1'\<rparr>"
      by (rule toolLoopCC_final) (use that in simp_all)
    then show ?thesis by (simp add: ProcessWithTools_CC_def m)
  qed
  have g: "\<exists>rs last_resp. responses ?R = rs @ [last_resp] \<and> \<not> continues last_resp \<and>
             t = finalText last_resp \<and>
             map fst (executions ?R) = concat (map (\<lambda>r. functionCalls (Output r)) rs)"
    if "result ?R = Inr t"
  proof -
    from toolLoop_success[of chat registry ?N ?u "[]" "[]" 0 w t] that
    obtain new last_resp where n: "responses ?R = new @ [last_resp]" "list_all continues new"
      "\<not> continues last_resp" "t = finalText last_resp"
      unfolding ProcessWithTools_def N by auto
    have fl: "filter continues (responses ?R) = new"
      unfolding n(1) using n(2,3) by (simp add: list_all_iff)
    have "map fst (executions ?R) = concat (map (\<lambda>r. functionCalls (Output r)) new)"
      using c unfolding fl .
    with n show ?thesis by blast
  qed
  have g': "\<exists>rs last_resp. responses ?R' = rs @ [last_resp] \<and> \<not> continuesCC last_resp \<and>
             tCC = m_Content (cr_Message last_resp) \<and>
             map fst (executions ?R') = concat (map cr_ToolCalls rs)"
    if "result ?R' = Inr tCC"
  proof -
    from toolLoopCC_success[of chatCC registry ?N ?m0 "[]" "[]" 0 w tCC] that
    obtain new last_resp where n: "responses ?R' = new @ [last_resp]" "list_all continuesCC new"
      "\<not> continuesCC last_resp" "tCC = m_Content (cr_Message last_resp)"
      unfolding ProcessWithTools_CC_def N by auto
    have fl: "filter continuesCC (responses ?R') = new"
      unfolding n(1) using n(2,3) by (simp add: list_all_iff)
    have "map fst (executions ?R') = concat (map cr_ToolCalls new)"
      using c' unfolding fl .
    with n show ?thesis by blast
  qed
  from a b c d e f a' b' c' d' e' f' g g' show ?thesis by blast
qed

theorem ProcessWithTools_bounded_witness:
  "length (responses (ProcessWithTools chat_always_calls example_registry ''hi'' 2 0)) = 2 \<and>
   list_all continues (responses (ProcessWithTools chat_always_calls example_registry ''hi'' 2 0)) \<and>
   length (responses (ProcessWithTools_CC chatCC_always_calls example_registry ''hi'' 2 0)) = 2 \<and>
   list_all continuesCC
     (responses (ProcessWithTools_CC chatCC_always_calls example_registry ''hi'' 2 0)) \<and>
   result (ProcessWithTools chat_always_calls example_registry ''hi'' 2 0) =
     Inl ''max iterations reached without completion'' \<and>
   result (ProcessWithTools_CC chatCC_always_calls example_registry ''hi'' 2 0) =
     Inl ''max iterations reached without completion'' \<and>
   toolResultIDs (conversation (ProcessWithTools chat_always_calls example_registry ''hi'' 2 0)) =
     [''call_1'', ''call_1''] \<and>
   world (ProcessWithTools chat_always_calls example_registry ''hi'' 2 0) = 2 \<and>
   chat_text_and_call [InputMessage ''user'' ''hi''] 0 = (Inr text_and_call, 0) \<and>
   \<not> continues text_and_call \<and>
   executions (ProcessWithTools chat_text_and_call example_registry ''hi'' 2 0) = [] \<and>
   world (ProcessWithTools chat_text_and_call example_registry ''hi'' 2 0) = 0 \<and>
   chatCC_stop_with_call [PlainMessage \<lparr>m_Role = ''user'', m_Content = ''hi'',
                                         ToolCallID = [], ToolCalls = []\<rparr>] 0 =
     (Inr stop_with_call, 0) \<and>
   \<not> continuesCC stop_with_call \<and>
   executions (ProcessWithTools_CC chatCC_stop_with_call example_registry ''hi'' 2 0) = [] \<and>
   world (ProcessWithTools_CC chatCC_stop_with_call example_registry ''hi'' 2 0) = 0 \<and>
   result (ProcessWithTools chat_text_and_call example_registry ''hi'' 2 0) =
     Inr ''Looking it up.'' \<and>
   result (ProcessWithTools_CC chatCC_stop_with_call example_registry ''hi'' 2 0) =
     Inr ''Looking it up.'' \<and>
   (\<exists>rs last_resp.
      responses (ProcessWithTools chat_text_and_call example_registry ''hi'' 2 0) =
        rs @ [last_resp] \<and>
      \<not> continues last_resp \<and> ''Looking it up.'' = finalText last_resp \<and>
      map fst (executions (ProcessWithTools chat_text_and_call example_registry ''hi'' 2 0)) =
        concat (map (\<lambda>r. functionCalls (Output r)) rs)) \<and>
   (\<exists>rs last_resp.
      responses (ProcessWithTools_CC chatCC_stop_with_call example_registry ''hi'' 2 0) =
        rs @ [last_resp] \<and>
      \<not> continuesCC last_resp \<and> ''Looking it up.'' = m_Content (cr_Message last_resp) \<and>
      map fst (executions (ProcessWithTools_CC chatCC_stop_with_call example_registry ''hi'' 2 0)) =
        concat (map cr_ToolCalls rs))"
proof -
  have h1: "length (responses (ProcessWithTools chat_always_calls example_registry ''hi'' 2 0)) = 2"
    by (simp add: ProcessWithTools_def effectiveMax_def numeral_eq_Suc functionCalls_def
        llm_examples)
  have h2: "list_all continues
      (responses (ProcessWithTools chat_always_calls example_registry ''hi'' 2 0))"
    by (simp add: ProcessWithTools_def effectiveMax_def numeral_eq_Suc functionCalls_def
        continues_def llm_examples)
  have h3: "length (responses (ProcessWithTools_CC chatCC_always_calls example_registry ''hi'' 2 0)) = 2"
    by (simp add: ProcessWithTools_CC_def effectiveMax_def numeral_eq_Suc llm_examples)
  have h4: "list_all continuesCC
      (responses (ProcessWithTools_CC chatCC_always_calls example_registry ''hi'' 2 0))"
    by (simp add: ProcessWithTools_CC_def effectiveMax_def numeral_eq_Suc continuesCC_def
        llm_examples)
  have ids: "concat (map callIDs (filter continues
       (responses (ProcessWithTools chat_always_calls example_registry ''hi'' 2 0)))) =
       [''call_1'', ''call_1'']"
    by (simp add: ProcessWithTools_def effectiveMax_def numeral_eq_Suc functionCalls_def
        continues_def callIDs_def llm_examples)
  have wl: "world (ProcessWithTools chat_always_calls example_registry ''hi'' 2 0) = 2"
    by (simp add: ProcessWithTools_def effectiveMax_def numeral_eq_Suc functionCalls_def
        llm_examples)
  note T1 = ProcessWithTools_bounded [where chat = chat_always_calls
      and registry = example_registry and userMessage = "''hi''" and maxIterations = 2
      and w = 0 and chatCC = chatCC_always_calls]
  from T1 h1 h2 have r1: "result (ProcessWithTools chat_always_calls example_registry ''hi'' 2 0) =
     Inl ''max iterations reached without completion''" by simp
  from T1 h3 h4 have r2:
    "result (ProcessWithTools_CC chatCC_always_calls example_registry ''hi'' 2 0) =
     Inl ''max iterations reached without completion''" by simp
  from T1 ids have r3:
    "toolResultIDs (conversation (ProcessWithTools chat_always_calls example_registry ''hi'' 2 0)) =
     [''call_1'', ''call_1'']" by simp
  have g1: "chat_text_and_call [InputMessage ''user'' ''hi''] 0 = (Inr text_and_call, 0)"
    by (simp add: chat_text_and_call_def)
  have g2: "\<not> continues text_and_call"
    by (simp add: continues_def text_and_call_def text_item_def call_item_def)
  have g3: "chatCC_stop_with_call [PlainMessage \<lparr>m_Role = ''user'', m_Content = ''hi'',
                                         ToolCallID = [], ToolCalls = []\<rparr>] 0 =
     (Inr stop_with_call, 0)"
    by (simp add: chatCC_stop_with_call_def)
  have g4: "\<not> continuesCC stop_with_call"
    by (simp add: continuesCC_def stop_with_call_def)
  note T2 = ProcessWithTools_bounded [where chat = chat_text_and_call
      and registry = example_registry and userMessage = "''hi''" and maxIterations = 2
      and w = 0 and resp = text_and_call and ?w1.0 = 0 and chatCC = chatCC_stop_with_call
      and respCC = stop_with_call and w1' = 0
      and t = "''Looking it up.''" and tCC = "''Looking it up.''"]
  have t1: "result (ProcessWithTools chat_text_and_call example_registry ''hi'' 2 0) =
     Inr ''Looking it up.''"
    by (simp add: ProcessWithTools_def effectiveMax_def numeral_eq_Suc functionCalls_def
        llm_examples)
  have t2: "result (ProcessWithTools_CC chatCC_stop_with_call example_registry ''hi'' 2 0) =
     Inr ''Looking it up.''"
    by (simp add: ProcessWithTools_CC_def effectiveMax_def numeral_eq_Suc llm_examples)
  from T2 t1 have t3: "\<exists>rs last_resp.
      responses (ProcessWithTools chat_text_and_call example_registry ''hi'' 2 0) =
        rs @ [last_resp] \<and>
      \<not> continues last_resp \<and> ''Looking it up.'' = finalText last_resp \<and>
      map fst (executions (ProcessWithTools chat_text_and_call example_registry ''hi'' 2 0)) =
        concat (map (\<lambda>r. functionCalls (Output r)) rs)"
    by blast
  from T2 t2 have t4: "\<exists>rs last_resp.
      responses (ProcessWithTools_CC chatCC_stop_with_call example_registry ''hi'' 2 0) =
        rs @ [last_resp] \<and>
      \<not> continuesCC last_resp \<and> ''Looking it up.'' = m_Content (cr_Message last_resp) \<and>
      map fst (executions (ProcessWithTools_CC chatCC_stop_with_call example_registry ''hi'' 2 0)) =
        concat (map cr_ToolCalls rs)"
    by blast
  from T2 g1 g2 have e1:
    "executions (ProcessWithTools chat_text_and_call example_registry ''hi'' 2 0) = []"
    and e2: "world (ProcessWithTools chat_text_and_call example_registry ''hi'' 2 0) = 0"
    by blast+
  from T2 g3 g4 have e3:
    "executions (ProcessWithTools_CC chatCC_stop_with_call example_registry ''hi'' 2 0) = []"
    and e4: "world (ProcessWithTools_CC chatCC_stop_with_call example_registry ''hi'' 2 0) = 0"
    by blast+
  from h1 h2 h3 h4 r1 r2 r3 wl g1 g2 e1 e2 g3 g4 e3 e4 t1 t2 t3 t4 show ?thesis
    by (intro conjI)
qed

section \<open>The LLM tool-use loop: tool errors\<close>

text \<open>
  The loop computes an outcome that the relation \<open>tool_use\<close> allows, and the relation
  allows one outcome only.
\<close>

lemma toolLoop_tool_use:
  "tool_use chat registry n input w
     (result (toolLoop chat registry n input resps execs calls w))
     (conversation (toolLoop chat registry n input resps execs calls w))
     (world (toolLoop chat registry n input resps execs calls w))"
proof (induction n arbitrary: input resps execs calls w)
  case 0
  show ?case by (simp add: max_iterations_error_def tool_use_exhausted)
next
  case (Suc n)
  obtain c w' where c: "chat input w = (c, w')" by (cases "chat input w")
  show ?case
  proof (cases c)
    case (Inl err)
    have st: "toolLoop chat registry (Suc n) input resps execs calls w =
           \<lparr>result = Inl err, conversation = input, responses = resps,
            executions = execs, model_calls = Suc calls, world = w'\<rparr>"
      by (rule toolLoop_model_error) (simp add: c Inl)
    have "tool_use chat registry (Suc n) input w (Inl err) input w'"
      by (rule tool_use_model_error) (simp add: c Inl)
    then show ?thesis unfolding st by simp
  next
    case (Inr resp)
    have ch: "chat input w = (Inr resp, w')" by (simp add: c Inr)
    show ?thesis
    proof (cases "continues resp")
      case False
      have st: "toolLoop chat registry (Suc n) input resps execs calls w =
           \<lparr>result = Inr (finalText resp), conversation = input, responses = resps @ [resp],
            executions = execs, model_calls = Suc calls, world = w'\<rparr>"
        by (rule toolLoop_final[where chat = chat and input = input and w = w, OF ch False])
      have "tool_use chat registry (Suc n) input w (Inr (finalText resp)) input w'"
        by (rule tool_use_final[where chat = chat and input = input and w = w, OF ch False])
      then show ?thesis unfolding st by simp
    next
      case True
      let ?fcs = "functionCalls (Output resp)"
      obtain input' execs' w'' where e:
        "executeCalls registry ?fcs input execs w' = (input', execs', w'')"
        by (cases "executeCalls registry ?fcs input execs w'") auto
      from executeCalls_executes[of ?fcs registry w' input execs] e obtain outs where o:
        "executes registry ?fcs w' outs w''" "input' = input @ map2 toolResult ?fcs outs"
        by auto
      have st: "toolLoop chat registry (Suc n) input resps execs calls w =
                toolLoop chat registry n input' (resps @ [resp]) execs' (Suc calls) w''"
        by (rule toolLoop_continue[where chat = chat and input = input and w = w, OF ch True e])
      have "tool_use chat registry n (input @ map2 toolResult ?fcs outs) w''
              (result (toolLoop chat registry n input' (resps @ [resp]) execs' (Suc calls) w''))
              (conversation (toolLoop chat registry n input' (resps @ [resp]) execs' (Suc calls) w''))
              (world (toolLoop chat registry n input' (resps @ [resp]) execs' (Suc calls) w''))"
        using Suc.IH[of input' w'' "resps @ [resp]" execs' "Suc calls"] o(2) by simp
      from tool_use_calls[where chat = chat and input = input and w = w, OF ch True o(1) this] show ?thesis unfolding st .
    qed
  qed
qed

lemma tool_use_toolLoop:
  "tool_use chat registry n input w r input' w' \<Longrightarrow>
     result (toolLoop chat registry n input resps execs calls w) = r \<and>
     conversation (toolLoop chat registry n input resps execs calls w) = input' \<and>
     world (toolLoop chat registry n input resps execs calls w) = w'"
proof (induction arbitrary: resps execs calls rule: tool_use.induct)
  case (tool_use_exhausted input w)
  show ?case by (simp add: max_iterations_error_def)
next
  case (tool_use_model_error input w err w' n)
  show ?case unfolding toolLoop_model_error[where chat = chat and input = input and w = w, OF tool_use_model_error.hyps] by simp
next
  case (tool_use_final input w resp w' n)
  show ?case unfolding toolLoop_final[where chat = chat and input = input and w = w, OF tool_use_final.hyps] by simp
next
  case (tool_use_calls input w resp w1 outs w2 n r input' w')
  let ?fcs = "functionCalls (Output resp)"
  have e: "executeCalls registry ?fcs input execs w1 =
           (input @ map2 toolResult ?fcs outs, execs @ zip ?fcs outs, w2)"
    by (rule executes_executeCalls[OF tool_use_calls.hyps(3)])
  show ?case
    unfolding toolLoop_continue[where chat = chat and input = input and w = w, OF tool_use_calls.hyps(1) tool_use_calls.hyps(2) e]
    by (rule tool_use_calls.IH)
qed

lemma executes_append:
  "executes registry pre w outs1 w1 \<Longrightarrow> executes registry post w1 outs2 w2 \<Longrightarrow>
     executes registry (pre @ post) w (outs1 @ outs2) w2"
  by (induction rule: executes.induct) (auto intro: executes.intros)

lemma toolLoop_error:
  "result (toolLoop chat registry n input resps execs calls w) = Inl e \<Longrightarrow>
     e = ''max iterations reached without completion'' \<or> (\<exists>inp wc. fst (chat inp wc) = Inl e)"
proof (induction n arbitrary: input resps execs calls w)
  case 0
  then show ?case by (simp add: max_iterations_error_def)
next
  case (Suc n)
  obtain c w' where c: "chat input w = (c, w')" by (cases "chat input w")
  show ?case
  proof (cases c)
    case (Inl err)
    have "toolLoop chat registry (Suc n) input resps execs calls w =
           \<lparr>result = Inl err, conversation = input, responses = resps,
            executions = execs, model_calls = Suc calls, world = w'\<rparr>"
      by (rule toolLoop_model_error) (simp add: c Inl)
    with Suc.prems have "err = e" by simp
    then have "fst (chat input w) = Inl e" by (simp add: c Inl)
    then show ?thesis by blast
  next
    case (Inr resp)
    have ch: "chat input w = (Inr resp, w')" by (simp add: c Inr)
    show ?thesis
    proof (cases "continues resp")
      case False
      from Suc.prems show ?thesis unfolding toolLoop_final[where chat = chat and input = input and w = w, OF ch False] by simp
    next
      case True
      obtain input' execs' w'' where e:
        "executeCalls registry (functionCalls (Output resp)) input execs w' = (input', execs', w'')"
        by (cases "executeCalls registry (functionCalls (Output resp)) input execs w'") auto
      from Suc.prems show ?thesis
        unfolding toolLoop_continue[where chat = chat and input = input and w = w, OF ch True e] by (rule Suc.IH)
    qed
  qed
qed

text \<open>
  Claim C3. A tool call that returns an error, the lookup of an unknown tool name
  included, is answered with a tool result whose content is the envelope
  \<open>{success: false, error: <msg>}\<close>, the loop goes on to the next tool call and to
  the next model iteration, and the error by itself never makes \<open>ProcessWithTools\<close>
  fail.

  The first conjunct characterises the whole run: the result, the final conversation
  and the final world of \<open>ProcessWithTools\<close> are the one outcome that \<open>tool_use\<close>
  allows, a relation in which every tool call of a response that does not end the loop
  is executed in order, whatever the calls before it returned, each call is answered
  by \<open>toolResult\<close>, and the model is asked again on the extended conversation.

  The second conjunct is the run the claim describes. The first response asks for the
  calls \<open>pre @ fc # post\<close>; the call \<open>fc\<close> names an unknown tool, or its tool
  returns the error \<open>err\<close>; then the calls \<open>post\<close> are executed from the world
  \<open>fc\<close> left, the model is called a second time on the conversation that holds the
  envelope for \<open>fc\<close> between the results of \<open>pre\<close> and \<open>post\<close>, and the text of
  its answer is the result of \<open>ProcessWithTools\<close>.

  The third conjunct: an error returned by \<open>ProcessWithTools\<close> is the iteration limit
  or an error returned by a model call.
\<close>

theorem tool_errors_are_observations:
  "(tool_use chat registry (if maxIterations \<le> 0 then 10 else nat maxIterations)
      [InputMessage ''user'' userMessage] w r input' w' \<longleftrightarrow>
    r = result (ProcessWithTools chat registry userMessage maxIterations w) \<and>
    input' = conversation (ProcessWithTools chat registry userMessage maxIterations w) \<and>
    w' = world (ProcessWithTools chat registry userMessage maxIterations w)) \<and>
   (chat [InputMessage ''user'' userMessage] w = (Inr resp, w_model) \<and> continues resp \<and>
    functionCalls (Output resp) = pre @ fc # post \<and>
    executes registry pre w_model outs_pre w_pre \<and>
    (registry (oi_Name fc) = None \<and> err = ''unknown tool: '' @ oi_Name fc \<and> w_fc = w_pre \<or>
     (\<exists>tool. registry (oi_Name fc) = Some tool \<and>
             tool w_pre (Arguments fc) = (Inl err, w_fc))) \<and>
    executes registry post w_fc outs_post w_post \<and>
    (maxIterations \<le> 0 \<or> 2 \<le> maxIterations) \<and>
    chat ([InputMessage ''user'' userMessage] @ map2 toolResult pre outs_pre @
          [FunctionCallOutput (CallID fc)
             (Marshal \<lparr>Success = False, tr_Data = None, Error = err\<rparr>)] @
          map2 toolResult post outs_post) w_post = (Inr final, w_final) \<and>
    \<not> continues final
    \<longrightarrow>
      result (ProcessWithTools chat registry userMessage maxIterations w) =
        Inr (finalText final) \<and>
      conversation (ProcessWithTools chat registry userMessage maxIterations w) =
        [InputMessage ''user'' userMessage] @ map2 toolResult pre outs_pre @
        [FunctionCallOutput (CallID fc)
           (Marshal \<lparr>Success = False, tr_Data = None, Error = err\<rparr>)] @
        map2 toolResult post outs_post \<and>
      executions (ProcessWithTools chat registry userMessage maxIterations w) =
        zip pre outs_pre @ (fc, Inl err) # zip post outs_post \<and>
      model_calls (ProcessWithTools chat registry userMessage maxIterations w) = 2 \<and>
      world (ProcessWithTools chat registry userMessage maxIterations w) = w_final) \<and>
   (result (ProcessWithTools chat registry userMessage maxIterations w) = Inl e \<longrightarrow>
      e = ''max iterations reached without completion'' \<or>
      (\<exists>inp wc. fst (chat inp wc) = Inl e))"
proof -
  let ?N = "if maxIterations \<le> 0 then 10 else nat maxIterations"
  let ?R = "ProcessWithTools chat registry userMessage maxIterations w"
  let ?u = "[InputMessage ''user'' userMessage]"
  let ?envelope = "FunctionCallOutput (CallID fc)
                     (Marshal \<lparr>Success = False, tr_Data = None, Error = err\<rparr>)"
  have N: "effectiveMax maxIterations = ?N" by (simp add: effectiveMax_def)
  have R: "?R = toolLoop chat registry ?N ?u [] [] 0 w"
    by (simp add: ProcessWithTools_def effectiveMax_def)
  have c1: "tool_use chat registry ?N ?u w r input' w' \<longleftrightarrow>
            r = result ?R \<and> input' = conversation ?R \<and> w' = world ?R"
  proof
    assume "tool_use chat registry ?N ?u w r input' w'"
    from tool_use_toolLoop[OF this, of "[]" "[]" 0] show
      "r = result ?R \<and> input' = conversation ?R \<and> w' = world ?R"
      unfolding R by simp
  next
    assume "r = result ?R \<and> input' = conversation ?R \<and> w' = world ?R"
    then show "tool_use chat registry ?N ?u w r input' w'"
      unfolding R using toolLoop_tool_use[of chat registry ?N ?u w "[]" "[]" 0] by simp
  qed
  have c2: "result ?R = Inr (finalText final) \<and>
            conversation ?R = ?u @ map2 toolResult pre outs_pre @ [?envelope] @
                              map2 toolResult post outs_post \<and>
            executions ?R = zip pre outs_pre @ (fc, Inl err) # zip post outs_post \<and>
            model_calls ?R = 2 \<and> world ?R = w_final"
    if ch: "chat ?u w = (Inr resp, w_model)" and cont: "continues resp"
      and fcs: "functionCalls (Output resp) = pre @ fc # post"
      and pre: "executes registry pre w_model outs_pre w_pre"
      and fc: "registry (oi_Name fc) = None \<and> err = ''unknown tool: '' @ oi_Name fc \<and> w_fc = w_pre \<or>
               (\<exists>tool. registry (oi_Name fc) = Some tool \<and>
                       tool w_pre (Arguments fc) = (Inl err, w_fc))"
      and post: "executes registry post w_fc outs_post w_post"
      and mx: "maxIterations \<le> 0 \<or> 2 \<le> maxIterations"
      and ch2: "chat (?u @ map2 toolResult pre outs_pre @ [?envelope] @
                      map2 toolResult post outs_post) w_post = (Inr final, w_final)"
      and fin: "\<not> continues final"
  proof -
    let ?conv = "?u @ map2 toolResult pre outs_pre @ [?envelope] @ map2 toolResult post outs_post"
    let ?execs = "zip pre outs_pre @ (fc, Inl err) # zip post outs_post"
    have "2 \<le> ?N" using mx by auto
    then have "?N = Suc (Suc (?N - 2))" by arith
    then obtain m where m: "?N = Suc (Suc m)" ..
    from fc have ex: "Registry_Execute registry (oi_Name fc) (Arguments fc) w_pre = (Inl err, w_fc)"
      by (auto simp: Registry_Execute_def)
    have "executes registry (fc # post) w_pre (Inl err # outs_post) w_post"
      by (rule executes_call[OF ex post])
    from executes_append[OF pre this]
    have all: "executes registry (pre @ fc # post) w_model (outs_pre @ Inl err # outs_post) w_post" .
    have len: "length pre = length outs_pre" using executes_length[OF pre] by simp
    have z: "zip (pre @ fc # post) (outs_pre @ Inl err # outs_post) = ?execs"
      using len by simp
    have env: "toolResult fc (Inl err) = ?envelope" by (simp add: toolResult_def)
    have mp: "map2 toolResult (pre @ fc # post) (outs_pre @ Inl err # outs_post) =
              map2 toolResult pre outs_pre @ [?envelope] @ map2 toolResult post outs_post"
      unfolding z by (simp add: env)
    have e: "executeCalls registry (functionCalls (Output resp)) ?u [] w_model =
             (?conv, ?execs, w_post)"
      unfolding fcs executes_executeCalls[OF all, of ?u "[]"] mp z by (simp add: env)
    have s1: "toolLoop chat registry (Suc (Suc m)) ?u [] [] 0 w =
              toolLoop chat registry (Suc m) ?conv ([] @ [resp]) ?execs (Suc 0) w_post"
      by (rule toolLoop_continue[where chat = chat and input = ?u and w = w, OF ch cont e])
    have s2: "toolLoop chat registry (Suc m) ?conv ([] @ [resp]) ?execs (Suc 0) w_post =
           \<lparr>result = Inr (finalText final), conversation = ?conv,
            responses = ([] @ [resp]) @ [final], executions = ?execs,
            model_calls = Suc (Suc 0), world = w_final\<rparr>"
      by (rule toolLoop_final[where chat = chat and input = ?conv and w = w_post, OF ch2 fin])
    show ?thesis unfolding R m s1 s2 by simp
  qed
  have c3: "e = ''max iterations reached without completion'' \<or>
            (\<exists>inp wc. fst (chat inp wc) = Inl e)"
    if "result ?R = Inl e"
    using that unfolding R by (rule toolLoop_error)
  from c1 c2 c3 show ?thesis by blast
qed

theorem tool_errors_are_observations_witness:
  "chat_two_steps [InputMessage ''user'' ''hi''] 0 = (Inr three_calls, 0) \<and>
   continues three_calls \<and>
   functionCalls (Output three_calls) =
     [] @ call_item ''call_1'' ''missing'' #
       [call_item ''call_2'' ''lookup'', call_item ''call_3'' ''echo''] \<and>
   example_registry ''missing'' = None \<and>
   example_registry ''lookup'' = Some failing_lookup \<and>
   failing_lookup 0 ''{}'' = (Inl ''timeout'', 1) \<and>
   executes example_registry [call_item ''call_1'' ''missing''] 0
     [Inl ''unknown tool: missing''] 0 \<and>
   executes example_registry [call_item ''call_3'' ''echo''] 1 [Inr (RawBytes ''{}'')] 2 \<and>
   executes example_registry [call_item ''call_2'' ''lookup'', call_item ''call_3'' ''echo''] 0
     [Inl ''timeout'', Inr (RawBytes ''{}'')] 2 \<and>
   chat_two_steps
     [InputMessage ''user'' ''hi'',
      FunctionCallOutput ''call_1''
        (Marshal \<lparr>Success = False, tr_Data = None, Error = ''unknown tool: missing''\<rparr>),
      FunctionCallOutput ''call_2''
        (Marshal \<lparr>Success = False, tr_Data = None, Error = ''timeout''\<rparr>),
      FunctionCallOutput ''call_3'' (RawBytes ''{}'')] 2 = (Inr done_response, 2) \<and>
   \<not> continues done_response \<and>
   result (ProcessWithTools chat_two_steps example_registry ''hi'' 10 0) = Inr ''Done.'' \<and>
   conversation (ProcessWithTools chat_two_steps example_registry ''hi'' 10 0) =
     [InputMessage ''user'' ''hi'',
      FunctionCallOutput ''call_1''
        (Marshal \<lparr>Success = False, tr_Data = None, Error = ''unknown tool: missing''\<rparr>),
      FunctionCallOutput ''call_2''
        (Marshal \<lparr>Success = False, tr_Data = None, Error = ''timeout''\<rparr>),
      FunctionCallOutput ''call_3'' (RawBytes ''{}'')] \<and>
   executions (ProcessWithTools chat_two_steps example_registry ''hi'' 10 0) =
     [(call_item ''call_1'' ''missing'', Inl ''unknown tool: missing''),
      (call_item ''call_2'' ''lookup'', Inl ''timeout''),
      (call_item ''call_3'' ''echo'', Inr (RawBytes ''{}''))] \<and>
   model_calls (ProcessWithTools chat_two_steps example_registry ''hi'' 10 0) = 2 \<and>
   world (ProcessWithTools chat_two_steps example_registry ''hi'' 10 0) = 2 \<and>
   tool_use chat_two_steps example_registry 10 [InputMessage ''user'' ''hi''] 0
     (Inr ''Done.'')
     [InputMessage ''user'' ''hi'',
      FunctionCallOutput ''call_1''
        (Marshal \<lparr>Success = False, tr_Data = None, Error = ''unknown tool: missing''\<rparr>),
      FunctionCallOutput ''call_2''
        (Marshal \<lparr>Success = False, tr_Data = None, Error = ''timeout''\<rparr>),
      FunctionCallOutput ''call_3'' (RawBytes ''{}'')] 2 \<and>
   result (ProcessWithTools chat_always_calls example_registry ''hi'' 1 0) =
     Inl ''max iterations reached without completion''"
proof -
  let ?c1 = "call_item ''call_1'' ''missing''"
  let ?c2 = "call_item ''call_2'' ''lookup''"
  let ?c3 = "call_item ''call_3'' ''echo''"
  let ?conv = "[InputMessage ''user'' ''hi'',
      FunctionCallOutput ''call_1''
        (Marshal \<lparr>Success = False, tr_Data = None, Error = ''unknown tool: missing''\<rparr>),
      FunctionCallOutput ''call_2''
        (Marshal \<lparr>Success = False, tr_Data = None, Error = ''timeout''\<rparr>),
      FunctionCallOutput ''call_3'' (RawBytes ''{}'')]"
  let ?R = "ProcessWithTools chat_two_steps example_registry ''hi'' 10 0"
  have h1: "chat_two_steps [InputMessage ''user'' ''hi''] 0 = (Inr three_calls, 0)"
    by (simp add: chat_two_steps_def)
  have h2: "continues three_calls"
    by (simp add: continues_def three_calls_def call_item_def functionCalls_def)
  have h3: "functionCalls (Output three_calls) = [] @ ?c1 # [?c2, ?c3]"
    by (simp add: three_calls_def call_item_def functionCalls_def)
  have h3': "functionCalls (Output three_calls) = [?c1] @ ?c2 # [?c3]"
    by (simp add: three_calls_def call_item_def functionCalls_def)
  have h4: "example_registry ''missing'' = None" by (simp add: example_registry_def)
  have h5: "example_registry ''lookup'' = Some failing_lookup"
    by (simp add: example_registry_def)
  have h6: "failing_lookup 0 ''{}'' = (Inl ''timeout'', 1)" by (simp add: failing_lookup_def)
  have x1: "Registry_Execute example_registry (oi_Name ?c1) (Arguments ?c1) 0 =
            (Inl ''unknown tool: missing'', 0)"
    by (simp add: Registry_Execute_def example_registry_def call_item_def)
  have x2: "Registry_Execute example_registry (oi_Name ?c2) (Arguments ?c2) 0 =
            (Inl ''timeout'', 1)"
    by (simp add: Registry_Execute_def example_registry_def call_item_def failing_lookup_def)
  have x3: "Registry_Execute example_registry (oi_Name ?c3) (Arguments ?c3) 1 =
            (Inr (RawBytes ''{}''), 2)"
    by (simp add: Registry_Execute_def example_registry_def call_item_def echo_def)
  have none: "executes example_registry [] (0::nat) [] 0" by (rule executes_none)
  have h7: "executes example_registry [?c1] 0 [Inl ''unknown tool: missing''] 0"
    by (rule executes_call[OF x1 executes_none])
  have h8: "executes example_registry [?c3] 1 [Inr (RawBytes ''{}'')] 2"
    by (rule executes_call[OF x3 executes_none])
  have h9: "executes example_registry [?c2, ?c3] 0 [Inl ''timeout'', Inr (RawBytes ''{}'')] 2"
    by (rule executes_call[OF x2 h8])
  have h10: "chat_two_steps ?conv 2 = (Inr done_response, 2)"
    by (simp add: chat_two_steps_def)
  have h11: "\<not> continues done_response"
    by (simp add: continues_def done_response_def text_item_def functionCalls_def)
  have ft: "finalText done_response = ''Done.''"
    by (simp add: finalText_def done_response_def text_item_def)
  note A = tool_errors_are_observations [where chat = chat_two_steps
      and registry = example_registry and userMessage = "''hi''" and maxIterations = 10
      and w = 0 and resp = three_calls and w_model = 0 and pre = "[]" and fc = ?c1
      and post = "[?c2, ?c3]" and outs_pre = "[]" and w_pre = 0
      and err = "''unknown tool: missing''" and w_fc = 0
      and outs_post = "[Inl ''timeout'', Inr (RawBytes ''{}'')]" and w_post = 2
      and final = done_response and w_final = 2
      and r = "Inr ''Done.''" and input' = ?conv and w' = 2]
  have a_hyp: "chat_two_steps ([InputMessage ''user'' ''hi''] @ map2 toolResult [] [] @
          [FunctionCallOutput (CallID ?c1)
             (Marshal \<lparr>Success = False, tr_Data = None, Error = ''unknown tool: missing''\<rparr>)] @
          map2 toolResult [?c2, ?c3] [Inl ''timeout'', Inr (RawBytes ''{}'')]) 2 =
        (Inr done_response, 2)"
    by (simp add: chat_two_steps_def)
  have a_fc: "example_registry (oi_Name ?c1) = None \<and>
              ''unknown tool: missing'' = ''unknown tool: '' @ oi_Name ?c1 \<and> (0::nat) = 0"
    by (simp add: example_registry_def call_item_def)
  from A h1 h2 h3 none a_fc h9 a_hyp h11
  have a: "result ?R = Inr (finalText done_response) \<and>
      conversation ?R =
        [InputMessage ''user'' ''hi''] @ map2 toolResult [] [] @
        [FunctionCallOutput (CallID ?c1)
           (Marshal \<lparr>Success = False, tr_Data = None, Error = ''unknown tool: missing''\<rparr>)] @
        map2 toolResult [?c2, ?c3] [Inl ''timeout'', Inr (RawBytes ''{}'')] \<and>
      executions ?R = zip [] [] @ (?c1, Inl ''unknown tool: missing'') #
                        zip [?c2, ?c3] [Inl ''timeout'', Inr (RawBytes ''{}'')] \<and>
      model_calls ?R = 2 \<and> world ?R = 2"
    by simp
  then have r1: "result ?R = Inr ''Done.''" by (simp add: ft)
  from a have r2: "conversation ?R = ?conv" by (simp add: toolResult_def call_item_def)
  from a have r3: "executions ?R =
     [(?c1, Inl ''unknown tool: missing''), (?c2, Inl ''timeout''),
      (?c3, Inr (RawBytes ''{}''))]" by simp
  from a have r4: "model_calls ?R = 2" and r5: "world ?R = 2" by simp_all
  from A r1 r2 r5 have r6:
    "tool_use chat_two_steps example_registry 10 [InputMessage ''user'' ''hi''] 0
       (Inr ''Done.'') ?conv 2" by simp
  note B = tool_errors_are_observations [where chat = chat_two_steps
      and registry = example_registry and userMessage = "''hi''" and maxIterations = 10
      and w = 0 and resp = three_calls and w_model = 0 and pre = "[?c1]" and fc = ?c2
      and post = "[?c3]" and outs_pre = "[Inl ''unknown tool: missing'']" and w_pre = 0
      and err = "''timeout''" and w_fc = 1
      and outs_post = "[Inr (RawBytes ''{}'')]" and w_post = 2
      and final = done_response and w_final = 2]
  have b_hyp: "chat_two_steps ([InputMessage ''user'' ''hi''] @
          map2 toolResult [?c1] [Inl ''unknown tool: missing''] @
          [FunctionCallOutput (CallID ?c2)
             (Marshal \<lparr>Success = False, tr_Data = None, Error = ''timeout''\<rparr>)] @
          map2 toolResult [?c3] [Inr (RawBytes ''{}'')]) 2 =
        (Inr done_response, 2)"
    by (simp add: chat_two_steps_def toolResult_def)
  have b_fc: "\<exists>tool. example_registry (oi_Name ?c2) = Some tool \<and>
                     tool 0 (Arguments ?c2) = (Inl ''timeout'', 1)"
    by (simp add: example_registry_def call_item_def failing_lookup_def)
  from B h1 h2 h3' h7 b_fc h8 b_hyp h11
  have b: "world ?R = 2 \<and> model_calls ?R = 2" by simp
  note C = tool_errors_are_observations [where chat = chat_always_calls
      and registry = example_registry and userMessage = "''hi''" and maxIterations = 1
      and w = 0 and e = "''max iterations reached without completion''"]
  have r7: "result (ProcessWithTools chat_always_calls example_registry ''hi'' 1 0) =
     Inl ''max iterations reached without completion''"
    by (simp add: ProcessWithTools_def effectiveMax_def functionCalls_def
        max_iterations_error_def llm_examples)
  from C r7 have c: "''max iterations reached without completion'' =
       ''max iterations reached without completion'' \<or>
       (\<exists>inp wc. fst (chat_always_calls inp wc) =
          Inl ''max iterations reached without completion'')" by blast
  from h1 h2 h3 h4 h5 h6 h7 h8 h9 h10 h11 r1 r2 r3 r4 r5 r6 r7 b c show ?thesis by blast
qed

section \<open>The orchestrator: the mailbox name of the stored row\<close>

lemma UpdateEmailStatus_MailboxName:
  "map e_MailboxName (emails (snd (UpdateEmailStatus s eid status now))) =
     map e_MailboxName (emails s)"
  by (simp add: UpdateEmailStatus_def Let_def comp_def)

lemma SaveAttachment_emails: "emails (snd (SaveAttachment s eid att)) = emails s"
  by (simp add: SaveAttachment_def)

lemma saveAttachments_emails: "emails (saveAttachments s eid atts) = emails s"
  by (induction atts arbitrary: s) (auto split: prod.splits dest: arg_cong[where f = snd]
      simp: SaveAttachment_def split: if_splits)

lemma SaveEmail_MailboxName:
  "SaveEmail s email = (Inr email', s') \<Longrightarrow>
     map e_MailboxName (emails s') = map e_MailboxName (emails s) @ [e_MailboxName email]"
  by (auto simp: SaveEmail_def Let_def split: if_splits)

text \<open>
  No statement that \<open>Process\<close> itself runs writes a mailbox name other than the
  empty one of the insert: if the processor it dispatches to leaves the mailbox
  names of the table alone, then after \<open>Process\<close> the rows have the names they had
  before, and the new row has the empty name.
\<close>

lemma Process_MailboxName:
  assumes "\<And>ptype eid inb cfg st.
             map e_MailboxName (emails (snd (dispatch ptype eid inb cfg st))) =
             map e_MailboxName (emails st)"
  shows "map e_MailboxName (emails (snd (Process ms rules dispatch now store inbound))) =
           map e_MailboxName (emails store) @
           (if closed store \<or> list_ex (\<lambda>row. e_MessageID row = MessageID inbound) (emails store)
            then [] else [[]])"
proof -
  let ?dbEmail = "\<lparr>e_ID = 0, e_MessageID = MessageID inbound, e_From = Address (From inbound),
             e_To = GetToAddresses inbound, e_Cc = GetCcAddresses inbound,
             e_Subject = Subject inbound, e_TextBody = TextBody inbound,
             e_HTMLBody = HTMLBody inbound, e_RawMessage = RawMessage inbound,
             e_Headers = (if Headers inbound \<noteq> Map.empty then Some (Headers inbound) else None),
             e_Attachments =
               (if Attachments inbound \<noteq> [] then
                  Some (map (\<lambda>att. \<lparr>sa_Filename = Filename att, sa_ContentType = ContentType att,
                                     sa_Size = Size att, sa_ContentID = [], sa_Data = []\<rparr>)
                          (Attachments inbound))
                else None),
             e_ReceivedAt = ReceivedAt inbound, ProcessedAt = None,
             e_MailboxName = [], e_Status = EmailStatusPending\<rparr>"
  obtain out store1 where se: "SaveEmail store ?dbEmail = (out, store1)"
    by (cases "SaveEmail store ?dbEmail")
  show ?thesis
  proof (cases out)
    case (Inl err)
    with se have "store1 = store"
      and "closed store \<or> list_ex (\<lambda>row. e_MessageID row = MessageID inbound) (emails store)"
      by (auto simp: SaveEmail_def Let_def split: if_splits)
    with se Inl show ?thesis by (simp add: Process_def Let_def)
  next
    case (Inr dbEmail1)
    with se have ok: "\<not> (closed store \<or>
        list_ex (\<lambda>row. e_MessageID row = MessageID inbound) (emails store))"
      by (auto simp: SaveEmail_def Let_def split: if_splits)
    from SaveEmail_MailboxName[OF se[unfolded Inr]]
    have m1: "map e_MailboxName (emails store1) = map e_MailboxName (emails store) @ [[]]"
      by simp
    let ?store2 = "saveAttachments store1 (e_ID dbEmail1) (Attachments inbound)"
    have m2: "map e_MailboxName (emails ?store2) = map e_MailboxName (emails store) @ [[]]"
      using m1 by (simp add: saveAttachments_emails)
    obtain uerr store3 where u:
      "UpdateEmailStatus ?store2 (e_ID dbEmail1) EmailStatusProcessing now = (uerr, store3)"
      by (cases "UpdateEmailStatus ?store2 (e_ID dbEmail1) EmailStatusProcessing now")
    have m3: "map e_MailboxName (emails store3) = map e_MailboxName (emails store) @ [[]]"
      using UpdateEmailStatus_MailboxName[of ?store2 "e_ID dbEmail1" EmailStatusProcessing now]
        u m2 by simp
    show ?thesis
    proof (cases uerr)
      case (Some err)
      with se Inr u m3 ok show ?thesis by (simp add: Process_def Let_def)
    next
      case None
      let ?rr = "Route ms rules inbound"
      let ?c = "ProcessorType ?rr = ProcessorTypeLLM
                  \<or> ProcessorType ?rr = ProcessorTypeForward
                  \<or> ProcessorType ?rr = ProcessorTypeWebhook"
      show ?thesis
      proof (cases ?c)
        case True
        obtain perr store4 where d:
          "dispatch (ProcessorType ?rr) (e_ID dbEmail1) inbound (Config ?rr) store3 = (perr, store4)"
          by (cases "dispatch (ProcessorType ?rr) (e_ID dbEmail1) inbound (Config ?rr) store3")
        have m4: "map e_MailboxName (emails store4) = map e_MailboxName (emails store) @ [[]]"
          using d m3 assms[of "ProcessorType ?rr" "e_ID dbEmail1" inbound "Config ?rr" store3]
          by simp
        have "snd (Process ms rules dispatch now store inbound) =
              snd (UpdateEmailStatus store4 (e_ID dbEmail1)
                     (if perr \<noteq> None then EmailStatusFailed else EmailStatusCompleted) now)"
          unfolding Process_def Let_def se Inr using u None d True by simp
        with m4 ok show ?thesis
          by (simp add: UpdateEmailStatus_MailboxName)
      next
        case False
        have "snd (Process ms rules dispatch now store inbound) =
              snd (UpdateEmailStatus store3 (e_ID dbEmail1) EmailStatusCompleted now)"
          unfolding Process_def Let_def se Inr using u None False by simp
        with m3 ok show ?thesis
          by (simp add: UpdateEmailStatus_MailboxName)
      qed
    qed
  qed
qed

text \<open>
  Claim C4 is not met by the code. \<open>Process\<close> stores the row before routing, with
  an empty mailbox name; after routing it sets the name in the struct only, and the
  two status updates write \<open>status\<close> and \<open>processed_at\<close>. Here an email from the
  billing address is routed to the mailbox \<open>billing\<close>; when \<open>Process\<close> has
  completed, the row's mailbox name is still empty.
\<close>

theorem Process_mailbox_name_not_persisted:
  "MailboxName (Route literal_MatchString example_rules billing_email) = ''billing'' \<and>
   fst (Process literal_MatchString example_rules no_dispatch 9 NewStore billing_email) = None \<and>
   map (\<lambda>row. (e_ID row, e_Status row, ProcessedAt row, e_MailboxName row))
     (emails (snd (Process literal_MatchString example_rules no_dispatch 9 NewStore
                     billing_email))) =
     [(1, ''completed'', Some 9, [])]"
  by (simp add: Process_def Route_def Matches_def literal_MatchString_def example_rules_def
      billing_email_def NewStore_def SaveEmail_def UpdateEmailStatus_def
      GetToAddresses_def GetCcAddresses_def Let_def
      ProcessorTypeLLM_def ProcessorTypeForward_def ProcessorTypeWebhook_def
      EmailStatusPending_def EmailStatusProcessing_def EmailStatusCompleted_def
      EmailStatusFailed_def)

section \<open>The MIME parser: which part fills the body\<close>

lemma plain_not_html: "prefix ''text/plain'' mt \<Longrightarrow> \<not> prefix ''text/html'' mt"
  by (auto simp: prefix_def)

lemma parseBody_bodies:
  "parseBody decode e email = Inr email' \<Longrightarrow>
     TextBody email' =
       (if bodyParts ''text/plain'' e = [] then TextBody email
        else last (bodyParts ''text/plain'' e)) \<and>
     HTMLBody email' =
       (if bodyParts ''text/html'' e = [] then HTMLBody email
        else last (bodyParts ''text/html'' e))"
  and parseParts_bodies:
  "parseParts decode ps perr email = Inr email' \<Longrightarrow>
     TextBody email' =
       (if concat (map (bodyParts ''text/plain'') ps) = [] then TextBody email
        else last (concat (map (bodyParts ''text/plain'') ps))) \<and>
     HTMLBody email' =
       (if concat (map (bodyParts ''text/html'') ps) = [] then HTMLBody email
        else last (concat (map (bodyParts ''text/html'') ps)))"
proof (induction decode e email and decode ps perr email arbitrary: email' and email'
    rule: parseBody_parseParts.induct)
  case (1 decode h b ps perr email)
  show ?case
  proof (cases "prefix ''multipart/'' (mediaTypeOf h)")
    case True
    with "1.prems" have "parseParts decode ps perr email = Inr email'" by simp
    from "1.IH"[OF True this] True show ?thesis by simp
  next
    case False
    with "1.prems" show ?thesis
      by (auto split: sum.splits if_splits dest: plain_not_html)
  qed
next
  case (2 decode perr email)
  then show ?case by (simp split: option.splits)
next
  case (3 decode part rest perr email)
  from "3.prems" obtain mid where m: "parseBody decode part email = Inr mid"
    and r: "parseParts decode rest perr mid = Inr email'"
    by (auto split: sum.splits)
  note a = "3.IH"(1)[OF m] and b = "3.IH"(2)[OF m r]
  show ?case
  proof
    show "TextBody email' =
       (if concat (map (bodyParts ''text/plain'') (part # rest)) = [] then TextBody email
        else last (concat (map (bodyParts ''text/plain'') (part # rest))))"
      using a b by (cases "concat (map (bodyParts ''text/plain'') rest) = []") auto
    show "HTMLBody email' =
       (if concat (map (bodyParts ''text/html'') (part # rest)) = [] then HTMLBody email
        else last (concat (map (bodyParts ''text/html'') (part # rest))))"
      using a b by (cases "concat (map (bodyParts ''text/html'') rest) = []") auto
  qed
qed

lemma parseBody_MessageID:
  "parseBody decode e email = Inr email' \<Longrightarrow> MessageID email' = MessageID email"
  and parseParts_MessageID:
  "parseParts decode ps perr email = Inr email' \<Longrightarrow> MessageID email' = MessageID email"
proof (induction decode e email and decode ps perr email arbitrary: email' and email'
    rule: parseBody_parseParts.induct)
  case (1 decode h b ps perr email)
  then show ?case by (auto split: sum.splits if_splits)
next
  case (2 decode perr email)
  then show ?case by (simp split: option.splits)
next
  case (3 decode part rest perr email)
  from "3.prems" obtain mid where m: "parseBody decode part email = Inr mid"
    and r: "parseParts decode rest perr mid = Inr email'"
    by (auto split: sum.splits)
  from "3.IH"(1)[OF m] "3.IH"(2)[OF m r] show ?case by simp
qed

lemma Parse_Inr:
  assumes "Parse lib nowReceived nowID nowDate raw = Inr email'"
    and "message_Read lib raw = Inr e"
  shows "\<exists>email. parseBody (decodeHeader lib) e email = Inr email' \<and>
           TextBody email = [] \<and> HTMLBody email = [] \<and>
           MessageID email = (if h_Get (header e) ''Message-ID'' = []
                              then generateMessageID nowID
                              else h_Get (header e) ''Message-ID'')"
  using assms
  unfolding Parse_def Let_def
  by (auto split: sum.splits)

lemmas parser_examples =
  example_lib_def two_text_parts_def text_part_def mediaTypeOf_def isAttachment_def
  filenameOf_def index_def decodeHeader_def parseAddress_def parseAddressList_def
  commonHeaders_def zeroTime_def generateMessageID_def showInt_def

lemma Parse_example:
  "Parse example_lib 1 1700000000000000000 3 ''raw'' =
     Inr \<lparr>MessageID = ''<1700000000000000000.emitt@localhost>'',
          From = \<lparr>Name = [], Address = []\<rparr>, To = [], Cc = [], Bcc = [], ReplyTo = None,
          Subject = ''Hello'', Date = 3, TextBody = ''second'', HTMLBody = [],
          Headers = Map.empty, Attachments = [], RawMessage = ''raw'', ReceivedAt = 1\<rparr>"
  by (simp add: Parse_def Let_def parser_examples)

text \<open>
  Claim C5, as stated, fails: each plain-text part that the parser meets overwrites
  the text body. A multipart message with the plain-text parts \<open>first\<close> and
  \<open>second\<close>, in this order, is parsed to an email whose text body is \<open>second\<close>.
\<close>

theorem first_part_wins_counterexample:
  "bodyParts ''text/plain'' two_text_parts = [''first'', ''second''] \<and>
   \<not> isl (Parse example_lib 1 1700000000000000000 3 ''raw'') \<and>
   TextBody (projr (Parse example_lib 1 1700000000000000000 3 ''raw'')) = ''second''"
  by (simp add: Parse_example) (simp add: parser_examples)

text \<open>
  Claim C5, amended. When the parser has walked a message, the text body is the content
  of the last part, in document order, that is not an attachment and whose media type
  begins with \<open>text/plain\<close>, and the HTML body is the content of the last such part
  for \<open>text/html\<close>; earlier parts of the same type are overwritten. A body stays
  empty when there is no part of its type.
\<close>

theorem last_part_wins:
  assumes "Parse lib nowReceived nowID nowDate raw = Inr email'"
    and "message_Read lib raw = Inr e"
  shows "TextBody email' =
           (if bodyParts ''text/plain'' e = [] then [] else last (bodyParts ''text/plain'' e)) \<and>
         HTMLBody email' =
           (if bodyParts ''text/html'' e = [] then [] else last (bodyParts ''text/html'' e))"
proof -
  from Parse_Inr[OF assms] obtain email where
    p: "parseBody (decodeHeader lib) e email = Inr email'"
    and t: "TextBody email = []" and h: "HTMLBody email = []"
    by blast
  from parseBody_bodies[OF p] t h show ?thesis by simp
qed

theorem last_part_wins_witness:
  "Parse example_lib 1 1700000000000000000 3 ''raw'' =
     Inr (projr (Parse example_lib 1 1700000000000000000 3 ''raw'')) \<and>
   message_Read example_lib ''raw'' = Inr two_text_parts \<and>
   TextBody (projr (Parse example_lib 1 1700000000000000000 3 ''raw'')) =
     (if bodyParts ''text/plain'' two_text_parts = [] then []
      else last (bodyParts ''text/plain'' two_text_parts)) \<and>
   HTMLBody (projr (Parse example_lib 1 1700000000000000000 3 ''raw'')) =
     (if bodyParts ''text/html'' two_text_parts = [] then []
      else last (bodyParts ''text/html'' two_text_parts)) \<and>
   last (bodyParts ''text/plain'' two_text_parts) = ''second''"
proof -
  have h1: "Parse example_lib 1 1700000000000000000 3 ''raw'' =
     Inr (projr (Parse example_lib 1 1700000000000000000 3 ''raw''))"
    by (simp add: Parse_example)
  have h2: "message_Read example_lib ''raw'' = Inr two_text_parts"
    by (simp add: example_lib_def)
  have l: "last (bodyParts ''text/plain'' two_text_parts) = ''second''"
    by (simp add: parser_examples)
  from last_part_wins [OF h1 h2] h1 h2 l show ?thesis by blast
qed

section \<open>The MIME parser: the synthesized message id\<close>

lemma digitValue_digit: "n < 10 \<Longrightarrow> digitValue (''0123456789'' ! n) = n"
  by (auto simp: numeral_eq_Suc less_Suc_eq digitValue_def)

lemma readNat_append: "readNat (xs @ ys) acc = readNat ys (readNat xs acc)"
  by (induction xs arbitrary: acc) simp_all

text \<open>\<open>showNat\<close> prints the decimal digits of its argument.\<close>

lemma readNat_showNat: "readNat (showNat n) 0 = n"
proof (induction n rule: showNat.induct)
  case (1 n)
  show ?case
  proof (cases "n < 10")
    case True
    then show ?thesis by (subst showNat.simps) (simp add: digitValue_digit)
  next
    case False
    have "readNat (showNat n) 0 =
            readNat (showNat (n div 10) @ [''0123456789'' ! (n mod 10)]) 0"
      using False by (subst showNat.simps) simp
    also have "\<dots> = 10 * readNat (showNat (n div 10)) 0 + digitValue (''0123456789'' ! (n mod 10))"
      by (simp add: readNat_append)
    also have "\<dots> = 10 * (n div 10) + n mod 10"
      using "1.IH"[OF False] by (simp add: digitValue_digit)
    finally show ?thesis by simp
  qed
qed

text \<open>
  Claim C9, as stated, fails: for a message without a Message-ID header, parsed when
  the clock reads 1700000000000000000 nanoseconds, the message id is
  \<open><1700000000000000000.emitt@localhost>\<close>, not \<open><1700000000000000000.local>\<close>.
\<close>

theorem message_id_format_counterexample:
  "h_Get (header two_text_parts) ''Message-ID'' = [] \<and>
   \<not> isl (Parse example_lib 1 1700000000000000000 3 ''raw'') \<and>
   MessageID (projr (Parse example_lib 1 1700000000000000000 3 ''raw'')) =
     ''<1700000000000000000.emitt@localhost>'' \<and>
   MessageID (projr (Parse example_lib 1 1700000000000000000 3 ''raw'')) \<noteq>
     ''<1700000000000000000.local>''"
  by (simp add: Parse_example) (simp add: two_text_parts_def)

text \<open>
  Claim C9, amended. When a parsed message has no Message-ID header, its message id is
  \<open><\<close>, the Unix-nanosecond reading of the clock in decimal, \<open>.emitt@localhost>\<close>.
\<close>

theorem synthesized_message_id:
  assumes "Parse lib nowReceived nowID nowDate raw = Inr email'"
    and "message_Read lib raw = Inr e"
    and "h_Get (header e) ''Message-ID'' = []"
  shows "MessageID email' = ''<'' @ showInt nowID @ ''.emitt@localhost>''"
proof -
  from Parse_Inr[OF assms(1,2)] assms(3) obtain email where
    p: "parseBody (decodeHeader lib) e email = Inr email'"
    and m: "MessageID email = generateMessageID nowID"
    by auto
  from parseBody_MessageID[OF p] m show ?thesis by (simp add: generateMessageID_def)
qed

theorem synthesized_message_id_witness:
  "Parse example_lib 1 1700000000000000000 3 ''raw'' =
     Inr (projr (Parse example_lib 1 1700000000000000000 3 ''raw'')) \<and>
   message_Read example_lib ''raw'' = Inr two_text_parts \<and>
   h_Get (header two_text_parts) ''Message-ID'' = [] \<and>
   MessageID (projr (Parse example_lib 1 1700000000000000000 3 ''raw'')) =
     ''<'' @ showInt 1700000000000000000 @ ''.emitt@localhost>'' \<and>
   showInt 1700000000000000000 = ''1700000000000000000''"
proof -
  have h1: "Parse example_lib 1 1700000000000000000 3 ''raw'' =
     Inr (projr (Parse example_lib 1 1700000000000000000 3 ''raw''))"
    by (simp add: Parse_example)
  have h2: "message_Read example_lib ''raw'' = Inr two_text_parts"
    by (simp add: example_lib_def)
  have h3: "h_Get (header two_text_parts) ''Message-ID'' = []"
    by (simp add: two_text_parts_def)
  have s: "showInt 1700000000000000000 = ''1700000000000000000''"
    by (simp add: showInt_def)
  from synthesized_message_id [OF h1 h2 h3] h1 h2 h3 s show ?thesis by blast
qed

section \<open>MCP: the pending map holds outstanding requests only\<close>

lemma conn_inv_init: "conn_inv NewServerConnection"
  by (simp add: conn_inv_def NewServerConnection_def)

lemma holdsEntry_not_returned: "holdsEntry p \<Longrightarrow> \<not> returned p"
  by (cases p) simp_all

lemma conn_inv_step:
  assumes "conn_inv s" and "step ev s = Some s'"
  shows "conn_inv s'"
proof (cases ev)
  case (Begin c)
  with assms(2) have n: "requests s c = None"
    and s': "s' = s\<lparr>reqID := reqID s + 1,
                requests := (requests s)(c \<mapsto> \<lparr>call_id = reqID s + 1, respCh = None,
                                            phase = Allocated\<rparr>)\<rparr>"
    by (auto split: option.splits)
  show ?thesis
    unfolding conn_inv_def
  proof (intro allI impI)
    fix rid c0 assume p: "pending s' rid = Some c0"
    with s' have "pending s rid = Some c0" by simp
    with assms(1) obtain call0 where c0: "requests s c0 = Some call0" "call_id call0 = rid"
      "holdsEntry (phase call0)" unfolding conn_inv_def by blast
    with n have "c0 \<noteq> c" by auto
    with c0 s' show "\<exists>call. requests s' c0 = Some call \<and> call_id call = rid \<and> holdsEntry (phase call)"
      by simp
  qed
next
  case (Register c)
  with assms(2) obtain call where c: "requests s c = Some call" "phase call = Allocated"
    and s': "s' = setPhase c call Registered (s\<lparr>pending := (pending s)(call_id call \<mapsto> c)\<rparr>)"
    by (auto split: option.splits if_splits)
  show ?thesis
    unfolding conn_inv_def
  proof (intro allI impI)
    fix rid c0 assume p: "pending s' rid = Some c0"
    show "\<exists>call. requests s' c0 = Some call \<and> call_id call = rid \<and> holdsEntry (phase call)"
    proof (cases "rid = call_id call")
      case True
      with p s' show ?thesis by (simp add: setPhase_def)
    next
      case False
      with p s' have "pending s rid = Some c0" by (simp add: setPhase_def)
      with assms(1) obtain call0 where c0: "requests s c0 = Some call0" "call_id call0 = rid"
        "holdsEntry (phase call0)" unfolding conn_inv_def by blast
      with c have "c0 \<noteq> c" by auto
      with c0 s' show ?thesis by (simp add: setPhase_def)
    qed
  qed
next
  case (MarshalFails c err)
  with assms show ?thesis
    by (fastforce simp: conn_inv_def setPhase_def split: option.splits if_splits)
next
  case (WriteFails c err)
  with assms show ?thesis
    by (fastforce simp: conn_inv_def setPhase_def split: option.splits if_splits)
next
  case (Written c)
  with assms show ?thesis
    by (fastforce simp: conn_inv_def setPhase_def split: option.splits if_splits)
next
  case (Receive c)
  with assms show ?thesis
    by (fastforce simp: conn_inv_def setPhase_def split: option.splits if_splits prod.splits)
next
  case (Cancelled c err)
  with assms show ?thesis
    by (fastforce simp: conn_inv_def setPhase_def split: option.splits if_splits)
next
  case (Cleanup c)
  with assms(2) obtain call r where c: "requests s c = Some call" "phase call = Returning r"
    and s': "s' = setPhase c call (Returned r) (s\<lparr>pending := (pending s)(call_id call := None)\<rparr>)"
    by (auto split: option.splits if_splits Phase.splits)
  show ?thesis
    unfolding conn_inv_def
  proof (intro allI impI)
    fix rid c0 assume p: "pending s' rid = Some c0"
    with s' have ne: "rid \<noteq> call_id call" and "pending s rid = Some c0"
      by (auto simp: setPhase_def split: if_splits)
    with assms(1) obtain call0 where c0: "requests s c0 = Some call0" "call_id call0 = rid"
      "holdsEntry (phase call0)" unfolding conn_inv_def by blast
    with c ne have "c0 \<noteq> c" by auto
    with c0 s' show "\<exists>call. requests s' c0 = Some call \<and> call_id call = rid \<and> holdsEntry (phase call)"
      by (simp add: setPhase_def)
  qed
next
  case (ReaderLine line)
  with assms show ?thesis
    by (fastforce simp: conn_inv_def split: option.splits if_splits)
qed

lemma conn_inv_run:
  "conn_inv s \<Longrightarrow> run evs s = Some s' \<Longrightarrow> conn_inv s'"
proof (induction evs arbitrary: s)
  case Nil
  then show ?case by simp
next
  case (Cons ev evs)
  from Cons.prems(2) obtain mid where m: "step ev s = Some mid" and r: "run evs mid = Some s'"
    by (auto split: option.splits)
  from Cons.IH[OF conn_inv_step[OF Cons.prems(1) m] r] show ?case .
qed

lemma returns_by_Cleanup:
  assumes "step ev s = Some s'"
    and "requests s' c = Some call'" and "returned (phase call')"
    and "\<not> (\<exists>call. requests s c = Some call \<and> returned (phase call))"
  shows "ev = Cleanup c \<and> pending s' (call_id call') = None"
proof (cases ev)
  case (Begin c0)
  with assms show ?thesis by (auto split: option.splits if_splits)
next
  case (Register c0)
  with assms show ?thesis by (auto simp: setPhase_def split: option.splits if_splits)
next
  case (MarshalFails c0 err)
  with assms show ?thesis by (auto simp: setPhase_def split: option.splits if_splits)
next
  case (WriteFails c0 err)
  with assms show ?thesis by (auto simp: setPhase_def split: option.splits if_splits)
next
  case (Written c0)
  with assms show ?thesis by (auto simp: setPhase_def split: option.splits if_splits)
next
  case (Receive c0)
  with assms show ?thesis
    by (auto simp: setPhase_def split: option.splits if_splits prod.splits)
next
  case (Cancelled c0 err)
  with assms show ?thesis by (auto simp: setPhase_def split: option.splits if_splits)
next
  case (Cleanup c0)
  with assms show ?thesis
    by (auto simp: setPhase_def split: option.splits if_splits Phase.splits)
next
  case (ReaderLine line)
  with assms show ?thesis by (auto split: option.splits if_splits)
qed

text \<open>
  Claim C8. In every state that the connection can reach through the steps of its
  callers and of the response reader: each entry of \<open>pending\<close> belongs to a request
  that is still outstanding, so \<open>pending\<close> is empty whenever no request is
  outstanding; the entry of a request that has returned is not in the map; and the
  step in which a request returns, whatever its result (a response, a JSON-RPC error,
  a failure to encode or to write, a cancelled context), is the deferred cleanup,
  which leaves no entry under the request's id.
\<close>

theorem pending_holds_outstanding_only:
  assumes "run evs NewServerConnection = Some s"
  shows "(\<forall>rid c. pending s rid = Some c \<longrightarrow> c \<in> outstanding s) \<and>
         (outstanding s = {} \<longrightarrow> pending s = Map.empty) \<and>
         (\<forall>c call. requests s c = Some call \<and> returned (phase call) \<longrightarrow>
            pending s (call_id call) \<noteq> Some c) \<and>
         (\<forall>ev s' c call'.
            step ev s = Some s' \<and> requests s' c = Some call' \<and> returned (phase call') \<and>
            \<not> (\<exists>call. requests s c = Some call \<and> returned (phase call)) \<longrightarrow>
            ev = Cleanup c \<and> pending s' (call_id call') = None)"
proof -
  from conn_inv_run[OF conn_inv_init assms] have inv: "conn_inv s" .
  have a: "c \<in> outstanding s" if "pending s rid = Some c" for rid c
    using inv that holdsEntry_not_returned
    unfolding conn_inv_def outstanding_def by blast
  have b: "pending s = Map.empty" if "outstanding s = {}"
  proof (rule ext)
    fix rid show "pending s rid = None"
      using a[of rid] that by (cases "pending s rid") auto
  qed
  have c: "pending s (call_id call) \<noteq> Some c" if "requests s c = Some call \<and> returned (phase call)"
    for c call
    using inv that holdsEntry_not_returned unfolding conn_inv_def by fastforce
  from a b c returns_by_Cleanup show ?thesis by blast
qed

lemmas mcp_examples =
  example_events_def NewServerConnection_def setPhase_def answer_def responseResult_def

lemma example_final_run: "run example_events NewServerConnection = Some example_final"
proof -
  have "\<exists>x. run example_events NewServerConnection = Some x"
    by (simp add: mcp_examples)
  then show ?thesis by (auto simp: example_final_def)
qed

lemma example_mid_run: "run (take 6 example_events) NewServerConnection = Some example_mid"
proof -
  have "\<exists>x. run (take 6 example_events) NewServerConnection = Some x"
    by (simp add: mcp_examples)
  then show ?thesis by (auto simp: example_mid_def)
qed

theorem pending_holds_outstanding_only_witness:
  "run example_events NewServerConnection = Some example_final \<and>
   outstanding example_final = {} \<and>
   pending example_final = Map.empty \<and>
   run (take 6 example_events) NewServerConnection = Some example_mid \<and>
   pending example_mid 1 = Some 0 \<and>
   pending example_mid 2 = Some 1 \<and>
   0 \<in> outstanding example_mid"
proof -
  have o: "outstanding example_final = {}"
    by (simp add: outstanding_def example_final_def mcp_examples)
  have p: "pending example_mid 1 = Some 0" "pending example_mid 2 = Some 1"
    by (simp_all add: example_mid_def mcp_examples)
  from pending_holds_outstanding_only [OF example_final_run] o
  have e: "pending example_final = Map.empty" by blast
  from pending_holds_outstanding_only [OF example_mid_run] p(1)
  have m: "0 \<in> outstanding example_mid" by blast
  from example_final_run o e example_mid_run p m show ?thesis by blast
qed

end
